(* ===== verification/Dhow_Prelude.thy ===== *)
theory Dhow_Prelude
  imports Main "HOL-Library.Word"
begin

text \<open>
  Shared vocabulary of the development.

  \<^item> The machine integers of the Rust code are words of their width; \<open>usize\<close> values
    (lengths and offsets of buffers held in memory) are \<^typ>\<open>nat\<close>, and every \<open>as\<close> cast to a
    narrower type is written out with \<open>of_nat\<close> or \<open>ucast\<close>.
  \<^item> A \<open>Result<T, E>\<close> is a sum \<open>'e + 'a\<close> with \<^const>\<open>Inl\<close> for \<open>Err\<close>; the \<open>?\<close> operator is
    \<open>res_bind\<close>.
  \<^item> A formatted message (\<open>format!\<close>) is its template together with the numbers put in it.
  \<^item> \<open>slice a b bs\<close> is \<open>bs[a..b]\<close>, \<open>le_bytes\<close> / \<open>le_word\<close> are \<open>to_le_bytes\<close> /
    \<open>from_le_bytes\<close>, \<open>div_ceil\<close>, \<open>checked_add\<close> and \<open>saturating_sub\<close> are the standard
    library's.
  The lemmas collected in \<open>wire_simps\<close> evaluate slices of concatenations of fields of known
  width; they carry the round-trip proofs of every wire format.
\<close>

unbundle bit_operations_syntax

type_synonym u8 = "8 word"
type_synonym u16 = "16 word"
type_synonym u32 = "32 word"
type_synonym u64 = "64 word"
type_synonym bytes = "u8 list"

named_theorems wire_simps \<open>slices and reads of concatenated fields of known width\<close>
named_theorems word_nat_simps \<open>reading word arithmetic as arithmetic on natural numbers\<close>

datatype detail = Detail string "nat list"

section \<open>Results\<close>

fun res_bind :: "'e + 'a \<Rightarrow> ('a \<Rightarrow> 'e + 'b) \<Rightarrow> 'e + 'b" where
  "res_bind (Inl e) f = Inl e"
| "res_bind (Inr a) f = f a"

fun map_err :: "('e \<Rightarrow> 'f) \<Rightarrow> 'e + 'a \<Rightarrow> 'f + 'a" where
  "map_err g (Inl e) = Inl (g e)"
| "map_err g (Inr a) = Inr a"

fun is_ok :: "'e + 'a \<Rightarrow> bool" where
  "is_ok (Inl e) = False"
| "is_ok (Inr a) = True"

lemma res_bind_eq_Inr [simp]:
  "res_bind r f = Inr b \<longleftrightarrow> (\<exists>a. r = Inr a \<and> f a = Inr b)"
  by (cases r) auto

lemma res_bind_eq_Inl:
  "res_bind r f = Inl e \<longleftrightarrow> r = Inl e \<or> (\<exists>a. r = Inr a \<and> f a = Inl e)"
  by (cases r) auto

lemma map_err_eq_Inr [simp]: "map_err g r = Inr b \<longleftrightarrow> r = Inr b"
  by (cases r) auto

lemma map_err_eq_Inl [simp]: "map_err g r = Inl f \<longleftrightarrow> (\<exists>e. r = Inl e \<and> f = g e)"
  by (cases r) auto

lemma is_ok_iff: "is_ok r \<longleftrightarrow> (\<exists>a. r = Inr a)"
  by (cases r) auto

section \<open>Slices\<close>

definition slice :: "nat \<Rightarrow> nat \<Rightarrow> 'a list \<Rightarrow> 'a list" where
  "slice a b xs = take (b - a) (drop a xs)"

lemma length_slice [simp]: "length (slice a b xs) = min (b - a) (length xs - a)"
  by (simp add: slice_def)

lemma length_slice_within [wire_simps]: "b \<le> length xs \<Longrightarrow> length (slice a b xs) = b - a"
  by simp

lemma slice_whole [wire_simps]: "length xs = b \<Longrightarrow> slice 0 b xs = xs"
  by (simp add: slice_def)

lemma slice_app_left [wire_simps]: "b \<le> length xs \<Longrightarrow> slice a b (xs @ ys) = slice a b xs"
  by (simp add: slice_def)

lemma slice_app_right [wire_simps]:
  "length xs \<le> a \<Longrightarrow> slice a b (xs @ ys) = slice (a - length xs) (b - length xs) ys"
  by (simp add: slice_def)

lemma slice_Cons [wire_simps]:
  "0 < a \<Longrightarrow> slice a b (x # xs) = slice (a - 1) (b - 1) xs"
  by (cases a) (auto simp: slice_def)

lemma slice_join: "a \<le> b \<Longrightarrow> b \<le> c \<Longrightarrow> slice a b xs @ slice b c xs = slice a c xs"
proof -
  assume "a \<le> b" "b \<le> c"
  then obtain k l where "b = a + k" "c = a + k + l"
    by (metis le_Suc_ex)
  then show ?thesis
    by (simp add: slice_def take_add add.commute)
qed

lemma slice_join_append:
  "a \<le> b \<Longrightarrow> b \<le> c \<Longrightarrow> slice a b xs @ (slice b c xs @ ys) = slice a c xs @ ys"
  by (simp add: slice_join flip: append_assoc)

lemma slice_nth_single: "i < length xs \<Longrightarrow> [xs ! i] = slice i (Suc i) xs"
  by (simp add: slice_def take_Suc_conv_app_nth Cons_nth_drop_Suc [symmetric])

lemma slice_0_take: "slice 0 b xs = take b xs"
  by (simp add: slice_def)

lemma slice_drop_rest: "a \<le> length xs \<Longrightarrow> slice a (length xs) xs = drop a xs"
  by (simp add: slice_def)

lemma nth_slice: "i < b - a \<Longrightarrow> a + i < length xs \<Longrightarrow> slice a b xs ! i = xs ! (a + i)"
  by (simp add: slice_def)

lemma slice_of_drop: "slice a b (drop k xs) = slice (k + a) (k + b) xs"
  by (simp add: slice_def add.commute)

lemma take_slice_append: "take n xs @ slice n m xs = slice 0 m xs" if "n \<le> m"
  using slice_join [of 0 n m xs] that by (simp add: slice_0_take)

section \<open>Little-endian integers\<close>

primrec le_bytes :: "nat \<Rightarrow> 'a::len word \<Rightarrow> bytes" where
  "le_bytes 0 w = []"
| "le_bytes (Suc n) w = ucast w # le_bytes n (drop_bit 8 w)"

primrec le_word :: "bytes \<Rightarrow> 'a::len word" where
  "le_word [] = 0"
| "le_word (b # bs) = ucast b OR push_bit 8 (le_word bs)"

abbreviation u16_to_le_bytes :: "u16 \<Rightarrow> bytes" where "u16_to_le_bytes \<equiv> le_bytes 2"
abbreviation u32_to_le_bytes :: "u32 \<Rightarrow> bytes" where "u32_to_le_bytes \<equiv> le_bytes 4"
abbreviation u64_to_le_bytes :: "u64 \<Rightarrow> bytes" where "u64_to_le_bytes \<equiv> le_bytes 8"
abbreviation u16_from_le_bytes :: "bytes \<Rightarrow> u16" where "u16_from_le_bytes \<equiv> le_word"
abbreviation u32_from_le_bytes :: "bytes \<Rightarrow> u32" where "u32_from_le_bytes \<equiv> le_word"
abbreviation u64_from_le_bytes :: "bytes \<Rightarrow> u64" where "u64_from_le_bytes \<equiv> le_word"

lemma length_le_bytes [simp, wire_simps]: "length (le_bytes n w) = n"
  by (induction n arbitrary: w) simp_all

lemma le_word_le_bytes_take_bit: "le_word (le_bytes n (w :: 'a::len word)) = take_bit (8 * n) w"
proof (induction n arbitrary: w)
  case 0
  show ?case by simp
next
  case (Suc n)
  show ?case
    by (rule bit_word_eqI)
      (auto simp: Suc bit_simps min_def le_Suc_eq not_less)
qed

lemma le_word_le_bytes [simp]:
  "LENGTH('a) \<le> 8 * n \<Longrightarrow> le_word (le_bytes n (w :: 'a::len word)) = w"
  by (auto simp: le_word_le_bytes_take_bit take_bit_word_eq_self)

lemma bit_le_word:
  "bit (le_word bs :: 'a::len word) n \<longleftrightarrow>
     n < LENGTH('a) \<and> n div 8 < length bs \<and> bit (bs ! (n div 8)) (n mod 8)"
proof (induction bs arbitrary: n)
  case Nil
  show ?case by simp
next
  case (Cons b bs)
  show ?case
  proof (cases "n < 8")
    case True
    then show ?thesis
      by (auto simp: bit_simps)
  next
    case False
    then obtain m where m: "n = m + 8"
      by (metis add.commute le_add_diff_inverse not_less)
    then have "(m + 8) div 8 = Suc (m div 8)" by simp
    with m False show ?thesis
      by (auto simp: bit_simps Cons dest: bit_imp_le_length)
  qed
qed

lemma le_bytes_le_word:
  "8 * length bs \<le> LENGTH('a::len) \<Longrightarrow> le_bytes (length bs) (le_word bs :: 'a word) = bs"
proof (induction bs)
  case Nil
  show ?case by simp
next
  case (Cons b bs)
  let ?w = "le_word bs :: 'a word"
  have low: "ucast (ucast b OR push_bit 8 ?w) = b"
    using Cons.prems by (intro bit_word_eqI) (auto simp: bit_simps)
  have small: "drop_bit 8 (push_bit 8 ?w) = ?w"
  proof (rule bit_word_eqI)
    fix n assume n: "n < LENGTH('a)"
    have "bit ?w n \<Longrightarrow> n + 8 < LENGTH('a)"
      using Cons.prems by (auto simp: bit_le_word)
    then show "bit (drop_bit 8 (push_bit 8 ?w)) n = bit ?w n"
      by (auto simp: bit_simps add.commute)
  qed
  have "drop_bit 8 (ucast b OR push_bit 8 ?w) = ?w"
  proof -
    have "drop_bit 8 (ucast b :: 'a word) = 0"
      by (rule bit_word_eqI) (auto simp: bit_simps dest: bit_imp_le_length)
    then show ?thesis by (simp add: drop_bit_or small)
  qed
  with low Cons show ?case by simp
qed

lemma le_bytes_le_word_len:
  "length bs = n \<Longrightarrow> 8 * n \<le> LENGTH('a::len) \<Longrightarrow> le_bytes n (le_word bs :: 'a word) = bs"
  using le_bytes_le_word by blast

text \<open>A field that was read back as the value \<open>v\<close> is the serialization of \<open>v\<close>.\<close>

lemma single_field:
  "a < length bs \<Longrightarrow> b = Suc a \<Longrightarrow> bs ! a = v \<Longrightarrow> [v] = slice a b bs"
  using slice_nth_single [of a bs] by simp

lemma word_field:
  "le_word (slice a b bs) = (w :: 'a::len word) \<Longrightarrow> b \<le> length bs \<Longrightarrow> b - a = n \<Longrightarrow>
   8 * n \<le> LENGTH('a) \<Longrightarrow> le_bytes n w = slice a b bs"
  using le_bytes_le_word_len [where 'a = 'a, of "slice a b bs" n] by auto

lemmas field_intros = single_field word_field

section \<open>Standard-library integer operations\<close>

definition div_ceil :: "'a::len word \<Rightarrow> 'a word \<Rightarrow> 'a word" where
  "div_ceil a b = (let d = a div b; r = a mod b in if r > 0 then d + 1 else d)"

definition div_ceil_usize :: "nat \<Rightarrow> nat \<Rightarrow> nat" where
  "div_ceil_usize a b = (if a mod b > 0 then a div b + 1 else a div b)"

definition checked_add :: "'a::len word \<Rightarrow> 'a word \<Rightarrow> 'a word option" where
  "checked_add a b = (if unat a + unat b < 2 ^ LENGTH('a) then Some (a + b) else None)"

definition saturating_sub :: "'a::len word \<Rightarrow> 'a word \<Rightarrow> 'a word" where
  "saturating_sub a b = (if b \<le> a then a - b else 0)"

definition count_ones :: "u8 \<Rightarrow> nat" where
  "count_ones b = length (filter (bit b) [0..<8])"

lemma unat_div_ceil [word_nat_simps]:
  fixes a b :: "'a::len word"
  assumes "0 < unat b"
  shows "unat (div_ceil a b) = div_ceil_usize (unat a) (unat b)"
proof (cases "unat a mod unat b = 0")
  case True
  then have "a mod b = 0"
    by (metis unat_mod unat_eq_0)
  with True show ?thesis
    by (simp add: div_ceil_def div_ceil_usize_def unat_div)
next
  case False
  then have r: "a mod b > 0"
    by (metis unat_mod unat_0 word_neq_0_conv)
  have lt: "unat a div unat b + 1 < 2 ^ LENGTH('a)"
  proof (cases "unat b = 1")
    case True
    with False show ?thesis by simp
  next
    case b: False
    with assms have "2 \<le> unat b" by simp
    then have "unat a div unat b \<le> unat a div 2"
      by (simp add: div_le_mono2)
    moreover have "unat a \<noteq> 0" using False by (metis mod_0)
    ultimately have "unat a div unat b + 1 \<le> unat a" by linarith
    moreover have "unat a < 2 ^ LENGTH('a)" by (rule unsigned_less)
    ultimately show ?thesis by linarith
  qed
  then have "unat (a div b + 1) = unat a div unat b + 1"
    by (simp add: unat_word_ariths unat_div)
  with False r show ?thesis
    by (simp add: div_ceil_def div_ceil_usize_def)
qed

lemma div_ceil_usize_bounds:
  assumes "0 < b"
  shows "a \<le> div_ceil_usize a b * b" and "div_ceil_usize a b * b < a + b"
proof -
  have eq: "a div b * b + a mod b = a" by (rule div_mult_mod_eq)
  have lt: "a mod b < b" using assms by simp
  show "a \<le> div_ceil_usize a b * b"
  proof (cases "a mod b = 0")
    case True
    with eq show ?thesis by (simp add: div_ceil_usize_def)
  next
    case False
    have "a \<le> a div b * b + b" using eq lt by linarith
    with False show ?thesis by (simp add: div_ceil_usize_def add.commute)
  qed
  show "div_ceil_usize a b * b < a + b"
  proof (cases "a mod b = 0")
    case True
    with eq assms show ?thesis by (simp add: div_ceil_usize_def)
  next
    case False
    have "a div b * b < a" using eq False by linarith
    with False show ?thesis by (simp add: div_ceil_usize_def add.commute)
  qed
qed

lemma div_ceil_usize_le: "0 < b \<Longrightarrow> div_ceil_usize a b \<le> a"
proof -
  assume b: "0 < b"
  show ?thesis
  proof (cases "a mod b = 0")
    case True
    then show ?thesis by (simp add: div_ceil_usize_def)
  next
    case False
    then have "1 < b" "0 < a"
      using b by (auto intro: Suc_lessI gr0I)
    then have "a div b < a" by simp
    then show ?thesis by (simp add: div_ceil_usize_def)
  qed
qed

lemma mid_bounds:
  assumes "low < high"
  shows "low < low + div_ceil_usize (high - low) 2" and "low + div_ceil_usize (high - low) 2 \<le> high"
proof -
  have "high - low \<le> div_ceil_usize (high - low) 2 * 2"
    "div_ceil_usize (high - low) 2 \<le> high - low"
    using div_ceil_usize_bounds(1) [of 2 "high - low"] div_ceil_usize_le [of 2 "high - low"] by auto
  with assms show "low < low + div_ceil_usize (high - low) 2"
    "low + div_ceil_usize (high - low) 2 \<le> high" by auto
qed

lemma checked_add_Some_iff:
  fixes a b c :: "'a::len word"
  shows "checked_add a b = Some c \<longleftrightarrow> unat c = unat a + unat b"
proof
  assume "checked_add a b = Some c"
  then show "unat c = unat a + unat b"
    by (auto simp: checked_add_def unat_word_ariths split: if_splits)
next
  assume c: "unat c = unat a + unat b"
  have "unat c < 2 ^ LENGTH('a)" by (rule unsigned_less)
  with c have lt: "unat a + unat b < 2 ^ LENGTH('a)" by simp
  from c have "c = a + b"
    by (metis of_nat_add of_nat_unat ucast_id)
  with lt show "checked_add a b = Some c"
    by (simp add: checked_add_def)
qed

lemma unat_saturating_sub [word_nat_simps]:
  "unat (saturating_sub a b) = unat a - unat b"
  by (simp add: saturating_sub_def unat_sub word_le_nat_alt)

lemma unat_of_nat_lt [word_nat_simps]:
  "n < 2 ^ LENGTH('a) \<Longrightarrow> unat (of_nat n :: 'a::len word) = n"
  by (simp add: unat_of_nat)

lemma unat_ucast_ge [word_nat_simps]:
  "LENGTH('a) \<le> LENGTH('b) \<Longrightarrow> unat (ucast (w :: 'a::len word) :: 'b::len word) = unat w"
proof -
  assume "LENGTH('a) \<le> LENGTH('b)"
  then have "unat w < 2 ^ LENGTH('b)"
    using unsigned_less [where w = w] by (meson less_le_trans power_increasing one_le_numeral)
  then show ?thesis
    by (simp add: unsigned_ucast_eq take_bit_nat_eq_self)
qed

lemma unat_add_no_overflow [word_nat_simps]:
  "unat a + unat b < 2 ^ LENGTH('a) \<Longrightarrow> unat (a + b :: 'a::len word) = unat a + unat b"
  by (simp add: unat_word_ariths)

lemma unat_inc_less: "i < b \<Longrightarrow> unat (i + 1 :: 'a::len word) = unat i + 1"
proof -
  assume "i < b"
  then have "unat i < unat b" by (simp add: word_less_nat_alt)
  moreover have "unat b < 2 ^ LENGTH('a)" by (rule unsigned_less)
  ultimately have "Suc (unat i) < 2 ^ LENGTH('a)" by linarith
  then show ?thesis by (simp add: unat_word_ariths)
qed

section \<open>Lists\<close>

lemma map_nth_upt: "map (\<lambda>i. xs ! i) [0..<length xs] = xs"
  by (rule map_nth)

lemma take_append_drop_slice: "n \<le> length xs \<Longrightarrow> xs = take n xs @ drop n xs"
  by simp

section \<open>Printing\<close>

fun decimal :: "nat \<Rightarrow> string" where
  "decimal n = (if n < 10 then [char_of (48 + n)] else decimal (n div 10) @ [char_of (48 + n mod 10)])"

declare decimal.simps [simp del]

end
