(* ===== verification/Chunker.thy ===== *)
theory Chunker
  imports Dhow_Prelude
begin

text \<open>
  The payload chunker of \<open>core/dhow-codec/src/chunker.rs\<close>: parameter validation, the block
  layout loop, block and symbol queries, extraction and reassembly.

  The abstract layout is \<open>block_size\<close> / \<open>block_start\<close>: the first \<open>S mod B\<close> blocks have
  \<open>S div B + 1\<close> bytes and the rest \<open>S div B\<close>. The lemmas show that the loop computes exactly
  this layout without overflow, that the blocks partition the payload, and that extraction
  followed by reassembly is the identity.

  \<open>ChunkParams::new\<close> refuses a block count of zero, and so does \<open>SessionParams::validate\<close>. For parameters with that count built field by field, where the layout loop runs no
  pass, \<open>chunk_map_new\<close> gives the empty map; the division before the loop panics there in Rust.
\<close>

section \<open>The code\<close>

datatype ChunkError =
    PayloadTooLarge u64 u64
  | InvalidBlockCount u32
  | InvalidSymbolSize u32
  | EmptyPayload
  | BlockIndexOutOfRange u32 u32
  | SymbolIndexOutOfRange u32 u32
  | ChunkTruncated nat nat

definition MAX_PAYLOAD_SIZE :: u64 where "MAX_PAYLOAD_SIZE = 4 * 1024 * 1024 * 1024"
definition MIN_SYMBOL_SIZE :: u32 where "MIN_SYMBOL_SIZE = 1"
definition MAX_SYMBOL_SIZE :: u32 where "MAX_SYMBOL_SIZE = 65535"
definition MIN_BLOCK_COUNT :: u32 where "MIN_BLOCK_COUNT = 1"
definition MAX_BLOCK_COUNT :: u32 where "MAX_BLOCK_COUNT = 1024"

record ChunkParams =
  cp_payload_size :: u64
  cp_block_count :: u32
  cp_symbol_size :: u32

definition chunk_params_new :: "u64 \<Rightarrow> u32 \<Rightarrow> u32 \<Rightarrow> ChunkError + ChunkParams" where
  "chunk_params_new payload_size block_count symbol_size =
     (if payload_size > MAX_PAYLOAD_SIZE then Inl (PayloadTooLarge payload_size MAX_PAYLOAD_SIZE)
      else if \<not> (MIN_BLOCK_COUNT \<le> block_count \<and> block_count \<le> MAX_BLOCK_COUNT)
        then Inl (InvalidBlockCount block_count)
      else if \<not> (MIN_SYMBOL_SIZE \<le> symbol_size \<and> symbol_size \<le> MAX_SYMBOL_SIZE)
        then Inl (InvalidSymbolSize symbol_size)
      else Inr \<lparr>cp_payload_size = payload_size, cp_block_count = block_count,
                cp_symbol_size = symbol_size\<rparr>)"

record BlockInfo =
  bi_index :: u32
  bi_start :: u64
  bi_size :: u64
  bi_symbol_count :: u32

record SymbolInfo =
  si_index :: u32
  si_start :: u64
  si_size :: u64
  si_padded :: bool

record ChunkMap =
  cm_params :: ChunkParams
  cm_blocks :: "BlockInfo list"

text \<open>The body of the layout loop: the size and the symbol count of block \<open>i\<close>. The loop runs
  over \<open>i in 0..b\<close>, pushing a block and advancing the offset, and returns on the first error.\<close>

definition block_symbol_count :: "u64 \<Rightarrow> u64 \<Rightarrow> u32 \<Rightarrow> ChunkError + u32" where
  "block_symbol_count sz n symbol_size =
     (if sz = 0 then Inr 0
      else let sc = div_ceil sz n in
        if sc > ucast (0xFFFFFFFF :: u32) then Inl (InvalidSymbolSize symbol_size) else Inr (ucast sc))"

function compute_blocks_loop ::
  "ChunkParams \<Rightarrow> u64 \<Rightarrow> u64 \<Rightarrow> BlockInfo list \<Rightarrow> ChunkError + BlockInfo list" where
  "compute_blocks_loop params i offset blocks =
     (let s = cp_payload_size params;
          b = ucast (cp_block_count params);
          n = ucast (cp_symbol_size params);
          remainder = s mod b;
          large_size = div_ceil s b;
          small_size = s div b
      in if i < b then
           (let size = (if i < remainder then large_size else small_size) in
            res_bind (block_symbol_count size n (cp_symbol_size params)) (\<lambda>symbol_count.
              compute_blocks_loop params (i + 1) (offset + size)
                (blocks @ [\<lparr>bi_index = ucast i, bi_start = offset, bi_size = size,
                            bi_symbol_count = symbol_count\<rparr>])))
         else Inr blocks)"
  by pat_completeness auto
termination
proof (relation "measure (\<lambda>(params, i, offset, blocks). unat (ucast (cp_block_count params) :: u64) - unat i)",
    goal_cases)
  case 1
  show ?case by simp
next
  case (2 params i offset blocks s b n remainder large small size sc)
  then have "unat i < unat b" by (simp add: word_less_nat_alt)
  moreover have "unat (i + 1) = unat i + 1"
    using 2 by (intro unat_inc_less) blast
  ultimately show ?case using 2 by simp
qed

declare compute_blocks_loop.simps [simp del]

definition compute_blocks :: "ChunkParams \<Rightarrow> ChunkError + BlockInfo list" where
  "compute_blocks params = compute_blocks_loop params 0 0 []"

definition chunk_map_new :: "ChunkParams \<Rightarrow> ChunkError + ChunkMap" where
  "chunk_map_new params =
     res_bind (compute_blocks params) (\<lambda>blocks. Inr \<lparr>cm_params = params, cm_blocks = blocks\<rparr>)"

definition cm_block_count :: "ChunkMap \<Rightarrow> u32" where
  "cm_block_count m = of_nat (length (cm_blocks m))"

definition total_symbols :: "ChunkMap \<Rightarrow> u32" where
  "total_symbols m = sum_list (map bi_symbol_count (cm_blocks m))"

definition block_info :: "ChunkMap \<Rightarrow> u32 \<Rightarrow> ChunkError + BlockInfo" where
  "block_info m index =
     (if index \<ge> cm_block_count m then Inl (BlockIndexOutOfRange index (cm_block_count m))
      else Inr (cm_blocks m ! unat index))"

definition symbol_info :: "ChunkMap \<Rightarrow> u32 \<Rightarrow> u32 \<Rightarrow> ChunkError + SymbolInfo" where
  "symbol_info m block_index symbol_index =
     res_bind (block_info m block_index) (\<lambda>block.
       if symbol_index \<ge> bi_symbol_count block
         then Inl (SymbolIndexOutOfRange symbol_index (bi_symbol_count block))
       else
         (let n = ucast (cp_symbol_size (cm_params m)) :: u64;
              start = ucast symbol_index * n;
              size = (if bi_size block mod n \<noteq> 0 \<and> symbol_index = bi_symbol_count block - 1
                      then bi_size block mod n else n)
          in Inr \<lparr>si_index = symbol_index, si_start = start, si_size = size,
                  si_padded = (size < n)\<rparr>))"

definition extract_block :: "ChunkMap \<Rightarrow> bytes \<Rightarrow> u32 \<Rightarrow> ChunkError + bytes" where
  "extract_block m payload block_index =
     res_bind (block_info m block_index) (\<lambda>block.
       let start = unat (bi_start block);
           fin = start + unat (bi_size block)
       in if fin > length payload then Inl (ChunkTruncated fin (length payload))
          else Inr (slice start fin payload))"

definition extract_symbol :: "ChunkMap \<Rightarrow> bytes \<Rightarrow> u32 \<Rightarrow> u32 \<Rightarrow> ChunkError + bytes" where
  "extract_symbol m block_payload block_index symbol_index =
     res_bind (symbol_info m block_index symbol_index) (\<lambda>info.
       let n = unat (cp_symbol_size (cm_params m));
           start = unat (si_start info);
           fin = start + unat (si_size info)
       in if fin > length block_payload then Inl (ChunkTruncated fin (length block_payload))
          else Inr (slice start fin block_payload @ replicate (n - unat (si_size info)) 0))"

fun reassemble_loop :: "BlockInfo list \<Rightarrow> bytes list \<Rightarrow> bytes \<Rightarrow> ChunkError + bytes" where
  "reassemble_loop (info # infos) (block # blocks) payload =
     (let size = unat (bi_size info) in
      if length block < size then Inl (ChunkTruncated size (length block))
      else reassemble_loop infos blocks (payload @ take size block))"
| "reassemble_loop _ _ payload = Inr payload"

definition reassemble :: "ChunkMap \<Rightarrow> bytes list \<Rightarrow> ChunkError + bytes" where
  "reassemble m blocks =
     (if length blocks \<noteq> unat (cm_block_count m)
        then Inl (BlockIndexOutOfRange (of_nat (length blocks)) (cm_block_count m))
      else reassemble_loop (cm_blocks m) blocks [])"

section \<open>The abstract layout\<close>

definition block_size :: "nat \<Rightarrow> nat \<Rightarrow> nat \<Rightarrow> nat" where
  "block_size S B i = S div B + (if i < S mod B then 1 else 0)"

definition block_start :: "nat \<Rightarrow> nat \<Rightarrow> nat \<Rightarrow> nat" where
  "block_start S B i = i * (S div B) + min i (S mod B)"

lemma block_start_0 [simp]: "block_start S B 0 = 0"
  by (simp add: block_start_def)

lemma block_start_Suc: "block_start S B (Suc i) = block_start S B i + block_size S B i"
  by (simp add: block_start_def block_size_def)

lemma block_start_end: "0 < B \<Longrightarrow> block_start S B B = S"
  using mod_less_divisor [of B S] by (simp add: block_start_def mult.commute)

lemma block_start_mono: "i \<le> j \<Longrightarrow> block_start S B i \<le> block_start S B j"
  unfolding block_start_def by (intro add_mono mult_le_mono1) auto

lemma block_start_le: "0 < B \<Longrightarrow> i \<le> B \<Longrightarrow> block_start S B i \<le> S"
  using block_start_mono [of i B S B] by (simp add: block_start_end)

lemma block_size_le: "0 < B \<Longrightarrow> i < B \<Longrightarrow> block_size S B i \<le> S"
  using block_start_le [of B "Suc i" S] by (simp add: block_start_Suc)

definition params_valid :: "ChunkParams \<Rightarrow> bool" where
  "params_valid p \<longleftrightarrow> unat (cp_payload_size p) \<le> 2 ^ 32 \<and>
     0 < unat (cp_block_count p) \<and> unat (cp_block_count p) \<le> 1024 \<and>
     0 < unat (cp_symbol_size p) \<and> unat (cp_symbol_size p) \<le> 65535"

lemma chunk_params_new_valid:
  "chunk_params_new s b n = Inr p \<longleftrightarrow>
     p = \<lparr>cp_payload_size = s, cp_block_count = b, cp_symbol_size = n\<rparr> \<and> params_valid p"
proof -
  have "s > MAX_PAYLOAD_SIZE \<longleftrightarrow> unat s > 2 ^ 32"
    by (simp add: MAX_PAYLOAD_SIZE_def word_less_nat_alt)
  moreover have "MIN_BLOCK_COUNT \<le> b \<and> b \<le> MAX_BLOCK_COUNT \<longleftrightarrow> 0 < unat b \<and> unat b \<le> 1024"
    by (simp add: MIN_BLOCK_COUNT_def MAX_BLOCK_COUNT_def word_le_nat_alt Suc_le_eq)
  moreover have "MIN_SYMBOL_SIZE \<le> n \<and> n \<le> MAX_SYMBOL_SIZE \<longleftrightarrow> 0 < unat n \<and> unat n \<le> 65535"
    by (simp add: MIN_SYMBOL_SIZE_def MAX_SYMBOL_SIZE_def word_le_nat_alt Suc_le_eq)
  ultimately show ?thesis
    by (auto simp: chunk_params_new_def params_valid_def)
qed

section \<open>The loop computes the layout\<close>

definition layout_block :: "ChunkParams \<Rightarrow> nat \<Rightarrow> BlockInfo" where
  "layout_block p i =
     (let S = unat (cp_payload_size p); B = unat (cp_block_count p); n = unat (cp_symbol_size p) in
      \<lparr>bi_index = of_nat i, bi_start = of_nat (block_start S B i),
       bi_size = of_nat (block_size S B i),
       bi_symbol_count = of_nat (div_ceil_usize (block_size S B i) n)\<rparr>)"

text \<open>The only valid parameters whose symbol count does not fit a \<open>u32\<close>: one block of
  \<open>2 ^ 32\<close> bytes cut into one-byte symbols.\<close>

definition symbol_overflow :: "ChunkParams \<Rightarrow> bool" where
  "symbol_overflow p \<longleftrightarrow> cp_payload_size p = 2 ^ 32 \<and> cp_block_count p = 1 \<and> cp_symbol_size p = 1"

lemma block_size_unat:
  assumes "params_valid p" and "i < ucast (cp_block_count p)"
  shows "unat (if i < cp_payload_size p mod ucast (cp_block_count p)
           then div_ceil (cp_payload_size p) (ucast (cp_block_count p))
           else cp_payload_size p div ucast (cp_block_count p)) =
     block_size (unat (cp_payload_size p)) (unat (cp_block_count p)) (unat (i :: u64))"
proof -
  have b: "0 < unat (ucast (cp_block_count p) :: u64)"
    using assms(1) by (simp add: params_valid_def unat_ucast_ge)
  show ?thesis
    using assms(1)
    by (auto simp: unat_div_ceil [OF b] block_size_def div_ceil_usize_def unat_div unat_mod
        unat_ucast_ge word_less_nat_alt)
qed

lemma block_symbol_count_eq:
  assumes "unat sz \<le> 2 ^ 32" and "0 < unat n"
  shows "block_symbol_count sz n e =
     (if unat sz = 2 ^ 32 \<and> unat n = 1 then Inl (InvalidSymbolSize e)
      else Inr (of_nat (div_ceil_usize (unat sz) (unat n))))"
proof (cases "sz = 0")
  case True
  then show ?thesis by (simp add: block_symbol_count_def div_ceil_usize_def)
next
  case False
  have dc: "unat (div_ceil sz n) = div_ceil_usize (unat sz) (unat n)"
    by (rule unat_div_ceil [OF assms(2)])
  have cast: "ucast (div_ceil sz n) = (of_nat (div_ceil_usize (unat sz) (unat n)) :: u32)"
    by (simp add: dc [symmetric])
  have "div_ceil sz n > ucast (0xFFFFFFFF :: u32) \<longleftrightarrow> div_ceil_usize (unat sz) (unat n) \<ge> 2 ^ 32"
    by (simp add: word_less_nat_alt dc unat_ucast_ge) linarith
  also have "\<dots> \<longleftrightarrow> unat sz = 2 ^ 32 \<and> unat n = 1"
  proof
    assume big: "div_ceil_usize (unat sz) (unat n) \<ge> 2 ^ 32"
    then have sz: "unat sz = 2 ^ 32"
      using div_ceil_usize_le [OF assms(2), of "unat sz"] assms(1) by simp
    have "unat n < 2"
    proof (rule ccontr)
      assume "\<not> unat n < 2"
      then have "2 ^ 32 * 2 \<le> div_ceil_usize (unat sz) (unat n) * unat n"
        using big by (intro mult_le_mono) simp_all
      with div_ceil_usize_bounds (2) [OF assms(2), of "unat sz"] sz
      have "2 ^ 32 < unat n" by simp
      then have "unat sz div unat n = 0" using sz by simp
      then show False using big by (simp add: div_ceil_usize_def split: if_splits)
    qed
    with assms(2) sz show "unat sz = 2 ^ 32 \<and> unat n = 1" by simp
  qed (simp add: div_ceil_usize_def)
  finally show ?thesis
    using False cast by (simp add: block_symbol_count_def Let_def)
qed

lemma block_size_one_block: "block_size S 1 0 = S"
  by (simp add: block_size_def)

lemma block_size_full:
  assumes "0 < B" and "i < B" and "S \<le> 2 ^ 32" and "block_size S B i = 2 ^ 32"
  shows "B = 1 \<and> S = 2 ^ 32"
proof -
  have S: "S = 2 ^ 32" using block_size_le [OF assms(1,2), of S] assms(3,4) by simp
  have "B = 1"
  proof (rule ccontr)
    assume "B \<noteq> 1"
    with assms(1) have "2 \<le> B" by simp
    then have "S div B \<le> S div 2" by (rule div_le_mono2 [rotated]) simp
    with S have "S div B \<le> 2 ^ 31" by simp
    with assms(4) show False by (simp add: block_size_def split: if_splits)
  qed
  with S show ?thesis by simp
qed

lemma symbol_overflow_iff:
  assumes "params_valid p" and "i < unat (cp_block_count p)"
  shows "block_size (unat (cp_payload_size p)) (unat (cp_block_count p)) i = 2 ^ 32 \<and>
     unat (cp_symbol_size p) = 1 \<longleftrightarrow> symbol_overflow p"
proof
  let ?S = "unat (cp_payload_size p)" and ?B = "unat (cp_block_count p)"
  assume l: "block_size ?S ?B i = 2 ^ 32 \<and> unat (cp_symbol_size p) = 1"
  then have "?B = 1" "?S = 2 ^ 32"
    using block_size_full [of ?B i ?S] assms by (auto simp: params_valid_def)
  with l show "symbol_overflow p"
    by (simp add: symbol_overflow_def word_unat_eq_iff)
next
  assume "symbol_overflow p"
  then show "block_size (unat (cp_payload_size p)) (unat (cp_block_count p)) i = 2 ^ 32 \<and>
     unat (cp_symbol_size p) = 1"
    using assms(2) by (simp add: symbol_overflow_def block_size_one_block [unfolded One_nat_def])
qed

lemma compute_blocks_loop_eq:
  assumes "params_valid p"
  shows "unat i \<le> unat (cp_block_count p) \<Longrightarrow>
     unat offset = block_start (unat (cp_payload_size p)) (unat (cp_block_count p)) (unat i) \<Longrightarrow>
     \<not> symbol_overflow p \<Longrightarrow>
     compute_blocks_loop p i offset blocks =
       Inr (blocks @ map (layout_block p) [unat i..<unat (cp_block_count p)])"
  using assms
proof (induction p i offset blocks rule: compute_blocks_loop.induct)
  case (1 p i offset blocks)
  let ?S = "unat (cp_payload_size p)" and ?B = "unat (cp_block_count p)"
  let ?b = "ucast (cp_block_count p) :: u64" and ?n = "ucast (cp_symbol_size p) :: u64"
  show ?case
  proof (cases "i < ?b")
    case True
    define sz where "sz = (if i < cp_payload_size p mod ?b then div_ceil (cp_payload_size p) ?b
        else cp_payload_size p div ?b)"
    have iB: "unat i < ?B" using True by (simp add: word_less_nat_alt unat_ucast_ge)
    have sz: "unat sz = block_size ?S ?B (unat i)"
      unfolding sz_def by (rule block_size_unat [OF "1.prems"(4) True])
    have S: "?S \<le> 2 ^ 32" "0 < ?B" using "1.prems"(4) by (auto simp: params_valid_def)
    have n: "0 < unat ?n" using "1.prems"(4) by (simp add: params_valid_def unat_ucast_ge)
    have "unat sz \<le> ?S" unfolding sz by (rule block_size_le [OF S(2) iB])
    with S have "unat sz \<le> 2 ^ 32" by simp
    then have sc: "block_symbol_count sz ?n (cp_symbol_size p) =
        Inr (of_nat (div_ceil_usize (unat sz) (unat ?n)))"
      using symbol_overflow_iff [OF "1.prems"(4) iB] "1.prems"(3) block_symbol_count_eq [OF _ n, of sz]
      by (auto simp: sz unat_ucast_ge)
    have ends: "block_start ?S ?B (unat i) + block_size ?S ?B (unat i) \<le> ?S"
      using block_start_le [of ?B "Suc (unat i)" ?S] iB S by (simp add: block_start_Suc)
    then have off: "unat (offset + sz) = block_start ?S ?B (unat i + 1)"
      using S by (subst unat_add_no_overflow) (simp_all add: "1.prems"(2) sz block_start_Suc)
    have inc: "unat (i + 1) = unat i + 1" using True by (rule unat_inc_less)
    have blk: "\<lparr>bi_index = ucast i, bi_start = offset, bi_size = sz,
        bi_symbol_count = of_nat (div_ceil_usize (unat sz) (unat ?n))\<rparr> = layout_block p (unat i)"
      using "1.prems"(2) by (simp add: layout_block_def Let_def sz [symmetric] unat_ucast_ge
          word_unat_eq_iff flip: "1.prems"(2))
    have "compute_blocks_loop p i offset blocks =
        compute_blocks_loop p (i + 1) (offset + sz) (blocks @ [layout_block p (unat i)])"
      using True by (subst compute_blocks_loop.simps)
        (simp add: Let_def sc blk flip: sz_def)
    also have "\<dots> = Inr ((blocks @ [layout_block p (unat i)]) @ map (layout_block p) [unat i + 1..<?B])"
      using "1.IH" [OF refl refl refl refl refl refl True sz_def, of "of_nat (div_ceil_usize (unat sz) (unat ?n))"]
        iB off inc "1.prems" by (simp add: blk)
    finally show ?thesis
      using iB by (simp add: upt_conv_Cons)
  next
    case False
    with "1.prems"(1) have "unat i = ?B" by (simp add: word_less_nat_alt unat_ucast_ge)
    with False show ?thesis by (subst compute_blocks_loop.simps) (simp add: Let_def)
  qed
qed

lemma compute_blocks_overflow:
  assumes "symbol_overflow p"
  shows "compute_blocks p = Inl (InvalidSymbolSize 1)"
proof -
  have "block_symbol_count (2 ^ 32) 1 1 = Inl (InvalidSymbolSize 1)"
    by (subst block_symbol_count_eq) simp_all
  then show ?thesis
    using assms by (simp add: compute_blocks_def symbol_overflow_def compute_blocks_loop.simps Let_def
        div_ceil_def)
qed

lemma chunk_map_new_eq:
  assumes "params_valid p"
  shows "chunk_map_new p =
     (if symbol_overflow p then Inl (InvalidSymbolSize 1)
      else Inr \<lparr>cm_params = p, cm_blocks = map (layout_block p) [0..<unat (cp_block_count p)]\<rparr>)"
  using compute_blocks_loop_eq [OF assms, of 0 0 "[]"]
  by (simp add: chunk_map_new_def compute_blocks_overflow) (simp add: compute_blocks_def)

section \<open>Queries on a computed map\<close>

text \<open>\<open>map_for p m\<close>: \<open>m\<close> is the chunk map computed for the valid parameters \<open>p\<close>.\<close>

definition map_for :: "ChunkParams \<Rightarrow> ChunkMap \<Rightarrow> bool" where
  "map_for p m \<longleftrightarrow> params_valid p \<and> chunk_map_new p = Inr m"

lemma map_for_blocks:
  "map_for p m \<Longrightarrow> cm_params m = p \<and>
     cm_blocks m = map (layout_block p) [0..<unat (cp_block_count p)]"
  by (auto simp: map_for_def chunk_map_new_eq split: if_splits)

lemma layout_block_fields:
  assumes "params_valid p" and "i < unat (cp_block_count p)"
  shows "unat (bi_index (layout_block p i)) = i"
    and "unat (bi_start (layout_block p i)) =
           block_start (unat (cp_payload_size p)) (unat (cp_block_count p)) i"
    and "unat (bi_size (layout_block p i)) =
           block_size (unat (cp_payload_size p)) (unat (cp_block_count p)) i"
proof -
  let ?S = "unat (cp_payload_size p)" and ?B = "unat (cp_block_count p)"
  have v: "?S \<le> 2 ^ 32" "0 < ?B" "?B \<le> 1024" using assms(1) by (auto simp: params_valid_def)
  show "unat (bi_index (layout_block p i)) = i"
    using assms(2) v by (simp add: layout_block_def Let_def unat_of_nat)
  have "block_start ?S ?B i \<le> 2 ^ 32"
    using block_start_le [of ?B i ?S] assms(2) v by simp
  then show "unat (bi_start (layout_block p i)) = block_start ?S ?B i"
    by (simp add: layout_block_def Let_def unat_of_nat)
  have "block_size ?S ?B i \<le> 2 ^ 32"
    using block_size_le [of ?B i ?S] assms(2) v by simp
  then show "unat (bi_size (layout_block p i)) = block_size ?S ?B i"
    by (simp add: layout_block_def Let_def unat_of_nat)
qed

lemma map_for_block_count: "map_for p m \<Longrightarrow> cm_block_count m = cp_block_count p"
  by (simp add: cm_block_count_def map_for_blocks)

lemma block_info_eq:
  "map_for p m \<Longrightarrow> block_info m i =
     (if unat i < unat (cp_block_count p) then Inr (layout_block p (unat i))
      else Inl (BlockIndexOutOfRange i (cp_block_count p)))"
  by (simp add: block_info_def map_for_block_count map_for_blocks word_le_nat_alt)

lemma extract_block_eq:
  assumes "map_for p m" and "length payload = unat (cp_payload_size p)"
    and "unat i < unat (cp_block_count p)"
  shows "extract_block m payload i =
     (let S = unat (cp_payload_size p); B = unat (cp_block_count p) in
      Inr (slice (block_start S B (unat i)) (block_start S B (Suc (unat i))) payload))"
proof -
  have v: "params_valid p" using assms(1) by (simp add: map_for_def)
  then have "0 < unat (cp_block_count p)" by (simp add: params_valid_def)
  with block_start_le [OF this, of "Suc (unat i)" "unat (cp_payload_size p)"] assms
  show ?thesis
    by (simp add: extract_block_def block_info_eq layout_block_fields [OF v] Let_def block_start_Suc)
qed

lemma concat_slices:
  "mono f \<Longrightarrow> f 0 = 0 \<Longrightarrow> concat (map (\<lambda>i. slice (f i) (f (Suc i)) xs) [0..<n]) = slice 0 (f n) xs"
proof (induction n)
  case 0
  then show ?case by (simp add: slice_def)
next
  case (Suc n)
  then show ?case by (simp add: slice_join monoD)
qed

lemma reassemble_loop_exact:
  "list_all2 (\<lambda>info block. length block = unat (bi_size info)) infos blocks \<Longrightarrow>
   reassemble_loop infos blocks acc = Inr (acc @ concat blocks)"
  by (induction infos blocks acc rule: reassemble_loop.induct) (auto simp: Let_def)

lemma reassemble_exact:
  assumes "map_for p m" and "length blocks = unat (cp_block_count p)"
    and "\<And>i. i < length blocks \<Longrightarrow> length (blocks ! i) =
           block_size (unat (cp_payload_size p)) (unat (cp_block_count p)) i"
  shows "reassemble m blocks = Inr (concat blocks)"
proof -
  have v: "params_valid p" using assms(1) by (simp add: map_for_def)
  have "reassemble_loop (cm_blocks m) blocks [] = Inr ([] @ concat blocks)"
    using assms by (intro reassemble_loop_exact)
      (auto simp: map_for_blocks layout_block_fields [OF v] list_all2_conv_all_nth)
  then show ?thesis
    using assms(2) by (simp add: reassemble_def map_for_block_count [OF assms(1)])
qed

text \<open>The blocks of a payload, as the sender extracts them.\<close>

definition payload_blocks :: "ChunkParams \<Rightarrow> bytes \<Rightarrow> bytes list" where
  "payload_blocks p payload =
     (let S = unat (cp_payload_size p); B = unat (cp_block_count p) in
      map (\<lambda>i. slice (block_start S B i) (block_start S B (Suc i)) payload) [0..<B])"

lemma payload_blocks_props:
  assumes "params_valid p" and "length payload = unat (cp_payload_size p)"
  shows "length (payload_blocks p payload) = unat (cp_block_count p)"
    and "i < unat (cp_block_count p) \<Longrightarrow> length (payload_blocks p payload ! i) =
           block_size (unat (cp_payload_size p)) (unat (cp_block_count p)) i"
    and "concat (payload_blocks p payload) = payload"
proof -
  let ?S = "unat (cp_payload_size p)" and ?B = "unat (cp_block_count p)"
  have B: "0 < ?B" using assms(1) by (simp add: params_valid_def)
  show "length (payload_blocks p payload) = ?B" by (simp add: payload_blocks_def Let_def)
  show "length (payload_blocks p payload ! i) = block_size ?S ?B i" if "i < ?B"
    using that block_start_le [OF B, of "Suc i" ?S] assms(2)
    by (simp add: payload_blocks_def Let_def block_start_Suc)
  have "mono (block_start ?S ?B)" by (rule monoI) (rule block_start_mono)
  from concat_slices [OF this, of payload ?B] assms(2) B
  show "concat (payload_blocks p payload) = payload"
    by (simp add: payload_blocks_def Let_def block_start_end slice_whole)
qed

lemma extract_block_payload_blocks:
  assumes "map_for p m" and "length payload = unat (cp_payload_size p)"
    and "unat i < unat (cp_block_count p)"
  shows "extract_block m payload i = Inr (payload_blocks p payload ! unat i)"
  using assms(3) by (simp add: extract_block_eq [OF assms] payload_blocks_def Let_def)

lemma reassemble_payload_blocks:
  assumes "map_for p m" and "length payload = unat (cp_payload_size p)"
  shows "reassemble m (payload_blocks p payload) = Inr payload"
proof -
  have v: "params_valid p" using assms(1) by (simp add: map_for_def)
  note props = payload_blocks_props [OF v assms(2)]
  show ?thesis
    by (subst reassemble_exact [OF assms(1)]) (simp_all add: props)
qed

section \<open>Symbols\<close>

definition padded_block :: "nat \<Rightarrow> bytes \<Rightarrow> bytes" where
  "padded_block n block =
     block @ replicate (div_ceil_usize (length block) n * n - length block) 0"

lemma length_padded_block:
  "0 < n \<Longrightarrow> length (padded_block n block) = div_ceil_usize (length block) n * n"
  using div_ceil_usize_bounds (1) [of n "length block"] by (simp add: padded_block_def)

lemma last_symbol_size:
  assumes "0 < n" and "j < div_ceil_usize sz n"
  shows "(if sz mod n \<noteq> 0 \<and> j = div_ceil_usize sz n - 1 then sz mod n else n) =
     min (Suc j * n) sz - j * n"
proof (cases "sz mod n \<noteq> 0 \<and> j = div_ceil_usize sz n - 1")
  case True
  then have j: "j = sz div n" by (simp add: div_ceil_usize_def)
  have "sz < Suc j * n" using assms(1) by (simp add: j add.commute dividend_less_times_div mult.commute)
  then have "min (Suc j * n) sz - j * n = sz - sz div n * n" by (simp add: j)
  then show ?thesis using True by (simp only: minus_div_mult_eq_mod if_True simp_thms)
next
  case False
  have "Suc j \<le> sz div n"
    using False assms(2) by (auto simp: div_ceil_usize_def split: if_splits)
  then have "Suc j * n \<le> sz div n * n" by (rule mult_le_mono1)
  also have "\<dots> \<le> sz" by simp
  finally show ?thesis using False by auto
qed

lemma layout_symbol_count:
  assumes "map_for p m" and "i < unat (cp_block_count p)"
  shows "unat (bi_symbol_count (layout_block p i)) =
     div_ceil_usize (block_size (unat (cp_payload_size p)) (unat (cp_block_count p)) i)
       (unat (cp_symbol_size p))"
proof -
  let ?S = "unat (cp_payload_size p)" and ?B = "unat (cp_block_count p)" and ?n = "unat (cp_symbol_size p)"
  have v: "params_valid p" and no: "\<not> symbol_overflow p"
    using assms(1) by (auto simp: map_for_def chunk_map_new_eq split: if_splits)
  then have n: "0 < ?n" and S: "?S \<le> 2 ^ 32" and B: "0 < ?B" by (auto simp: params_valid_def)
  have sz: "block_size ?S ?B i \<le> 2 ^ 32"
    using block_size_le [OF B assms(2), of ?S] S by simp
  have "div_ceil_usize (block_size ?S ?B i) ?n < 2 ^ 32"
  proof (cases "?n = 1")
    case True
    then have "block_size ?S ?B i \<noteq> 2 ^ 32"
      using symbol_overflow_iff [OF v assms(2)] no by auto
    with sz True show ?thesis by (simp add: div_ceil_usize_def)
  next
    case False
    then have "2 \<le> ?n" using n by simp
    then have "block_size ?S ?B i div ?n \<le> block_size ?S ?B i div 2" by (rule div_le_mono2 [rotated]) simp
    also have "\<dots> \<le> 2 ^ 31" using sz by simp
    finally show ?thesis by (simp add: div_ceil_usize_def)
  qed
  then show ?thesis by (simp add: layout_block_def Let_def unat_of_nat)
qed

lemma extract_symbol_eq:
  assumes m: "map_for p m" and i: "unat i < unat (cp_block_count p)"
    and len: "length block = block_size (unat (cp_payload_size p)) (unat (cp_block_count p)) (unat i)"
    and j: "unat j < div_ceil_usize (length block) (unat (cp_symbol_size p))"
  shows "extract_symbol m block i j =
     (let n = unat (cp_symbol_size p) in
      Inr (slice (unat j * n) (Suc (unat j) * n) (padded_block n block)))"
proof -
  let ?n = "unat (cp_symbol_size p)" and ?sz = "length block" and ?j = "unat j"
  let ?N = "ucast (cp_symbol_size p) :: u64" and ?b = "layout_block p (unat i)"
  have v: "params_valid p" using m by (simp add: map_for_def)
  have n: "0 < ?n" "?n \<le> 65535" using v by (auto simp: params_valid_def)
  have sc: "unat (bi_symbol_count ?b) = div_ceil_usize ?sz ?n"
    by (simp add: layout_symbol_count [OF m i] len)
  have sz: "unat (bi_size ?b) = ?sz" by (simp add: layout_block_fields [OF v i] len)
  have sc1: "unat (bi_symbol_count ?b - 1) = div_ceil_usize ?sz ?n - 1"
    using j sc by (subst unat_sub) (auto simp: word_le_nat_alt)
  have szn: "unat (if bi_size ?b mod ?N \<noteq> 0 \<and> j = bi_symbol_count ?b - 1
      then bi_size ?b mod ?N else ?N) = min (Suc ?j * ?n) ?sz - ?j * ?n" (is "unat ?szw = _")
    using last_symbol_size [OF n(1) j]
    by (auto simp: sz unat_mod unat_ucast_ge word_unat_eq_iff [of j] sc1
        word_unat_eq_iff [of "bi_size ?b mod ?N"] split: if_splits)
  have lt: "?j < 2 ^ 32" using unsigned_less [where w = j] by simp
  have "?j * ?n < 2 ^ 32 * 2 ^ 16"
    using lt n by (intro mult_strict_mono) auto
  then have start: "unat (ucast j * ?N) = ?j * ?n"
    by (simp add: unat_word_ariths unat_ucast_ge)
  have le: "?j * ?n \<le> ?sz"
  proof -
    have "?j * ?n \<le> (div_ceil_usize ?sz ?n - 1) * ?n" using j by (intro mult_le_mono1) simp
    also have "\<dots> < ?sz + ?n - ?n + 1"
      using div_ceil_usize_bounds (2) [OF n(1), of ?sz] j by (simp add: diff_mult_distrib)
    finally show ?thesis by simp
  qed
  have "extract_symbol m block i j =
      Inr (slice (?j * ?n) (min (Suc ?j * ?n) ?sz) block @
           replicate (?n - (min (Suc ?j * ?n) ?sz - ?j * ?n)) 0)"
    using i j le map_for_blocks [OF m] unfolding extract_symbol_def symbol_info_def
    by (simp add: block_info_eq [OF m] word_le_nat_alt sc Let_def szn start del: min_def)
  also have "\<dots> = Inr (slice (?j * ?n) (Suc ?j * ?n) (padded_block ?n block))"
  proof -
    have cover: "Suc ?j * ?n \<le> div_ceil_usize ?sz ?n * ?n" using j by (intro mult_le_mono1) simp
    show ?thesis
      using le cover by (simp add: slice_def padded_block_def min_def)
  qed
  finally show ?thesis by (simp add: Let_def)
qed

section \<open>The interface the pipeline relies on\<close>

text \<open>
  What a sender and a receiver need of a chunker, over maps \<open>'m\<close> shared by both: the sender
  extracts the parts of a fitting payload one by one, and reassembling the parts gives it back.
\<close>

locale chunking =
  fixes fits :: "'m \<Rightarrow> bytes \<Rightarrow> bool"
    and nblocks :: "'m \<Rightarrow> nat"
    and parts :: "'m \<Rightarrow> bytes \<Rightarrow> bytes list"
    and part_at :: "'m \<Rightarrow> bytes \<Rightarrow> u32 \<Rightarrow> 'e + bytes"
    and reasm :: "'m \<Rightarrow> bytes list \<Rightarrow> 'e + bytes"
  assumes nblocks_u32: "fits m pl \<Longrightarrow> nblocks m < 2 ^ 32"
    and length_parts: "fits m pl \<Longrightarrow> length (parts m pl) = nblocks m"
    and part_at_parts: "fits m pl \<Longrightarrow> unat i < nblocks m \<Longrightarrow> part_at m pl i = Inr (parts m pl ! unat i)"
    and reasm_parts: "fits m pl \<Longrightarrow> reasm m (parts m pl) = Inr pl"
begin

text \<open>A receiver that recovered, for every block, what the sender extracted, has the payload.\<close>

lemma recover:
  assumes "fits m pl" and "length bs = nblocks m"
    and "\<And>i. unat i < nblocks m \<Longrightarrow> part_at m pl i = Inr (bs ! unat i)"
  shows "reasm m bs = Inr pl"
proof -
  have "bs = parts m pl"
  proof (rule nth_equalityI)
    show "length bs = length (parts m pl)" using assms length_parts by simp
    fix k assume "k < length bs"
    with assms(2) nblocks_u32 [OF assms(1)] have k: "unat (of_nat k :: u32) = k" "k < nblocks m"
      by (simp_all add: unat_of_nat)
    with assms(3) [of "of_nat k"] part_at_parts [OF assms(1), of "of_nat k"]
    show "bs ! k = parts m pl ! k" by simp
  qed
  with assms(1) show ?thesis by (simp add: reasm_parts)
qed

lemma part_at_total:
  "fits m pl \<Longrightarrow> unat i < nblocks m \<Longrightarrow> \<exists>b. part_at m pl i = Inr b \<and> b \<in> set (parts m pl)"
  using part_at_parts length_parts by simp

end

definition payload_fits :: "ChunkMap \<Rightarrow> bytes \<Rightarrow> bool" where
  "payload_fits m payload \<longleftrightarrow> map_for (cm_params m) m \<and>
     length payload = unat (cp_payload_size (cm_params m))"

interpretation chunks: chunking payload_fits "\<lambda>m. unat (cm_block_count m)"
  "\<lambda>m. payload_blocks (cm_params m)" extract_block reassemble
proof unfold_locales
  fix m pl
  assume fit: "payload_fits m pl"
  then have m: "map_for (cm_params m) m" and len: "length pl = unat (cp_payload_size (cm_params m))"
    by (auto simp: payload_fits_def)
  have v: "params_valid (cm_params m)" using m by (simp add: map_for_def)
  note count = map_for_block_count [OF m]
  show "unat (cm_block_count m) < 2 ^ 32"
    using unsigned_less [where w = "cm_block_count m"] by simp
  show "length (payload_blocks (cm_params m) pl) = unat (cm_block_count m)"
    by (simp add: payload_blocks_props [OF v len] count)
  show "reassemble m (payload_blocks (cm_params m) pl) = Inr pl"
    by (rule reassemble_payload_blocks [OF m len])
  fix i :: u32 assume "unat i < unat (cm_block_count m)"
  then show "extract_block m pl i = Inr (payload_blocks (cm_params m) pl ! unat i)"
    by (intro extract_block_payload_blocks [OF m len]) (simp add: count)
qed

section \<open>Properties\<close>

text \<open>C25: for every triple \<open>ChunkParams::new\<close> accepts, \<open>ChunkMap::new\<close> computes the specified
  layout: the first \<open>S mod B\<close> blocks have one byte more, starts are the running sums, and symbol
  counts are the ceilings; the one accepted triple it refuses is a single block of \<open>2 ^ 32\<close>
  one-byte symbols.\<close>

theorem chunk_map_new_layout:
  assumes "chunk_params_new s b n = Inr p"
  shows "chunk_map_new p =
     (if s = 2 ^ 32 \<and> b = 1 \<and> n = 1 then Inl (InvalidSymbolSize 1)
      else Inr \<lparr>cm_params = p, cm_blocks = map (layout_block p) [0..<unat b]\<rparr>)"
  using assms chunk_map_new_eq [of p]
  by (auto simp: chunk_params_new_valid symbol_overflow_def)

theorem chunk_map_new_layout_witness:
  "\<exists>p. chunk_params_new 1001 2 256 = Inr p \<and>
     chunk_map_new p = Inr \<lparr>cm_params = p, cm_blocks =
       [\<lparr>bi_index = 0, bi_start = 0, bi_size = 501, bi_symbol_count = 2\<rparr>,
        \<lparr>bi_index = 1, bi_start = 501, bi_size = 500, bi_symbol_count = 2\<rparr>]\<rparr>"
proof -
  let ?p = "\<lparr>cp_payload_size = 1001, cp_block_count = 2, cp_symbol_size = 256\<rparr>"
  have new: "chunk_params_new 1001 2 256 = Inr ?p"
    by (simp add: chunk_params_new_valid params_valid_def)
  from chunk_map_new_layout [OF new] new show ?thesis
    by (simp add: layout_block_def block_start_def block_size_def div_ceil_usize_def upt_rec)
qed

text \<open>Extracting every block of a payload and reassembling them gives the payload back: the
  blocks are a partition.\<close>

theorem chunk_roundtrip:
  assumes "chunk_params_new s b n = Inr p" and "chunk_map_new p = Inr m"
    and "length payload = unat s"
  shows "\<exists>blocks. length blocks = unat b \<and>
     (\<forall>i. unat i < unat b \<longrightarrow> extract_block m payload i = Inr (blocks ! unat i)) \<and>
     reassemble m blocks = Inr payload"
proof -
  have p: "params_valid p" "cp_payload_size p = s" "cp_block_count p = b"
    using assms(1) by (auto simp: chunk_params_new_valid)
  then have m: "map_for p m" using assms(2) by (simp add: map_for_def)
  have fit: "payload_fits m payload"
    using m map_for_blocks [OF m] assms(3) p by (simp add: payload_fits_def)
  have nb: "cm_block_count m = b" using map_for_block_count [OF m] p by simp
  show ?thesis
    using chunks.length_parts [OF fit] chunks.part_at_parts [OF fit] chunks.reasm_parts [OF fit] nb
    by auto
qed

text \<open>Cutting a block into symbols loses nothing: the symbols of a block all have the symbol
  size, and their concatenation is the block followed by zero bytes.\<close>

theorem symbols_cover_block:
  assumes "chunk_params_new s b n = Inr p" and "chunk_map_new p = Inr m"
    and "block_info m i = Inr info" and "length block = unat (bi_size info)"
  shows "\<exists>symbols pad. length symbols = unat (bi_symbol_count info) \<and>
     (\<forall>j. j < bi_symbol_count info \<longrightarrow> extract_symbol m block i j = Inr (symbols ! unat j)) \<and>
     list_all (\<lambda>sym. length sym = unat n) symbols \<and>
     concat symbols = block @ replicate pad 0"
proof -
  have p: "params_valid p" "cp_symbol_size p = n"
    using assms(1) by (auto simp: chunk_params_new_valid)
  then have m: "map_for p m" using assms(2) by (simp add: map_for_def)
  have i: "unat i < unat (cp_block_count p)" and info: "info = layout_block p (unat i)"
    using assms(3) by (auto simp: block_info_eq [OF m] split: if_splits)
  have len: "length block = block_size (unat (cp_payload_size p)) (unat (cp_block_count p)) (unat i)"
    using assms(4) by (simp add: info layout_block_fields [OF p(1) i])
  have n: "0 < unat n" using p by (auto simp: params_valid_def)
  define c where "c = div_ceil_usize (length block) (unat n)"
  have count: "unat (bi_symbol_count info) = c"
    by (simp add: info c_def layout_symbol_count [OF m i] len p)
  define symbols where "symbols = map (\<lambda>j. slice (j * unat n) (Suc j * unat n)
      (padded_block (unat n) block)) [0..<c]"
  have "concat symbols = slice 0 (c * unat n) (padded_block (unat n) block)"
    unfolding symbols_def using concat_slices [of "\<lambda>j. j * unat n"] by (simp add: monoI)
  then have "concat symbols = padded_block (unat n) block"
    by (simp add: slice_whole length_padded_block [OF n] c_def)
  moreover have "list_all (\<lambda>sym. length sym = unat n) symbols"
  proof -
    have "unat n \<le> c * unat n - j * unat n" if "j < c" for j
      using mult_le_mono1 [of "Suc j" c "unat n"] that by simp
    then show ?thesis
      by (auto simp: symbols_def list_all_iff length_padded_block [OF n] c_def [symmetric] min_def)
  qed
  moreover have "extract_symbol m block i j = Inr (symbols ! unat j)"
    if "j < bi_symbol_count info" for j
    using that extract_symbol_eq [OF m i len, of j]
    by (simp add: word_less_nat_alt count p symbols_def c_def Let_def)
  moreover have "length symbols = unat (bi_symbol_count info)" by (simp add: symbols_def count)
  ultimately show ?thesis
    by (intro exI [of _ symbols] exI [of _ "c * unat n - length block"])
      (simp add: padded_block_def c_def)
qed

text \<open>\<open>total_symbols\<close> is the exact number of symbols whenever the payload is shorter than
  \<open>2 ^ 32\<close> bytes.\<close>

theorem total_symbols_exact:
  assumes "chunk_params_new s b n = Inr p" and "chunk_map_new p = Inr m" and "unat s < 2 ^ 32"
  shows "unat (total_symbols m) =
     (\<Sum>i < unat b. div_ceil_usize (block_size (unat s) (unat b) i) (unat n))"
proof -
  have p: "params_valid p" "cp_payload_size p = s" "cp_block_count p = b" "cp_symbol_size p = n"
    using assms(1) by (auto simp: chunk_params_new_valid)
  then have m: "map_for p m" using assms(2) by (simp add: map_for_def)
  have n: "0 < unat n" and b: "0 < unat b" using p by (auto simp: params_valid_def)
  let ?c = "\<lambda>i. div_ceil_usize (block_size (unat s) (unat b) i) (unat n)"
  have starts: "(\<Sum>i < k. block_size (unat s) (unat b) i) = block_start (unat s) (unat b) k" for k
    by (induction k) (simp_all add: block_start_Suc)
  have "(\<Sum>i < unat b. ?c i) \<le> (\<Sum>i < unat b. block_size (unat s) (unat b) i)"
    by (intro sum_mono div_ceil_usize_le n)
  also have "\<dots> = unat s" by (simp add: starts block_start_end [OF b])
  finally have bound: "(\<Sum>i < unat b. ?c i) < 2 ^ 32" using assms(3) by simp
  have "total_symbols m = of_nat (\<Sum>i < unat b. ?c i)"
    by (simp add: total_symbols_def map_for_blocks [OF m] layout_block_def p Let_def o_def
        interv_sum_list_conv_sum_set_nat atLeast0LessThan)
  then show ?thesis using bound by (simp add: unat_of_nat del: of_nat_sum)
qed

text \<open>C37: for a payload of exactly \<open>2 ^ 32\<close> bytes in two blocks of one-byte symbols, which both
  constructors accept, the \<open>u32\<close> sum of \<open>total_symbols\<close> overflows; wrapping, it reports zero.\<close>

theorem total_symbols_overflow:
  "\<exists>p m. chunk_params_new (2 ^ 32) 2 1 = Inr p \<and> chunk_map_new p = Inr m \<and> total_symbols m = 0"
proof -
  let ?p = "\<lparr>cp_payload_size = 2 ^ 32, cp_block_count = 2, cp_symbol_size = 1\<rparr>"
  have new: "chunk_params_new (2 ^ 32) 2 1 = Inr ?p"
    by (simp add: chunk_params_new_valid params_valid_def)
  have m: "chunk_map_new ?p = Inr \<lparr>cm_params = ?p, cm_blocks = map (layout_block ?p) [0..<2]\<rparr>"
    by (simp add: chunk_map_new_eq params_valid_def symbol_overflow_def)
  have "total_symbols \<lparr>cm_params = ?p, cm_blocks = map (layout_block ?p) [0..<2]\<rparr> = 0"
    by (simp add: total_symbols_def layout_block_def block_size_def div_ceil_usize_def upt_rec)
  with new m show ?thesis by blast
qed

end
