(* ===== verification/Crc32c.thy ===== *)
theory Crc32c
  imports Dhow_Prelude
begin

text \<open>
  The CRC32C checksum of \<open>core/dhow-codec/src/crc32c.rs\<close>: the table generation loops, the
  slicing-by-eight \<open>fold\<close>, the one-shot digest and the streaming hasher.

  The reference definition is the bit-serial division \<open>crc_ref\<close>. The lemmas show that the
  optimised \<open>fold\<close> computes it, that streaming equals one-shot, and that a corruption confined
  to four consecutive bytes always changes the checksum.
\<close>

section \<open>The code\<close>

definition CRC32C_POLY :: u32 where
  "CRC32C_POLY = 0x82F63B78"

function make_table_bits :: "nat \<Rightarrow> u32 \<Rightarrow> u32" where
  "make_table_bits i crc =
     (if i < 8 then
        make_table_bits (i + 1)
          (if crc AND 1 \<noteq> 0 then drop_bit 1 crc XOR CRC32C_POLY else drop_bit 1 crc)
      else crc)"
  by pat_completeness auto
termination
  by (relation "measure (\<lambda>(i, crc). 8 - i)") auto

declare make_table_bits.simps [simp del]

function make_table_rows :: "nat \<Rightarrow> u32 list \<Rightarrow> u32 list" where
  "make_table_rows n t =
     (if n < 256 then make_table_rows (n + 1) (t[n := make_table_bits 0 (of_nat n)]) else t)"
  by pat_completeness auto
termination
  by (relation "measure (\<lambda>(n, t). 256 - n)") auto

declare make_table_rows.simps [simp del]

definition make_table :: "u32 list" where
  "make_table = make_table_rows 0 (replicate 256 0)"

function slicing_row :: "nat \<Rightarrow> nat \<Rightarrow> u32 list list \<Rightarrow> u32 list list" where
  "slicing_row k n tables =
     (if n < 256 then
        (let previous = tables ! (k - 1) ! n in
         slicing_row k (n + 1)
           (tables[k := (tables ! k)[n :=
              drop_bit 8 previous XOR tables ! 0 ! unat (previous AND 0xFF)]]))
      else tables)"
  by pat_completeness auto
termination
  by (relation "measure (\<lambda>(k, n, tables). 256 - n)") auto

declare slicing_row.simps [simp del]

function slicing_rows :: "nat \<Rightarrow> u32 list list \<Rightarrow> u32 list list" where
  "slicing_rows k tables =
     (if k < 8 then slicing_rows (k + 1) (slicing_row k 0 tables) else tables)"
  by pat_completeness auto
termination
  by (relation "measure (\<lambda>(k, tables). 8 - k)") auto

declare slicing_rows.simps [simp del]

definition make_slicing_tables :: "u32 list list" where
  "make_slicing_tables = slicing_rows 1 ((replicate 8 (replicate 256 0))[0 := make_table])"

definition CRC_TABLES :: "u32 list list" where
  "CRC_TABLES = make_slicing_tables"

definition CRC_TABLE :: "u32 list" where
  "CRC_TABLE = CRC_TABLES ! 0"

definition fold_chunk :: "u32 \<Rightarrow> bytes \<Rightarrow> u32" where
  "fold_chunk crc0 chunk =
     (let crc = crc0 XOR u32_from_le_bytes [chunk ! 0, chunk ! 1, chunk ! 2, chunk ! 3] in
      CRC_TABLES ! 7 ! unat (crc AND 0xFF)
      XOR CRC_TABLES ! 6 ! unat (drop_bit 8 crc AND 0xFF)
      XOR CRC_TABLES ! 5 ! unat (drop_bit 16 crc AND 0xFF)
      XOR CRC_TABLES ! 4 ! unat (drop_bit 24 crc AND 0xFF)
      XOR CRC_TABLES ! 3 ! unat (chunk ! 4)
      XOR CRC_TABLES ! 2 ! unat (chunk ! 5)
      XOR CRC_TABLES ! 1 ! unat (chunk ! 6)
      XOR CRC_TABLES ! 0 ! unat (chunk ! 7))"

primrec fold_tail :: "u32 \<Rightarrow> bytes \<Rightarrow> u32" where
  "fold_tail crc [] = crc"
| "fold_tail crc (byte # rest) =
     fold_tail (CRC_TABLE ! unat ((crc XOR ucast byte) AND 0xFF) XOR drop_bit 8 crc) rest"

function crc_fold :: "u32 \<Rightarrow> bytes \<Rightarrow> u32" where
  "crc_fold crc rest =
     (if length rest \<ge> 8 then crc_fold (fold_chunk crc (take 8 rest)) (drop 8 rest)
      else fold_tail crc rest)"
  by pat_completeness auto
termination
  by (relation "measure (\<lambda>(crc, rest). length rest)") auto

declare crc_fold.simps [simp del]

definition crc32c_digest :: "bytes \<Rightarrow> u32" where
  "crc32c_digest data = crc_fold 0xFFFFFFFF data XOR 0xFFFFFFFF"

record Crc32cHasher =
  crc_state :: u32

definition crc32c_append :: "u32 \<Rightarrow> bytes \<Rightarrow> u32" where
  "crc32c_append state data = crc_fold (state XOR 0xFFFFFFFF) data XOR 0xFFFFFFFF"

definition crc_hasher_new :: Crc32cHasher where
  "crc_hasher_new = \<lparr>crc_state = 0\<rparr>"

definition crc_hasher_update :: "Crc32cHasher \<Rightarrow> bytes \<Rightarrow> Crc32cHasher" where
  "crc_hasher_update h data = h\<lparr>crc_state := crc32c_append (crc_state h) data\<rparr>"

definition crc_hasher_finalize :: "Crc32cHasher \<Rightarrow> u32" where
  "crc_hasher_finalize h = crc_state h"

section \<open>The reference: bit-serial division\<close>

text \<open>One step of the reflected linear feedback register, eight of them per byte.\<close>

definition lfsr :: "u32 \<Rightarrow> u32" where
  "lfsr c = (if bit c 0 then drop_bit 1 c XOR CRC32C_POLY else drop_bit 1 c)"

abbreviation lfsr8 :: "u32 \<Rightarrow> u32" where
  "lfsr8 \<equiv> lfsr ^^ 8"

primrec crc_ref :: "u32 \<Rightarrow> bytes \<Rightarrow> u32" where
  "crc_ref c [] = c"
| "crc_ref c (b # bs) = crc_ref (lfsr8 (c XOR ucast b)) bs"

lemma crc_ref_append: "crc_ref c (xs @ ys) = crc_ref (crc_ref c xs) ys"
  by (induction xs arbitrary: c) auto

subsection \<open>The register is linear and injective\<close>

lemma lfsr_zero [simp]: "lfsr 0 = 0"
  by (simp add: lfsr_def)

lemma lfsr_xor: "lfsr (a XOR b) = lfsr a XOR lfsr b"
  by (simp add: lfsr_def bit_simps drop_bit_xor xor.left_commute xor.assoc xor.commute)

lemma funpow_linear:
  fixes f :: "'a::len word \<Rightarrow> 'a word"
  assumes "\<And>a b. f (a XOR b) = f a XOR f b"
  shows "(f ^^ n) (a XOR b) = (f ^^ n) a XOR (f ^^ n) b"
  by (induction n) (simp_all add: assms)

lemmas lfsr_pow_xor = funpow_linear [of lfsr, OF lfsr_xor]

lemma lfsr_pow_zero [simp]: "(lfsr ^^ n) 0 = 0"
  by (induction n) simp_all

lemma xor_right_cancel: "a XOR c = b XOR c \<longleftrightarrow> a = (b :: 'a::len word)"
proof
  assume "a XOR c = b XOR c"
  then have "(a XOR c) XOR c = (b XOR c) XOR c" by simp
  then show "a = b" by (simp only: xor.assoc xor_self_eq xor.right_neutral)
qed simp

lemma xor_eq_zero_iff: "a XOR b = 0 \<longleftrightarrow> a = (b :: 'a::len word)"
  using xor_right_cancel [of a b b] by simp

lemma lfsr_eq_zero: "lfsr c = 0 \<Longrightarrow> c = 0"
proof (cases "bit c 0")
  case True
  assume "lfsr c = 0"
  with True have "drop_bit 1 c = CRC32C_POLY"
    by (simp add: lfsr_def xor_eq_zero_iff)
  then have "bit (drop_bit 1 c) 31 = bit CRC32C_POLY 31" by simp
  moreover have "bit CRC32C_POLY 31" by (simp add: CRC32C_POLY_def)
  moreover have "\<not> bit (drop_bit 1 c) 31" by (auto simp: bit_simps dest: bit_imp_le_length)
  ultimately show ?thesis by blast
next
  case False
  assume "lfsr c = 0"
  with False have z: "drop_bit 1 c = 0" by (simp add: lfsr_def)
  show ?thesis
  proof (rule bit_word_eqI)
    fix n assume "n < LENGTH(32)"
    show "bit c n = bit 0 n"
    proof (cases n)
      case 0
      with False show ?thesis by simp
    next
      case (Suc m)
      have "bit (drop_bit 1 c) m = bit (0 :: u32) m" using z by simp
      with Suc show ?thesis by (simp add: bit_simps)
    qed
  qed
qed

lemma lfsr_inj: "lfsr a = lfsr b \<Longrightarrow> a = b"
  by (metis lfsr_eq_zero lfsr_xor xor_eq_zero_iff)

lemma lfsr_pow_inj: "(lfsr ^^ n) a = (lfsr ^^ n) b \<Longrightarrow> a = b"
  by (induction n) (auto dest: lfsr_inj)

lemma lfsr8_pow_inj: "(lfsr8 ^^ n) a = (lfsr8 ^^ n) b \<Longrightarrow> a = b"
  by (induction n) (auto dest: lfsr_pow_inj)

lemma crc_ref_inj: "crc_ref a bs = crc_ref b bs \<Longrightarrow> a = b"
proof (induction bs arbitrary: a b)
  case Nil
  then show ?case by simp
next
  case (Cons x bs)
  from Cons.prems have "lfsr8 (a XOR ucast x) = lfsr8 (b XOR ucast x)"
    by (auto dest: Cons.IH)
  then have "a XOR ucast x = b XOR ucast x" by (rule lfsr_pow_inj)
  then show ?case by (simp add: xor_right_cancel)
qed

subsection \<open>Shifting whole bytes through the register\<close>

lemma lfsr_pow_low_zero: "(\<And>i. i < n \<Longrightarrow> \<not> bit y i) \<Longrightarrow> (lfsr ^^ n) y = drop_bit n y"
proof (induction n)
  case 0
  show ?case by simp
next
  case (Suc n)
  then have "(lfsr ^^ n) y = drop_bit n y" and "\<not> bit y n" by auto
  then show ?case by (simp add: lfsr_def [of "drop_bit n y"] bit_simps)
qed

lemma lfsr8_split: "lfsr8 c = lfsr8 (c AND 0xFF) XOR drop_bit 8 c"
proof -
  have c: "c = (c AND 0xFF) XOR (c AND NOT 0xFF)"
    by (rule bit_word_eqI) (auto simp: bit_simps)
  have mask: "(0xFF :: u32) = mask 8" by (simp add: mask_eq_exp_minus_1)
  have "lfsr8 (c AND NOT 0xFF) = drop_bit 8 (c AND NOT 0xFF)"
    unfolding mask by (rule lfsr_pow_low_zero) (auto simp: bit_simps)
  also have "drop_bit 8 (c AND NOT 0xFF) = drop_bit 8 c"
    unfolding mask by (rule bit_word_eqI) (auto simp: bit_simps dest: bit_imp_le_length)
  finally have "lfsr8 (c AND NOT 0xFF) = drop_bit 8 c" .
  then show ?thesis
    by (subst c) (simp only: lfsr_pow_xor)
qed

lemma lfsr8_push_byte:
  "lfsr8 (push_bit 8 w) = w" if "drop_bit 24 w = 0"
proof -
  have "lfsr8 (push_bit 8 w) = drop_bit 8 (push_bit 8 w)"
    by (rule lfsr_pow_low_zero) (simp add: bit_simps)
  also have "\<dots> = w"
  proof (rule bit_word_eqI)
    fix n assume n: "n < LENGTH(32)"
    show "bit (drop_bit 8 (push_bit 8 w)) n = bit w n"
    proof (cases "n < 24")
      case True
      then show ?thesis by (simp add: bit_simps)
    next
      case False
      then obtain k where k: "n = 24 + k" by (metis le_add_diff_inverse not_less)
      have "bit (drop_bit 24 w) k = bit (0 :: u32) k" using that by simp
      with k have "\<not> bit w n" by (simp add: bit_simps)
      with False show ?thesis by (auto simp: bit_simps)
    qed
  qed
  finally show ?thesis .
qed

text \<open>Up to four bytes can be folded into the register before it is shifted.\<close>

lemma crc_ref_le_word:
  "length bs \<le> 4 \<Longrightarrow> crc_ref c bs = (lfsr8 ^^ length bs) (c XOR le_word bs)"
proof (induction bs arbitrary: c)
  case Nil
  show ?case by simp
next
  case (Cons b bs)
  let ?w = "le_word bs :: u32"
  have small: "drop_bit 24 ?w = 0"
    using Cons.prems by (intro bit_word_eqI) (auto simp: bit_simps bit_le_word)
  have low: "ucast b OR push_bit 8 ?w = (ucast b :: u32) XOR push_bit 8 ?w"
    by (rule bit_word_eqI) (auto simp: bit_simps dest: bit_imp_le_length)
  have "lfsr8 (c XOR le_word (b # bs)) = lfsr8 ((c XOR ucast b) XOR push_bit 8 ?w)"
    by (simp only: le_word.simps low xor.assoc)
  also have "\<dots> = lfsr8 (c XOR ucast b) XOR ?w"
    by (simp only: lfsr_pow_xor lfsr8_push_byte [OF small])
  finally have step: "lfsr8 (c XOR le_word (b # bs)) = lfsr8 (c XOR ucast b) XOR ?w" .
  have "crc_ref c (b # bs) = (lfsr8 ^^ length bs) (lfsr8 (c XOR ucast b) XOR ?w)"
    using Cons by simp
  then show ?case
    by (simp only: step [symmetric] length_Cons funpow_Suc_right o_apply)
qed

section \<open>The tables\<close>

lemma and_one_nonzero_iff: "(c :: u32) AND 1 \<noteq> 0 \<longleftrightarrow> bit c 0"
  by (metis and_one_eq bit_0 odd_iff_mod_2_eq_one even_iff_mod_2_eq_zero)

lemma make_table_bits_eq: "i \<le> 8 \<Longrightarrow> make_table_bits i c = (lfsr ^^ (8 - i)) c"
proof (induction i c rule: make_table_bits.induct)
  case (1 i c)
  show ?case
  proof (cases "i < 8")
    case True
    have "make_table_bits i c = make_table_bits (i + 1) (lfsr c)"
      using True by (subst make_table_bits.simps) (simp add: and_one_nonzero_iff lfsr_def [of c])
    also have "\<dots> = (lfsr ^^ (8 - (i + 1))) (lfsr c)"
      using "1.IH" [OF True] True by (simp add: and_one_nonzero_iff lfsr_def [of c])
    also have "\<dots> = (lfsr ^^ Suc (8 - (i + 1))) c"
      by (simp only: funpow_Suc_right o_apply)
    also have "Suc (8 - (i + 1)) = 8 - i" using True by simp
    finally show ?thesis .
  next
    case False
    with "1.prems" show ?thesis by (simp add: make_table_bits.simps)
  qed
qed

lemma make_table_rows_nth:
  "length t = 256 \<Longrightarrow> m < 256 \<Longrightarrow>
     length (make_table_rows n t) = 256 \<and>
     make_table_rows n t ! m = (if n \<le> m then lfsr8 (of_nat m) else t ! m)"
proof (induction n t rule: make_table_rows.induct)
  case (1 n t)
  show ?case
  proof (cases "n < 256")
    case True
    have bits: "make_table_bits 0 (of_nat n) = lfsr8 (of_nat n)"
      by (simp add: make_table_bits_eq)
    let ?t = "t[n := lfsr8 (of_nat n)]"
    have "make_table_rows n t = make_table_rows (n + 1) ?t"
      using True by (subst make_table_rows.simps) (simp add: bits)
    moreover have "length (make_table_rows (n + 1) ?t) = 256 \<and>
        make_table_rows (n + 1) ?t ! m = (if n + 1 \<le> m then lfsr8 (of_nat m) else ?t ! m)"
      using "1.IH" [OF True] "1.prems" by (simp add: bits)
    ultimately show ?thesis
      using "1.prems" by (cases "m = n") auto
  next
    case False
    with "1.prems" show ?thesis by (subst (1 2) make_table_rows.simps) simp
  qed
qed

lemma make_table_nth: "m < 256 \<Longrightarrow> make_table ! m = lfsr8 (of_nat m)"
  by (simp add: make_table_def make_table_rows_nth)

lemma length_make_table: "length make_table = 256"
  using make_table_rows_nth [of "replicate 256 0" 0 0] by (simp add: make_table_def)

text \<open>Well-shaped tables whose first \<open>k\<close> rows hold what the register would produce.\<close>

definition rows_ok :: "nat \<Rightarrow> u32 list list \<Rightarrow> bool" where
  "rows_ok k tables \<longleftrightarrow> length tables = 8 \<and> (\<forall>j < 8. length (tables ! j) = 256) \<and>
     (\<forall>j < k. \<forall>m < 256. tables ! j ! m = (lfsr8 ^^ (j + 1)) (of_nat m))"

lemma unat_and_255: "unat ((c :: u32) AND 0xFF) < 256"
proof -
  have "unat (c AND 0xFF) \<le> unat (0xFF :: u32)"
    by (rule word_and_le1 [THEN word_le_nat_alt [THEN iffD1]])
  then show ?thesis by simp
qed

lemma of_nat_unat_id: "of_nat (unat (c :: 'a::len word)) = c"
  by simp

lemma slicing_row_invariant:
  assumes "0 < k" and "k < 8"
  shows "rows_ok k tables \<Longrightarrow> n \<le> 256 \<Longrightarrow>
     (\<forall>m < n. tables ! k ! m = (lfsr8 ^^ (k + 1)) (of_nat m)) \<Longrightarrow>
     rows_ok (Suc k) (slicing_row k n tables)"
  using assms
proof (induction k n tables rule: slicing_row.induct)
  case (1 k n tables)
  show ?case
  proof (cases "n < 256")
    case True
    let ?prev = "tables ! (k - 1) ! n"
    let ?v = "drop_bit 8 ?prev XOR tables ! 0 ! unat (?prev AND 0xFF)"
    let ?tables = "tables[k := (tables ! k)[n := ?v]]"
    have len: "length tables = 8" "length (tables ! k) = 256"
      using "1.prems" by (auto simp: rows_ok_def)
    have "k - 1 < k" using "1.prems" by simp
    then have "?prev = (lfsr8 ^^ (k - 1 + 1)) (of_nat n)"
      using "1.prems" True unfolding rows_ok_def by blast
    then have prev: "?prev = (lfsr8 ^^ k) (of_nat n)"
      using "1.prems" by simp
    have "tables ! 0 ! unat (?prev AND 0xFF) = lfsr8 (?prev AND 0xFF)"
      using "1.prems" unat_and_255 [of ?prev] by (simp add: rows_ok_def)
    then have "?v = lfsr8 ?prev"
      by (simp only: lfsr8_split [of ?prev] xor.commute)
    then have v: "?v = (lfsr8 ^^ (k + 1)) (of_nat n)"
      by (simp only: prev funpow.simps o_apply Suc_eq_plus1 [symmetric])
    have ok: "rows_ok k ?tables"
      using "1.prems" len by (auto simp: rows_ok_def nth_list_update)
    have "\<forall>m < n + 1. ?tables ! k ! m = (lfsr8 ^^ (k + 1)) (of_nat m)"
      using "1.prems" len True v by (auto simp: nth_list_update less_Suc_eq)
    then have "rows_ok (Suc k) (slicing_row k (n + 1) ?tables)"
      using "1.IH" [OF True refl] ok "1.prems" True by simp
    then show ?thesis
      using True by (subst slicing_row.simps) (simp add: Let_def)
  next
    case False
    with "1.prems" show ?thesis
      by (subst slicing_row.simps) (auto simp: rows_ok_def less_Suc_eq)
  qed
qed

lemma slicing_rows_invariant:
  "rows_ok k tables \<Longrightarrow> 0 < k \<Longrightarrow> k \<le> 8 \<Longrightarrow> rows_ok 8 (slicing_rows k tables)"
proof (induction k tables rule: slicing_rows.induct)
  case (1 k tables)
  show ?case
  proof (cases "k < 8")
    case True
    then have "rows_ok (Suc k) (slicing_row k 0 tables)"
      using "1.prems" by (intro slicing_row_invariant) auto
    with "1.IH" True show ?thesis
      by (subst slicing_rows.simps) simp
  next
    case False
    with "1.prems" show ?thesis by (subst slicing_rows.simps) simp
  qed
qed

lemma CRC_TABLES_ok: "rows_ok 8 CRC_TABLES"
proof -
  have "rows_ok 1 ((replicate 8 (replicate 256 0))[0 := make_table])"
    by (auto simp: rows_ok_def nth_list_update length_make_table make_table_nth)
  then show ?thesis
    unfolding CRC_TABLES_def make_slicing_tables_def
    by (rule slicing_rows_invariant) simp_all
qed

lemma CRC_TABLES_nth:
  "j < 8 \<Longrightarrow> unat w < 256 \<Longrightarrow> CRC_TABLES ! j ! unat (w :: u32) = (lfsr8 ^^ (j + 1)) w"
  using CRC_TABLES_ok by (simp add: rows_ok_def)

lemma CRC_TABLES_nth_byte:
  "j < 8 \<Longrightarrow> CRC_TABLES ! j ! unat (b :: u8) = (lfsr8 ^^ (j + 1)) (ucast b)"
  using CRC_TABLES_nth [of j "ucast b"] unsigned_less [where w = b]
  by (simp add: unat_ucast_ge)

section \<open>The optimised fold computes the reference\<close>

lemma fold_tail_eq: "fold_tail c bs = crc_ref c bs"
proof (induction bs arbitrary: c)
  case Nil
  show ?case by simp
next
  case (Cons b bs)
  let ?x = "c XOR ucast b :: u32"
  have "CRC_TABLE ! unat (?x AND 0xFF) = lfsr8 (?x AND 0xFF)"
    using CRC_TABLES_nth [of 0 "?x AND 0xFF"] unat_and_255 [of ?x] by (simp add: CRC_TABLE_def)
  moreover have "drop_bit 8 ?x = drop_bit 8 c"
    by (rule bit_word_eqI) (auto simp: bit_simps dest: bit_imp_le_length)
  ultimately have "CRC_TABLE ! unat (?x AND 0xFF) XOR drop_bit 8 c = lfsr8 ?x"
    using lfsr8_split [of ?x] by simp
  with Cons show ?case by simp
qed

lemma lfsr8_pow_xor: "(lfsr8 ^^ n) (a XOR b) = (lfsr8 ^^ n) a XOR (lfsr8 ^^ n) b"
  by (rule funpow_linear) (rule lfsr_pow_xor)

lemma lfsr8_pow_split:
  "(lfsr8 ^^ Suc n) x = (lfsr8 ^^ Suc n) (x AND 0xFF) XOR (lfsr8 ^^ n) (drop_bit 8 x)"
proof -
  have "(lfsr8 ^^ Suc n) x = (lfsr8 ^^ n) (lfsr8 x)"
    by (simp only: funpow_Suc_right o_apply)
  also have "\<dots> = (lfsr8 ^^ n) (lfsr8 (x AND 0xFF)) XOR (lfsr8 ^^ n) (drop_bit 8 x)"
    by (subst lfsr8_split) (rule lfsr8_pow_xor)
  finally show ?thesis
    by (simp only: funpow_Suc_right o_apply)
qed

lemma lfsr8_pow_zero: "(lfsr8 ^^ n) 0 = 0"
  by (induction n) simp_all

lemma crc_ref_xor: "crc_ref (a XOR b) bs = (lfsr8 ^^ length bs) a XOR crc_ref b bs"
proof (induction bs arbitrary: a b)
  case Nil
  show ?case by simp
next
  case (Cons x bs)
  have "crc_ref (a XOR b) (x # bs) = crc_ref (lfsr8 a XOR lfsr8 (b XOR ucast x)) bs"
    by (simp only: crc_ref.simps lfsr_pow_xor xor.assoc)
  also have "\<dots> = (lfsr8 ^^ length bs) (lfsr8 a) XOR crc_ref b (x # bs)"
    by (simp only: Cons crc_ref.simps)
  finally show ?case
    by (simp only: length_Cons funpow_Suc_right o_apply)
qed

lemma lfsr8_pow8_bytes:
  "(lfsr8 ^^ 8) x =
     (lfsr8 ^^ 8) (x AND 0xFF) XOR ((lfsr8 ^^ 7) (drop_bit 8 x AND 0xFF) XOR
     ((lfsr8 ^^ 6) (drop_bit 16 x AND 0xFF) XOR (lfsr8 ^^ 5) (drop_bit 24 x AND 0xFF)))"
proof -
  have top: "drop_bit 32 x = 0"
    by (rule bit_word_eqI) (auto simp: bit_simps dest: bit_imp_le_length)
  show ?thesis
    using lfsr8_pow_split [of 7 x] lfsr8_pow_split [of 6 "drop_bit 8 x"]
      lfsr8_pow_split [of 5 "drop_bit 16 x"] lfsr8_pow_split [of 4 "drop_bit 24 x"] top
    by (simp add: lfsr8_pow_zero del: funpow.simps)
qed

lemma list_of_length_8:
  assumes "length xs = 8"
  shows "xs = [xs ! 0, xs ! 1, xs ! 2, xs ! 3, xs ! 4, xs ! 5, xs ! 6, xs ! 7]"
  by (rule nth_equalityI) (use assms in \<open>auto simp: less_Suc_eq numeral_eq_Suc\<close>)

lemma funpow_small: "(f ^^ Suc 0) x = f x" "(f ^^ 2) x = f (f x)" "(f ^^ 3) x = f (f (f x))" "(f ^^ 4) x = f (f (f (f x)))"
  by (simp_all add: eval_nat_numeral)

lemma crc_ref_four:
  "crc_ref 0 [a, b, c, d] = (lfsr8 ^^ 4) (ucast a) XOR ((lfsr8 ^^ 3) (ucast b) XOR
     ((lfsr8 ^^ 2) (ucast c) XOR lfsr8 (ucast d)))"
proof -
  have "crc_ref 0 [a, b, c, d] =
      lfsr8 (lfsr8 (lfsr8 (lfsr8 (ucast a) XOR ucast b) XOR ucast c) XOR ucast d)"
    by simp
  also have "\<dots> = lfsr8 (lfsr8 (lfsr8 (lfsr8 (ucast a)))) XOR (lfsr8 (lfsr8 (lfsr8 (ucast b))) XOR
      (lfsr8 (lfsr8 (ucast c)) XOR lfsr8 (ucast d)))"
    by (simp only: lfsr_pow_xor xor.assoc)
  finally show ?thesis
    by (simp only: funpow_small)
qed

lemma fold_chunk_eq: "length chunk = 8 \<Longrightarrow> fold_chunk c chunk = crc_ref c chunk"
proof -
  assume len: "length chunk = 8"
  let ?a = "[chunk ! 0, chunk ! 1, chunk ! 2, chunk ! 3]"
  let ?b = "[chunk ! 4, chunk ! 5, chunk ! 6, chunk ! 7]"
  let ?x = "c XOR le_word ?a :: u32"
  have "crc_ref c chunk = crc_ref (crc_ref c ?a) ?b"
    by (subst list_of_length_8 [OF len]) (simp add: crc_ref_append [symmetric])
  also have "crc_ref c ?a = (lfsr8 ^^ 4) ?x"
    by (subst crc_ref_le_word) (simp_all add: funpow_small del: le_word.simps)
  also have "crc_ref ((lfsr8 ^^ 4) ?x) ?b = (lfsr8 ^^ 4) ((lfsr8 ^^ 4) ?x) XOR crc_ref 0 ?b"
    using crc_ref_xor [of "(lfsr8 ^^ 4) ?x" 0 ?b]
    by (simp add: funpow_small (4) [where f = lfsr8] del: crc_ref.simps le_word.simps)
  also have "(lfsr8 ^^ 4) ((lfsr8 ^^ 4) ?x) = (lfsr8 ^^ 8) ?x"
    using funpow_add [of 4 4 lfsr8] by (simp del: le_word.simps funpow.simps)
  finally have ref: "crc_ref c chunk = (lfsr8 ^^ 8) ?x XOR crc_ref 0 ?b" .
  have "fold_chunk c chunk =
      (lfsr8 ^^ 8) (?x AND 0xFF) XOR ((lfsr8 ^^ 7) (drop_bit 8 ?x AND 0xFF) XOR
      ((lfsr8 ^^ 6) (drop_bit 16 ?x AND 0xFF) XOR ((lfsr8 ^^ 5) (drop_bit 24 ?x AND 0xFF) XOR
      ((lfsr8 ^^ 4) (ucast (chunk ! 4)) XOR ((lfsr8 ^^ 3) (ucast (chunk ! 5)) XOR
      ((lfsr8 ^^ 2) (ucast (chunk ! 6)) XOR lfsr8 (ucast (chunk ! 7))))))))"
    by (simp add: fold_chunk_def Let_def CRC_TABLES_nth CRC_TABLES_nth_byte unat_and_255 xor.assoc
        numeral_2_eq_2 [symmetric] funpow_small (1) del: le_word.simps funpow.simps)
  then show ?thesis
    by (simp only: ref lfsr8_pow8_bytes [of ?x] crc_ref_four xor.assoc)
qed

lemma crc_fold_ref: "crc_fold c data = crc_ref c data"
proof (induction c data rule: crc_fold.induct)
  case (1 c data)
  show ?case
  proof (cases "length data \<ge> 8")
    case True
    have "crc_fold c data = crc_ref (fold_chunk c (take 8 data)) (drop 8 data)"
      using "1.IH" True by (subst crc_fold.simps) simp
    also have "fold_chunk c (take 8 data) = crc_ref c (take 8 data)"
      using True by (intro fold_chunk_eq) simp
    finally show ?thesis
      by (simp add: crc_ref_append [symmetric])
  next
    case False
    then show ?thesis by (subst crc_fold.simps) (simp add: fold_tail_eq)
  qed
qed

lemma crc_fold_append: "crc_fold c (xs @ ys) = crc_fold (crc_fold c xs) ys"
  by (simp add: crc_fold_ref crc_ref_append)

lemma crc32c_digest_ref: "crc32c_digest data = crc_ref 0xFFFFFFFF data XOR 0xFFFFFFFF"
  by (simp add: crc32c_digest_def crc_fold_ref)

lemma crc32c_window_inj:
  assumes "length ds = length es" and "length ds \<le> 4"
    and "crc32c_digest (pre @ ds @ post) = crc32c_digest (pre @ es @ post)"
  shows "ds = es"
proof -
  let ?s = "crc_ref 0xFFFFFFFF pre"
  from assms(3) have "crc_ref (crc_ref ?s ds) post = crc_ref (crc_ref ?s es) post"
    by (simp add: crc32c_digest_ref crc_ref_append xor_right_cancel)
  then have "crc_ref ?s ds = crc_ref ?s es" by (rule crc_ref_inj)
  then have "(lfsr8 ^^ length ds) (?s XOR le_word ds) = (lfsr8 ^^ length ds) (?s XOR le_word es)"
    using assms(1,2) by (simp add: crc_ref_le_word)
  then have "?s XOR le_word ds = ?s XOR (le_word es :: u32)"
    by (rule lfsr8_pow_inj)
  then have "le_word ds = (le_word es :: u32)"
    using xor_right_cancel [of "le_word ds" ?s "le_word es"] by (simp add: xor.commute)
  then have eq: "le_bytes (length ds) (le_word ds :: u32) = le_bytes (length es) (le_word es :: u32)"
    by (simp only: assms(1))
  have "ds = le_bytes (length ds) (le_word ds :: u32)"
    by (rule le_bytes_le_word [symmetric]) (use assms(2) in simp)
  also note eq
  also have "le_bytes (length es) (le_word es :: u32) = es"
    by (rule le_bytes_le_word) (use assms(1,2) in simp)
  finally show ?thesis .
qed

lemma lfsr8_unfold: "lfsr8 c = lfsr (lfsr (lfsr (lfsr (lfsr (lfsr (lfsr (lfsr c)))))))"
  by (simp add: eval_nat_numeral)

lemma lfsr8_check_bytes:
  "lfsr8 (0xFFFFFFFF XOR ucast (0x31 :: u8)) = 0x6F0A661C"
  "lfsr8 (0x6F0A661C XOR ucast (0x32 :: u8)) = 0x8CAA3B9F"
  "lfsr8 (0x8CAA3B9F XOR ucast (0x33 :: u8)) = 0xEF84D04D"
  "lfsr8 (0xEF84D04D XOR ucast (0x34 :: u8)) = 0x9C50B11"
  "lfsr8 (0x9C50B11 XOR ucast (0x35 :: u8)) = 0xE72EDCCA"
  "lfsr8 (0xE72EDCCA XOR ucast (0x36 :: u8)) = 0xBECA8E79"
  "lfsr8 (0xBECA8E79 XOR ucast (0x37 :: u8)) = 0xEDBD6815"
  "lfsr8 (0xEDBD6815 XOR ucast (0x38 :: u8)) = 0x9F787F65"
  "lfsr8 (0x9F787F65 XOR ucast (0x39 :: u8)) = 0x1CF96D7C"
  unfolding lfsr8_unfold by (simp_all add: lfsr_def CRC32C_POLY_def)

section \<open>Properties\<close>

text \<open>C27: the slicing-by-eight fold, with its generated tables, computes the bit-serial CRC of
  the reflected Castagnoli polynomial on every register and every input.\<close>

theorem crc_fold_computes_reference: "crc_fold crc data = crc_ref crc data"
  by (rule crc_fold_ref)

text \<open>Feeding the data to the streaming hasher in any sequence of chunks yields the one-shot
  checksum of their concatenation.\<close>

theorem crc_streaming_equals_one_shot:
  "crc_hasher_finalize (foldl crc_hasher_update crc_hasher_new chunks) =
   crc32c_digest (concat chunks)"
proof -
  have "crc_state (foldl crc_hasher_update h chunks) =
      crc_fold (crc_state h XOR 0xFFFFFFFF) (concat chunks) XOR 0xFFFFFFFF" for h
    by (induction chunks arbitrary: h)
      (simp_all add: crc_hasher_update_def crc32c_append_def crc_fold_append xor.assoc
        crc_fold.simps [of _ "[]"])
  then show ?thesis
    by (simp add: crc_hasher_finalize_def crc_hasher_new_def crc32c_digest_def)
qed

text \<open>C28: a corruption confined to at most four consecutive bytes is always detected: two inputs
  that agree outside such a window and differ inside it have different checksums.\<close>

theorem crc32c_detects_bursts:
  assumes "length ds = length es" and "length ds \<le> 4" and "ds \<noteq> es"
  shows "crc32c_digest (pre @ ds @ post) \<noteq> crc32c_digest (pre @ es @ post)"
  using crc32c_window_inj assms by blast

theorem crc32c_detects_bursts_witness:
  "crc32c_digest ([7] @ [1, 2] @ [9]) \<noteq> crc32c_digest ([7] @ [1, 3] @ [9])"
  using crc32c_detects_bursts [of "[1, 2]" "[1, 3]" "[7]" "[9]"] by simp

text \<open>The checksum of the ASCII digits 1 to 9 is the published CRC32C check value.\<close>

theorem crc32c_check_value:
  "crc32c_digest [0x31, 0x32, 0x33, 0x34, 0x35, 0x36, 0x37, 0x38, 0x39] = 0xE3069283"
  unfolding crc32c_digest_ref crc_ref.simps lfsr8_check_bytes by simp

text \<open>The polynomial the code divides by, written in normal bit order, is the Castagnoli
  polynomial 0x1EDC6F41, not the 0x04C11DB7 of the module's parameter table.\<close>

theorem CRC32C_POLY_normal_form:
  "word_reverse CRC32C_POLY = 0x1EDC6F41 \<and> word_reverse CRC32C_POLY \<noteq> 0x04C11DB7"
  by code_simp

end
