(* ===== verification/Wire.thy ===== *)
theory Wire
  imports Dhow_Prelude
begin

text \<open>
  The contracts of the wire formats, as locales.

  \<^item> \<open>fixed_codec\<close>: a header of a fixed width. Every well-formed value is parsed back from its
    serialization whatever follows it, and the parser accepts nothing but serializations.
  \<^item> \<open>prefix_codec\<close>: a value of variable width, whose parser reports the bytes it consumed.
  Both make the serialization unambiguous, also for sequences of values. Each wire format of the
  program interprets one of them in its own theory.
\<close>

locale prefix_codec =
  fixes to_vec :: "'a \<Rightarrow> bytes"
    and from_bytes :: "bytes \<Rightarrow> 'e + 'a \<times> nat"
    and wf :: "'a \<Rightarrow> bool"
  assumes accepts: "wf x \<Longrightarrow> from_bytes (to_vec x @ rest) = Inr (x, length (to_vec x))"
    and sound: "from_bytes bs = Inr (x, k) \<Longrightarrow> wf x \<and> k \<le> length bs \<and> take k bs = to_vec x"
begin

lemma parse_iff:
  "from_bytes bs = Inr (x, k) \<longleftrightarrow> wf x \<and> k = length (to_vec x) \<and> (\<exists>rest. bs = to_vec x @ rest)"
proof
  assume "from_bytes bs = Inr (x, k)"
  then have s: "wf x" "k \<le> length bs" "take k bs = to_vec x" using sound by blast+
  then have "k = length (to_vec x)" by (metis length_take min.absorb2)
  moreover have "bs = to_vec x @ drop k bs" using s(3) by (metis append_take_drop_id)
  ultimately show "wf x \<and> k = length (to_vec x) \<and> (\<exists>rest. bs = to_vec x @ rest)"
    using s(1) by blast
qed (auto simp: accepts)

lemma unambiguous:
  assumes "wf x" and "wf y" and "to_vec x @ r = to_vec y @ s"
  shows "x = y \<and> r = s"
proof -
  have "Inr (x, length (to_vec x)) = (Inr (y, length (to_vec y)) :: 'e + 'a \<times> nat)"
    using accepts [OF assms(1), of r] accepts [OF assms(2), of s] assms(3) by simp
  with assms(3) show ?thesis by simp
qed

lemma sequence_unambiguous:
  "list_all wf xs \<Longrightarrow> list_all wf ys \<Longrightarrow> length xs = length ys \<Longrightarrow>
   concat (map to_vec xs) @ r = concat (map to_vec ys) @ s \<Longrightarrow> xs = ys \<and> r = s"
proof (induction xs arbitrary: ys)
  case Nil
  then show ?case by simp
next
  case (Cons x xs)
  then obtain y ys' where ys: "ys = y # ys'" by (cases ys) auto
  from Cons.prems ys have "x = y \<and> concat (map to_vec xs) @ r = concat (map to_vec ys') @ s"
    by (intro unambiguous) auto
  with Cons ys show ?case by auto
qed

end

locale fixed_codec =
  fixes width :: nat
    and to_vec :: "'a \<Rightarrow> bytes"
    and from_bytes :: "bytes \<Rightarrow> 'e + 'a"
    and wf :: "'a \<Rightarrow> bool"
  assumes length_to_vec: "wf x \<Longrightarrow> length (to_vec x) = width"
    and accepts: "wf x \<Longrightarrow> from_bytes (to_vec x @ rest) = Inr x"
    and sound: "from_bytes bs = Inr x \<Longrightarrow> wf x \<and> width \<le> length bs \<and> take width bs = to_vec x"
begin

lemma parse_iff: "from_bytes bs = Inr x \<longleftrightarrow> wf x \<and> (\<exists>rest. bs = to_vec x @ rest)"
proof
  assume "from_bytes bs = Inr x"
  then have "wf x" "take width bs = to_vec x" using sound by blast+
  then show "wf x \<and> (\<exists>rest. bs = to_vec x @ rest)" by (metis append_take_drop_id)
qed (auto simp: accepts)

lemma parse_exact: "wf x \<Longrightarrow> from_bytes (to_vec x) = Inr x"
  using accepts [of x "[]"] by simp

lemma tail_irrelevant: "from_bytes bs = Inr x \<Longrightarrow> from_bytes (take width bs @ rest) = Inr x"
  using sound accepts by metis

lemma too_short_rejected: "length bs < width \<Longrightarrow> \<not> is_ok (from_bytes bs)"
  using sound by (force simp: is_ok_iff)

end

sublocale fixed_codec \<subseteq> counted: prefix_codec to_vec
  "\<lambda>bs. res_bind (from_bytes bs) (\<lambda>x. Inr (x, width))" wf
proof unfold_locales
  fix x rest
  assume "wf x"
  then show "res_bind (from_bytes (to_vec x @ rest)) (\<lambda>x. Inr (x, width)) =
      Inr (x, length (to_vec x))"
    by (simp add: accepts length_to_vec)
next
  fix bs x k
  assume "res_bind (from_bytes bs) (\<lambda>x. Inr (x, width)) = Inr (x, k)"
  then show "wf x \<and> k \<le> length bs \<and> take k bs = to_vec x"
    using sound by (auto dest: sound)
qed

text \<open>A run of steps that keep an invariant keeps it: shared by the machines of the program.\<close>

locale stepwise_invariant =
  fixes step :: "'s \<Rightarrow> 'i \<Rightarrow> 's"
    and inv :: "'s \<Rightarrow> bool"
  assumes step_inv: "inv s \<Longrightarrow> inv (step s i)"
begin

lemma run_inv: "inv s \<Longrightarrow> inv (foldl step s is)"
  by (induction "is" arbitrary: s) (simp_all add: step_inv)

lemma prefix_inv: "inv s \<Longrightarrow> inv (foldl step s (take n is))"
  by (rule run_inv)

end

end
