(* ===== verification/Frame.thy ===== *)
theory Frame
  imports Crc32c Wire
begin

text \<open>
  The frame wire format of \<open>core/dhow-codec/src/frame.rs\<close>: the 46-byte header, the truncated
  MAC over the header fields, the CRC32C over the payload, and the parser that checks both.

  BLAKE3's keyed hash is not part of the repository: it is the parameter \<open>kh\<close> (key, then the
  bytes hashed), of which only the output length of 32 bytes is used. The successive
  \<open>update\<close> calls hash the concatenation of their arguments, which is the crate's documented
  streaming behaviour.
\<close>

section \<open>The code\<close>

datatype FrameError =
    FrameInvalidMagic bytes
  | FrameUnsupportedVersion u8
  | FrameCrcMismatch u32 u32
  | FramePayloadTooLarge u32
  | FrameTruncated nat nat
  | UnknownFrameType u8
  | FrameSessionMismatch bytes bytes
  | MacVerificationFailed
  | HeaderTooShort nat
  | ReservedFieldNonZero u16

definition MAGIC :: bytes where "MAGIC = [0x44, 0x48, 0x4F, 0x57]"
definition VERSION :: u8 where "VERSION = 1"
definition FRAME_HEADER_SIZE :: nat where "FRAME_HEADER_SIZE = 46"
definition MAX_PAYLOAD_LEN :: u16 where "MAX_PAYLOAD_LEN = 65535"
definition MAC_LEN :: nat where "MAC_LEN = 8"

datatype FrameType = FtSession | FtRepair | FtManifest

fun frame_type_u8 :: "FrameType \<Rightarrow> u8" where
  "frame_type_u8 FtSession = 0"
| "frame_type_u8 FtRepair = 1"
| "frame_type_u8 FtManifest = 2"

definition frame_type_try_from :: "u8 \<Rightarrow> FrameError + FrameType" where
  "frame_type_try_from v =
     (if v = 0 then Inr FtSession
      else if v = 1 then Inr FtRepair
      else if v = 2 then Inr FtManifest
      else Inl (UnknownFrameType v))"

record FrameHeader =
  fh_magic :: bytes
  fh_version :: u8
  fh_frame_type :: FrameType
  fh_reserved :: u16
  fh_session_id :: bytes
  fh_truncated_mac :: bytes
  fh_block_index :: u32
  fh_symbol_index :: u32
  fh_payload_length :: u16
  fh_crc32c :: u32

text \<open>The constructor panics on a payload over \<open>u16::MAX\<close> bytes: \<^const>\<open>None\<close>.\<close>

definition frame_header_new ::
  "FrameType \<Rightarrow> bytes \<Rightarrow> u32 \<Rightarrow> u32 \<Rightarrow> bytes \<Rightarrow> FrameHeader option" where
  "frame_header_new frame_type session_id block_index symbol_index payload =
     (if length payload \<le> unat MAX_PAYLOAD_LEN then
        Some \<lparr>fh_magic = MAGIC, fh_version = VERSION, fh_frame_type = frame_type,
              fh_reserved = 0, fh_session_id = session_id, fh_truncated_mac = replicate 8 0,
              fh_block_index = block_index, fh_symbol_index = symbol_index,
              fh_payload_length = of_nat (length payload), fh_crc32c = crc32c_digest payload\<rparr>
      else None)"

definition frame_header_to_vec :: "FrameHeader \<Rightarrow> bytes" where
  "frame_header_to_vec h =
     fh_magic h @ [fh_version h] @ [frame_type_u8 (fh_frame_type h)] @
     u16_to_le_bytes (fh_reserved h) @ fh_session_id h @ fh_truncated_mac h @
     u32_to_le_bytes (fh_block_index h) @ u32_to_le_bytes (fh_symbol_index h) @
     u16_to_le_bytes (fh_payload_length h) @ u32_to_le_bytes (fh_crc32c h)"

definition frame_header_from_bytes :: "bytes \<Rightarrow> FrameError + FrameHeader" where
  "frame_header_from_bytes bytes =
     (if length bytes < FRAME_HEADER_SIZE then Inl (HeaderTooShort (length bytes))
      else if slice 0 4 bytes \<noteq> MAGIC then Inl (FrameInvalidMagic (slice 0 4 bytes))
      else if bytes ! 4 \<noteq> VERSION then Inl (FrameUnsupportedVersion (bytes ! 4))
      else res_bind (frame_type_try_from (bytes ! 5)) (\<lambda>frame_type.
        let reserved = u16_from_le_bytes (slice 6 8 bytes) in
        if reserved \<noteq> 0 then Inl (ReservedFieldNonZero reserved)
        else Inr
          \<lparr>fh_magic = slice 0 4 bytes, fh_version = bytes ! 4, fh_frame_type = frame_type,
           fh_reserved = reserved, fh_session_id = slice 8 24 bytes,
           fh_truncated_mac = slice 24 32 bytes,
           fh_block_index = u32_from_le_bytes (slice 32 36 bytes),
           fh_symbol_index = u32_from_le_bytes (slice 36 40 bytes),
           fh_payload_length = u16_from_le_bytes (slice 40 42 bytes),
           fh_crc32c = u32_from_le_bytes (slice 42 46 bytes)\<rparr>))"

definition set_mac :: "FrameHeader \<Rightarrow> bytes \<Rightarrow> FrameHeader" where
  "set_mac h mac = h\<lparr>fh_truncated_mac := mac\<rparr>"

definition mac_input :: "FrameHeader \<Rightarrow> bytes" where
  "mac_input h =
     fh_magic h @ [fh_version h] @ [frame_type_u8 (fh_frame_type h)] @ fh_session_id h @
     u32_to_le_bytes (fh_block_index h) @ u32_to_le_bytes (fh_symbol_index h) @
     u16_to_le_bytes (fh_payload_length h)"

definition compute_mac :: "(bytes \<Rightarrow> bytes \<Rightarrow> bytes) \<Rightarrow> FrameHeader \<Rightarrow> bytes \<Rightarrow> bytes" where
  "compute_mac kh h session_key = take MAC_LEN (kh session_key (mac_input h))"

record Frame =
  fr_header :: FrameHeader
  fr_payload :: bytes

definition frame_build_owned ::
  "(bytes \<Rightarrow> bytes \<Rightarrow> bytes) \<Rightarrow> FrameHeader \<Rightarrow> bytes \<Rightarrow> bytes \<Rightarrow> Frame" where
  "frame_build_owned kh header payload session_key =
     \<lparr>fr_header = set_mac header (compute_mac kh header session_key), fr_payload = payload\<rparr>"

definition frame_build ::
  "(bytes \<Rightarrow> bytes \<Rightarrow> bytes) \<Rightarrow> FrameHeader \<Rightarrow> bytes \<Rightarrow> bytes \<Rightarrow> Frame" where
  "frame_build kh header payload session_key = frame_build_owned kh header payload session_key"

definition frame_to_vec :: "Frame \<Rightarrow> bytes" where
  "frame_to_vec f = frame_header_to_vec (fr_header f) @ fr_payload f"

definition frame_into_vec :: "Frame \<Rightarrow> bytes" where
  "frame_into_vec f = frame_header_to_vec (fr_header f) @ fr_payload f"

definition frame_from_bytes ::
  "(bytes \<Rightarrow> bytes \<Rightarrow> bytes) \<Rightarrow> bytes \<Rightarrow> bytes \<Rightarrow> FrameError + Frame" where
  "frame_from_bytes kh bytes session_key =
     res_bind (frame_header_from_bytes bytes) (\<lambda>header.
       if fh_truncated_mac header \<noteq> compute_mac kh header session_key
         then Inl MacVerificationFailed
       else
         (let fin = FRAME_HEADER_SIZE + unat (fh_payload_length header) in
          if length bytes < fin then Inl (FrameTruncated fin (length bytes))
          else
            (let payload = slice FRAME_HEADER_SIZE fin bytes;
                 actual_crc = crc32c_digest payload
             in if actual_crc \<noteq> fh_crc32c header
                  then Inl (FrameCrcMismatch (fh_crc32c header) actual_crc)
                else Inr \<lparr>fr_header = header, fr_payload = payload\<rparr>)))"

section \<open>The header codec\<close>

definition frame_header_wf :: "FrameHeader \<Rightarrow> bool" where
  "frame_header_wf h \<longleftrightarrow> fh_magic h = MAGIC \<and> fh_version h = VERSION \<and> fh_reserved h = 0 \<and>
     length (fh_session_id h) = 16 \<and> length (fh_truncated_mac h) = 8"

lemma frame_type_roundtrip [simp]: "frame_type_try_from (frame_type_u8 t) = Inr t"
  by (cases t) (simp_all add: frame_type_try_from_def)

lemma frame_type_sound: "frame_type_try_from v = Inr t \<Longrightarrow> frame_type_u8 t = v"
  by (auto simp: frame_type_try_from_def split: if_splits)

lemma MAGIC_length [simp]: "length MAGIC = 4"
  by (simp add: MAGIC_def)

interpretation fhdr: fixed_codec FRAME_HEADER_SIZE frame_header_to_vec frame_header_from_bytes
  frame_header_wf
proof unfold_locales
  fix h rest
  assume wf: "frame_header_wf h"
  then show "length (frame_header_to_vec h) = FRAME_HEADER_SIZE"
    by (simp add: frame_header_to_vec_def frame_header_wf_def FRAME_HEADER_SIZE_def)
  from wf show "frame_header_from_bytes (frame_header_to_vec h @ rest) = Inr h"
    by (simp add: frame_header_from_bytes_def frame_header_to_vec_def frame_header_wf_def
        FRAME_HEADER_SIZE_def wire_simps nth_append Let_def)
next
  fix bs h
  assume ok: "frame_header_from_bytes bs = Inr h"
  then have len: "46 \<le> length bs"
    by (auto simp: frame_header_from_bytes_def FRAME_HEADER_SIZE_def split: if_splits)
  from ok len have wf: "frame_header_wf h"
    by (auto simp: frame_header_from_bytes_def frame_header_wf_def Let_def split: if_splits)
  from ok len have fields: "fh_magic h = slice 0 4 bs" "[fh_version h] = slice 4 5 bs"
    "[frame_type_u8 (fh_frame_type h)] = slice 5 6 bs"
    "u16_to_le_bytes (fh_reserved h) = slice 6 8 bs"
    "fh_session_id h = slice 8 24 bs" "fh_truncated_mac h = slice 24 32 bs"
    "u32_to_le_bytes (fh_block_index h) = slice 32 36 bs"
    "u32_to_le_bytes (fh_symbol_index h) = slice 36 40 bs"
    "u16_to_le_bytes (fh_payload_length h) = slice 40 42 bs"
    "u32_to_le_bytes (fh_crc32c h) = slice 42 46 bs"
    by (auto simp: frame_header_from_bytes_def Let_def intro!: field_intros
        dest!: frame_type_sound split: if_splits)
  have "frame_header_to_vec h = slice 0 46 bs"
    by (simp add: frame_header_to_vec_def fields slice_join slice_join_append
        del: append_Cons append.simps)
  with wf len show "frame_header_wf h \<and> FRAME_HEADER_SIZE \<le> length bs \<and>
      take FRAME_HEADER_SIZE bs = frame_header_to_vec h"
    by (simp add: slice_0_take FRAME_HEADER_SIZE_def)
qed

section \<open>Frames\<close>

definition frame_valid :: "(bytes \<Rightarrow> bytes \<Rightarrow> bytes) \<Rightarrow> bytes \<Rightarrow> Frame \<Rightarrow> bool" where
  "frame_valid kh key f \<longleftrightarrow> frame_header_wf (fr_header f) \<and>
     fh_truncated_mac (fr_header f) = compute_mac kh (fr_header f) key \<and>
     unat (fh_payload_length (fr_header f)) = length (fr_payload f) \<and>
     fh_crc32c (fr_header f) = crc32c_digest (fr_payload f)"

lemma compute_mac_set_mac [simp]: "compute_mac kh (set_mac h mac) key = compute_mac kh h key"
  by (simp add: compute_mac_def mac_input_def set_mac_def)

lemma compute_mac_crc_update [simp]:
  "compute_mac kh (h\<lparr>fh_crc32c := c\<rparr>) key = compute_mac kh h key"
  by (simp add: compute_mac_def mac_input_def)

lemma frame_from_bytes_header:
  assumes "frame_header_wf h"
  shows "frame_from_bytes kh (frame_header_to_vec h @ body) key =
    (if fh_truncated_mac h \<noteq> compute_mac kh h key then Inl MacVerificationFailed
     else if length body < unat (fh_payload_length h)
       then Inl (FrameTruncated (46 + unat (fh_payload_length h)) (46 + length body))
     else (let payload = take (unat (fh_payload_length h)) body in
       if crc32c_digest payload \<noteq> fh_crc32c h
         then Inl (FrameCrcMismatch (fh_crc32c h) (crc32c_digest payload))
         else Inr \<lparr>fr_header = h, fr_payload = payload\<rparr>))"
  using fhdr.accepts [OF assms, of body] fhdr.length_to_vec [OF assms]
  by (simp add: frame_from_bytes_def Let_def slice_app_right slice_0_take FRAME_HEADER_SIZE_def)

lemma frame_parse_iff:
  "frame_from_bytes kh bs key = Inr f \<longleftrightarrow> frame_valid kh key f \<and> (\<exists>rest. bs = frame_to_vec f @ rest)"
proof
  assume "frame_valid kh key f \<and> (\<exists>rest. bs = frame_to_vec f @ rest)"
  then obtain rest where v: "frame_valid kh key f" and bs: "bs = frame_to_vec f @ rest" by blast
  from v have wf: "frame_header_wf (fr_header f)" by (simp add: frame_valid_def)
  from v bs show "frame_from_bytes kh bs key = Inr f"
    by (simp add: frame_to_vec_def frame_from_bytes_header [OF wf] frame_valid_def)
next
  assume ok: "frame_from_bytes kh bs key = Inr f"
  then obtain h where h: "frame_header_from_bytes bs = Inr h"
    unfolding frame_from_bytes_def by auto
  then obtain body where wf: "frame_header_wf h" and bs: "bs = frame_header_to_vec h @ body"
    using fhdr.parse_iff by blast
  show "frame_valid kh key f \<and> (\<exists>rest. bs = frame_to_vec f @ rest)"
    using ok wf unfolding bs frame_from_bytes_header [OF wf]
    by (auto simp: frame_valid_def frame_to_vec_def Let_def split: if_splits)
      (metis append_take_drop_id)
qed

text \<open>The keyed hash returns 32 bytes: \<open>blake3::OUT_LEN\<close>.\<close>

definition keyed_hash_32 :: "(bytes \<Rightarrow> bytes \<Rightarrow> bytes) \<Rightarrow> bool" where
  "keyed_hash_32 kh \<longleftrightarrow> (\<forall>key m. length (kh key m) = 32)"

lemma frame_build_valid:
  assumes "keyed_hash_32 kh" and "length session_id = 16"
    and "frame_header_new ft session_id bi si payload = Some h"
  shows "frame_valid kh key (frame_build kh h payload key)"
  using assms
  by (auto simp: frame_valid_def frame_build_def frame_build_owned_def frame_header_new_def
      frame_header_wf_def keyed_hash_32_def compute_mac_def mac_input_def set_mac_def MAC_LEN_def
      MAX_PAYLOAD_LEN_def unat_of_nat_lt split: if_splits)

section \<open>Properties\<close>

text \<open>A frame built for any payload of at most 65535 bytes is parsed back with the same key,
  whatever bytes follow it in the buffer.\<close>

theorem frame_roundtrip:
  assumes "keyed_hash_32 kh" and "length session_id = 16" and "length payload \<le> 65535"
  shows "\<exists>h. frame_header_new ft session_id bi si payload = Some h \<and>
     frame_from_bytes kh (frame_into_vec (frame_build kh h payload key) @ rest) key =
       Inr (frame_build kh h payload key) \<and>
     fr_payload (frame_build kh h payload key) = payload"
proof -
  from assms(3) obtain h where h: "frame_header_new ft session_id bi si payload = Some h"
    by (simp add: frame_header_new_def MAX_PAYLOAD_LEN_def)
  have "frame_into_vec f = frame_to_vec f" for f
    by (simp add: frame_into_vec_def frame_to_vec_def)
  with frame_build_valid [OF assms(1,2) h] h show ?thesis
    by (auto simp: frame_parse_iff frame_build_def frame_build_owned_def)
qed

text \<open>C17: the parser accepts exactly the serializations of valid frames (followed by anything):
  fixed magic, version and reserved field, the MAC recomputed from the header under the session
  key, the declared payload length, and the CRC of the payload.\<close>

theorem frame_accepts_iff:
  "frame_from_bytes kh bs key = Inr f \<longleftrightarrow> frame_valid kh key f \<and> (\<exists>rest. bs = frame_to_vec f @ rest)"
  by (rule frame_parse_iff)

text \<open>Corrupting up to four consecutive payload bytes of an accepted frame makes the parser
  report a CRC mismatch with the checksum it computed.\<close>

theorem frame_payload_burst_rejected:
  assumes "frame_from_bytes kh bs key = Inr f" and "fr_payload f = pre @ ds @ post"
    and "length es = length ds" and "length ds \<le> 4" and "es \<noteq> ds"
  shows "frame_from_bytes kh (frame_header_to_vec (fr_header f) @ pre @ es @ post @ rest) key =
     Inl (FrameCrcMismatch (fh_crc32c (fr_header f)) (crc32c_digest (pre @ es @ post)))"
proof -
  from assms(1) have v: "frame_valid kh key f" by (simp add: frame_parse_iff)
  then have wf: "frame_header_wf (fr_header f)" by (simp add: frame_valid_def)
  have "crc32c_digest (pre @ es @ post) \<noteq> crc32c_digest (pre @ ds @ post)"
    using crc32c_window_inj [of es ds pre post] assms(3-5) by auto
  with v assms(2,3) show ?thesis
    by (simp add: frame_from_bytes_header [OF wf] frame_valid_def Let_def)
qed

text \<open>C39: the MAC authenticates the header only. Replacing the payload of an accepted frame by
  another of the same length, with its CRC recomputed, gives a frame that is accepted under the
  same key without computing any MAC.\<close>

theorem frame_payload_not_authenticated:
  assumes "frame_from_bytes kh bs key = Inr f" and "length payload' = length (fr_payload f)"
  defines "f' \<equiv> f\<lparr>fr_header := (fr_header f)\<lparr>fh_crc32c := crc32c_digest payload'\<rparr>,
                  fr_payload := payload'\<rparr>"
  shows "frame_from_bytes kh (frame_to_vec f') key = Inr f' \<and>
    fh_truncated_mac (fr_header f') = fh_truncated_mac (fr_header f)"
  using assms(1,2) unfolding frame_parse_iff f'_def
  by (auto simp: frame_valid_def frame_header_wf_def)

theorem frame_payload_not_authenticated_witness:
  "\<exists>f. fr_payload f = [10, 20] \<and>
     frame_from_bytes (\<lambda>k m. replicate 32 (hd k)) (frame_to_vec
       (f\<lparr>fr_header := (fr_header f)\<lparr>fh_crc32c := crc32c_digest [66, 67]\<rparr>,
          fr_payload := [66, 67]\<rparr>)) [5] =
     Inr (f\<lparr>fr_header := (fr_header f)\<lparr>fh_crc32c := crc32c_digest [66, 67]\<rparr>,
          fr_payload := [66, 67]\<rparr>)"
proof -
  let ?kh = "\<lambda>k m. replicate 32 (hd k) :: bytes"
  obtain h where h: "frame_header_new FtSession (replicate 16 3) 1 2 [10, 20] = Some h"
    by (simp add: frame_header_new_def MAX_PAYLOAD_LEN_def)
  let ?f = "frame_build ?kh h [10, 20] [5]"
  have "frame_valid ?kh [5] ?f"
    by (rule frame_build_valid [OF _ _ h]) (simp_all add: keyed_hash_32_def)
  then have ok: "frame_from_bytes ?kh (frame_to_vec ?f) [5] = Inr ?f"
    by (simp add: frame_parse_iff)
  have pl: "fr_payload ?f = [10, 20]"
    by (simp add: frame_build_def frame_build_owned_def)
  with frame_payload_not_authenticated [OF ok, of "[66, 67]"] show ?thesis
    by auto
qed

text \<open>A header whose reserved field is not zero is rejected with that value: the receiver does
  not ignore the field.\<close>

theorem frame_reserved_rejected:
  assumes "frame_header_wf h" and "r \<noteq> 0"
  shows "frame_from_bytes kh (frame_header_to_vec (h\<lparr>fh_reserved := r\<rparr>) @ rest) key =
     Inl (ReservedFieldNonZero r)"
  using assms
  by (simp add: frame_from_bytes_def frame_header_from_bytes_def frame_header_to_vec_def
      frame_header_wf_def FRAME_HEADER_SIZE_def wire_simps nth_append Let_def)

end
