(* ===== verification/Session_Header.thy ===== *)
theory Session_Header
  imports Crc32c Wire
begin

text \<open>
  The session header of \<open>core/dhow-codec/src/session.rs\<close> and the digest interface of
  \<open>core/dhow-codec/src/blake3.rs\<close>.

  BLAKE3 itself is an external crate: the parameter \<open>h\<close> is its hash function. A streaming hasher
  is the bytes it absorbed, since the crate's \<open>update\<close> absorbs and \<open>finalize\<close> hashes what was
  absorbed.
\<close>

section \<open>The digest interface\<close>

definition DIGEST_LEN :: nat where "DIGEST_LEN = 32"

definition hash_32 :: "(bytes \<Rightarrow> bytes) \<Rightarrow> bool" where
  "hash_32 h \<longleftrightarrow> (\<forall>m. length (h m) = 32)"

definition blake3_digest :: "(bytes \<Rightarrow> bytes) \<Rightarrow> bytes \<Rightarrow> bytes" where
  "blake3_digest h data = h data"

record Blake3Hasher =
  b3_state :: bytes

definition blake3_hasher_new :: Blake3Hasher where
  "blake3_hasher_new = \<lparr>b3_state = []\<rparr>"

definition blake3_hasher_update :: "Blake3Hasher \<Rightarrow> bytes \<Rightarrow> Blake3Hasher" where
  "blake3_hasher_update s data = s\<lparr>b3_state := b3_state s @ data\<rparr>"

definition blake3_hasher_finalize :: "(bytes \<Rightarrow> bytes) \<Rightarrow> Blake3Hasher \<Rightarrow> bytes" where
  "blake3_hasher_finalize h s = h (b3_state s)"

lemma blake3_absorbs:
  "b3_state (foldl blake3_hasher_update s chunks) = b3_state s @ concat chunks"
  by (induction chunks arbitrary: s) (simp_all add: blake3_hasher_update_def)

lemma length_blake3_digest: "hash_32 h \<Longrightarrow> length (blake3_digest h data) = 32"
  by (simp add: hash_32_def blake3_digest_def)

section \<open>The code\<close>

datatype SessionError =
    NotInitialized
  | InvalidSessionId
  | InvalidParameters detail
  | DigestMismatch

definition SESSION_MAGIC :: bytes where "SESSION_MAGIC = [0x44, 0x53, 0x45, 0x53]"
definition SESSION_VERSION :: u8 where "SESSION_VERSION = 1"
definition SESSION_HEADER_SIZE :: nat where "SESSION_HEADER_SIZE = 126"

record RaptorQParams =
  rq_z :: u32
  rq_n :: u32
  rq_psi :: u16

record SessionParams =
  sp_payload_size :: u64
  sp_block_count :: u32
  sp_symbol_size :: u32
  sp_source_symbols_per_block :: u32
  sp_total_symbols_per_block :: u32
  sp_raptorq :: RaptorQParams
  sp_payload_digest :: bytes

definition session_params_validate :: "SessionParams \<Rightarrow> SessionError + unit" where
  "session_params_validate p =
     (if sp_block_count p = 0
        then Inl (InvalidParameters (Detail ''block_count must be non-zero'' []))
      else if sp_symbol_size p = 0
        then Inl (InvalidParameters (Detail ''symbol_size must be non-zero'' []))
      else if sp_total_symbols_per_block p < sp_source_symbols_per_block p
        then Inl (InvalidParameters
          (Detail ''total_symbols_per_block must be >= source_symbols_per_block'' []))
      else Inr ())"

record SessionHeader =
  sh_magic :: bytes
  sh_version :: u8
  sh_reserved1 :: bytes
  sh_session_id :: bytes
  sh_params :: SessionParams
  sh_reserved2 :: bytes
  sh_crc32c :: u32

definition session_params_bytes :: "SessionParams \<Rightarrow> bytes" where
  "session_params_bytes p =
     u64_to_le_bytes (sp_payload_size p) @
     u32_to_le_bytes (sp_block_count p) @
     u32_to_le_bytes (sp_symbol_size p) @
     u32_to_le_bytes (sp_source_symbols_per_block p) @
     u32_to_le_bytes (sp_total_symbols_per_block p) @
     u32_to_le_bytes (rq_z (sp_raptorq p)) @
     u32_to_le_bytes (rq_n (sp_raptorq p)) @
     u16_to_le_bytes (rq_psi (sp_raptorq p)) @
     sp_payload_digest p"

definition session_header_new :: "bytes \<Rightarrow> SessionParams \<Rightarrow> SessionHeader" where
  "session_header_new session_id params =
     (let bytes = [SESSION_VERSION] @ replicate 3 0 @ session_id @ session_params_bytes params @
                  replicate 32 0
      in \<lparr>sh_magic = SESSION_MAGIC, sh_version = SESSION_VERSION, sh_reserved1 = replicate 3 0,
          sh_session_id = session_id, sh_params = params, sh_reserved2 = replicate 32 0,
          sh_crc32c = crc32c_digest bytes\<rparr>)"

definition session_header_to_vec :: "SessionHeader \<Rightarrow> bytes" where
  "session_header_to_vec h =
     sh_magic h @ [sh_version h] @ sh_reserved1 h @ sh_session_id h @
     session_params_bytes (sh_params h) @ sh_reserved2 h @ u32_to_le_bytes (sh_crc32c h)"

definition session_header_from_bytes :: "bytes \<Rightarrow> SessionError + SessionHeader" where
  "session_header_from_bytes bytes =
     (if length bytes < SESSION_HEADER_SIZE
        then Inl (InvalidParameters (Detail ''header too short: {} bytes (minimum {})''
                   [length bytes, SESSION_HEADER_SIZE]))
      else if slice 0 4 bytes \<noteq> SESSION_MAGIC
        then Inl (InvalidParameters (Detail ''invalid magic: expected DSES, got {:?}''
                   (map unat (slice 0 4 bytes))))
      else if bytes ! 4 \<noteq> SESSION_VERSION
        then Inl (InvalidParameters (Detail ''unsupported version: {}'' [unat (bytes ! 4)]))
      else if slice 5 8 bytes \<noteq> replicate 3 0
        then Inl (InvalidParameters (Detail ''reserved field must be zero'' []))
      else if slice 90 122 bytes \<noteq> replicate 32 0
        then Inl (InvalidParameters (Detail ''reserved field 2 must be zero'' []))
      else
        (let crc = u32_from_le_bytes (slice 122 126 bytes);
             expected_crc = crc32c_digest (slice 4 122 bytes)
         in if crc \<noteq> expected_crc
              then Inl (InvalidParameters (Detail ''CRC32C mismatch: expected {:#010x}, got {:#010x}''
                         [unat expected_crc, unat crc]))
            else Inr
              \<lparr>sh_magic = slice 0 4 bytes, sh_version = bytes ! 4, sh_reserved1 = slice 5 8 bytes,
               sh_session_id = slice 8 24 bytes,
               sh_params =
                 \<lparr>sp_payload_size = u64_from_le_bytes (slice 24 32 bytes),
                  sp_block_count = u32_from_le_bytes (slice 32 36 bytes),
                  sp_symbol_size = u32_from_le_bytes (slice 36 40 bytes),
                  sp_source_symbols_per_block = u32_from_le_bytes (slice 40 44 bytes),
                  sp_total_symbols_per_block = u32_from_le_bytes (slice 44 48 bytes),
                  sp_raptorq = \<lparr>rq_z = u32_from_le_bytes (slice 48 52 bytes),
                                rq_n = u32_from_le_bytes (slice 52 56 bytes),
                                rq_psi = u16_from_le_bytes [bytes ! 56, bytes ! 57]\<rparr>,
                  sp_payload_digest = slice 58 90 bytes\<rparr>,
               sh_reserved2 = slice 90 122 bytes, sh_crc32c = crc\<rparr>))"

definition verify_payload_digest :: "(bytes \<Rightarrow> bytes) \<Rightarrow> bytes \<Rightarrow> bytes \<Rightarrow> bool" where
  "verify_payload_digest h data expected = (blake3_digest h data = expected)"

section \<open>The header codec\<close>

definition session_params_wf :: "SessionParams \<Rightarrow> bool" where
  "session_params_wf p \<longleftrightarrow> length (sp_payload_digest p) = 32"

definition session_header_body :: "SessionHeader \<Rightarrow> bytes" where
  "session_header_body h = [sh_version h] @ sh_reserved1 h @ sh_session_id h @
     session_params_bytes (sh_params h) @ sh_reserved2 h"

definition session_header_wf :: "SessionHeader \<Rightarrow> bool" where
  "session_header_wf h \<longleftrightarrow> sh_magic h = SESSION_MAGIC \<and> sh_version h = SESSION_VERSION \<and>
     sh_reserved1 h = replicate 3 0 \<and> sh_reserved2 h = replicate 32 0 \<and>
     length (sh_session_id h) = 16 \<and> session_params_wf (sh_params h) \<and>
     sh_crc32c h = crc32c_digest (session_header_body h)"

lemma SESSION_MAGIC_length [simp]: "length SESSION_MAGIC = 4"
  by (simp add: SESSION_MAGIC_def)

lemma length_session_params_bytes [simp]:
  "session_params_wf p \<Longrightarrow> length (session_params_bytes p) = 66"
  by (simp add: session_params_bytes_def session_params_wf_def)

lemma session_header_to_vec_body:
  "session_header_to_vec h = sh_magic h @ session_header_body h @ u32_to_le_bytes (sh_crc32c h)"
  by (simp add: session_header_to_vec_def session_header_body_def)

lemma length_session_header_body:
  "session_header_wf h \<Longrightarrow> length (session_header_body h) = 118"
  by (simp add: session_header_body_def session_header_wf_def)

lemma session_header_crc_field:
  assumes "session_header_wf h"
  shows "slice 4 122 (session_header_to_vec h @ rest) = session_header_body h"
  using assms length_session_header_body [OF assms]
  by (simp add: session_header_to_vec_body session_header_wf_def wire_simps)

lemma pair_slice: "Suc i < length bs \<Longrightarrow> [bs ! i, bs ! Suc i] = slice i (i + 2) bs"
  by (rule nth_equalityI) (auto simp: nth_slice less_Suc_eq numeral_2_eq_2 nth_Cons')

lemma session_header_sound:
  assumes ok: "session_header_from_bytes bs = Inr h"
  shows "126 \<le> length bs \<and> session_header_wf h \<and> session_header_to_vec h = slice 0 126 bs"
proof -
  from ok have len: "126 \<le> length bs"
    by (auto simp: session_header_from_bytes_def SESSION_HEADER_SIZE_def split: if_splits)
  have psi: "[bs ! 56, bs ! 57] = slice 56 58 bs"
    using pair_slice [of 56 bs] len by simp
  from ok len have fields: "sh_magic h = slice 0 4 bs" "[sh_version h] = slice 4 5 bs"
    "sh_reserved1 h = slice 5 8 bs" "sh_session_id h = slice 8 24 bs"
    "u64_to_le_bytes (sp_payload_size (sh_params h)) = slice 24 32 bs"
    "u32_to_le_bytes (sp_block_count (sh_params h)) = slice 32 36 bs"
    "u32_to_le_bytes (sp_symbol_size (sh_params h)) = slice 36 40 bs"
    "u32_to_le_bytes (sp_source_symbols_per_block (sh_params h)) = slice 40 44 bs"
    "u32_to_le_bytes (sp_total_symbols_per_block (sh_params h)) = slice 44 48 bs"
    "u32_to_le_bytes (rq_z (sp_raptorq (sh_params h))) = slice 48 52 bs"
    "u32_to_le_bytes (rq_n (sp_raptorq (sh_params h))) = slice 52 56 bs"
    "u16_to_le_bytes (rq_psi (sp_raptorq (sh_params h))) = slice 56 58 bs"
    "sp_payload_digest (sh_params h) = slice 58 90 bs"
    "sh_reserved2 h = slice 90 122 bs" "u32_to_le_bytes (sh_crc32c h) = slice 122 126 bs"
    by (auto simp: session_header_from_bytes_def Let_def psi intro!: field_intros split: if_splits)
  have body: "session_header_body h = slice 4 122 bs"
    by (simp add: session_header_body_def session_params_bytes_def fields slice_join
        slice_join_append del: append_Cons append.simps)
  from ok len have checks: "sh_magic h = SESSION_MAGIC" "sh_version h = SESSION_VERSION"
    "sh_reserved1 h = replicate 3 0" "sh_reserved2 h = replicate 32 0"
    "sh_crc32c h = crc32c_digest (slice 4 122 bs)"
    by (auto simp: session_header_from_bytes_def Let_def split: if_splits)
  have wf: "session_header_wf h"
    unfolding session_header_wf_def body using checks len
    by (simp add: fields(4) fields(13) session_params_wf_def)
  have "session_header_to_vec h = slice 0 126 bs"
    by (simp add: session_header_to_vec_body body fields slice_join slice_join_append)
  with len wf show ?thesis by blast
qed

interpretation shdr: fixed_codec SESSION_HEADER_SIZE session_header_to_vec
  session_header_from_bytes session_header_wf
proof unfold_locales
  fix h rest
  assume wf: "session_header_wf h"
  show len: "length (session_header_to_vec h) = SESSION_HEADER_SIZE"
    using wf length_session_header_body [OF wf]
    by (simp add: session_header_to_vec_body session_header_wf_def SESSION_HEADER_SIZE_def)
  show "session_header_from_bytes (session_header_to_vec h @ rest) = Inr h"
  proof -
    let ?bs = "session_header_to_vec h @ rest"
    have crc: "crc32c_digest (slice 4 122 ?bs) = sh_crc32c h"
      using wf session_header_crc_field [OF wf] by (simp add: session_header_wf_def)
    have l32: "length (sp_payload_digest (sh_params h)) = 32"
      using wf by (simp add: session_header_wf_def session_params_wf_def)
    have psi: "[?bs ! 56, ?bs ! 57] = slice 56 58 ?bs"
      using pair_slice [of 56 ?bs] len by (simp add: SESSION_HEADER_SIZE_def)
    show ?thesis
      using wf l32 unfolding session_header_from_bytes_def crc psi
      by (simp add: session_header_to_vec_def session_params_bytes_def session_header_wf_def
          session_params_wf_def SESSION_HEADER_SIZE_def wire_simps nth_append Let_def)
  qed
next
  fix bs h
  assume "session_header_from_bytes bs = Inr h"
  from session_header_sound [OF this]
  show "session_header_wf h \<and> SESSION_HEADER_SIZE \<le> length bs \<and>
      take SESSION_HEADER_SIZE bs = session_header_to_vec h"
    by (simp add: slice_0_take SESSION_HEADER_SIZE_def)
qed

lemma session_header_new_wf:
  "length session_id = 16 \<Longrightarrow> length (sp_payload_digest p) = 32 \<Longrightarrow>
   session_header_wf (session_header_new session_id p)"
  by (simp add: session_header_wf_def session_header_new_def session_params_wf_def
      session_header_body_def Let_def)

section \<open>Properties\<close>

text \<open>The header built for any parameters and session is parsed back from its 126 bytes,
  whatever follows them, with every parameter intact.\<close>

theorem session_header_roundtrip:
  assumes "length session_id = 16" and "length (sp_payload_digest p) = 32"
  shows "session_header_from_bytes (session_header_to_vec (session_header_new session_id p) @ rest) =
      Inr (session_header_new session_id p) \<and>
    sh_params (session_header_new session_id p) = p \<and>
    sh_session_id (session_header_new session_id p) = session_id"
  using shdr.accepts [OF session_header_new_wf [OF assms]]
  by (simp add: session_header_new_def Let_def)

text \<open>The parser accepts exactly the serializations of well-formed headers (magic and version
  fixed, reserved fields zero, CRC over the bytes from version to the second reserved field),
  followed by anything.\<close>

theorem session_header_accepts_iff:
  "session_header_from_bytes bs = Inr h \<longleftrightarrow>
     session_header_wf h \<and> (\<exists>rest. bs = session_header_to_vec h @ rest)"
  by (rule shdr.parse_iff)

text \<open>Damaging up to four consecutive bytes of the part of an accepted header that the CRC
  covers makes it unreadable.\<close>

theorem session_header_burst_rejected:
  assumes "session_header_from_bytes bs = Inr h"
    and body: "session_header_body h = pre @ ds @ post"
    and es: "length es = length ds" "length ds \<le> 4" "es \<noteq> ds"
  shows "\<not> is_ok (session_header_from_bytes
     (SESSION_MAGIC @ (pre @ es @ post) @ u32_to_le_bytes (sh_crc32c h) @ rest))"
proof -
  let ?b = "SESSION_MAGIC @ (pre @ es @ post) @ u32_to_le_bytes (sh_crc32c h) @ rest"
  have wf: "session_header_wf h" using session_header_sound [OF assms(1)] by simp
  have len: "length (pre @ es @ post) = 118"
    using length_session_header_body [OF wf] body es by simp
  have "crc32c_digest (pre @ es @ post) \<noteq> crc32c_digest (pre @ ds @ post)"
    using crc32c_window_inj [of es ds pre post] es by auto
  then have ne: "crc32c_digest (pre @ es @ post) \<noteq> sh_crc32c h"
    using wf body by (simp add: session_header_wf_def)
  have s1: "slice 4 122 ?b = pre @ es @ post"
    using len by (simp add: wire_simps del: append_assoc)
  have s2: "slice 122 126 ?b = u32_to_le_bytes (sh_crc32c h)"
    using len by (simp add: wire_simps del: append_assoc)
  have "u32_from_le_bytes (slice 122 126 ?b) \<noteq> crc32c_digest (slice 4 122 ?b)"
    unfolding s1 s2 using ne by simp
  then show ?thesis
    unfolding session_header_from_bytes_def Let_def by (simp del: append_assoc)
qed

text \<open>Hashing in any sequence of updates gives the one-shot digest of the concatenation, so
  the digest a receiver computes while it streams is the one the header carries.\<close>

theorem blake3_streaming_equals_one_shot:
  "blake3_hasher_finalize h (foldl blake3_hasher_update blake3_hasher_new chunks) =
   blake3_digest h (concat chunks)"
  by (simp add: blake3_hasher_finalize_def blake3_digest_def blake3_absorbs blake3_hasher_new_def)

end
