(* ===== verification/Float64.thy ===== *)
theory Float64
  imports Complex_Main "HOL-Library.Log_Nat"
begin

text \<open>
  The \<open>f64\<close> operations the codec uses: conversion from an integer, product, quotient, \<open>ceil\<close>, \<open>min\<close> and the
  saturating conversion to an unsigned integer. A finite value is its rational number; the two zeros are
  one, since no operation here tells them apart. A result is the exact one, rounded to the nearest
  multiple of its unit in the last place with ties to even, and infinite from \<open>2 ^ 1024\<close> on.
\<close>

datatype f64 = NaN | Infinite bool | Finite rat

definition pow2 :: "int \<Rightarrow> rat" where
  "pow2 k = (if 0 \<le> k then 2 ^ nat k else 1 / 2 ^ nat (- k))"

definition round_half_even :: "rat \<Rightarrow> int" where
  "round_half_even x =
     (let f = \<lfloor>x\<rfloor>; d = x - of_int f in
      if d < 1 / 2 then f else if 1 / 2 < d then f + 1 else if even f then f else f + 1)"

text \<open>The exponent of a positive number, from the bit lengths of numerator and denominator.\<close>

definition f64_exponent :: "rat \<Rightarrow> int" where
  "f64_exponent x =
     (let (a, b) = quotient_of x;
          k = int (floorlog 2 (nat a)) - int (floorlog 2 (nat b))
      in if pow2 k \<le> x then k else k - 1)"

definition f64_unit :: "rat \<Rightarrow> rat" where
  "f64_unit x = pow2 (max (f64_exponent x - 52) (- 1074))"

definition round_magnitude :: "rat \<Rightarrow> rat" where
  "round_magnitude x = (if x = 0 then 0 else of_int (round_half_even (x / f64_unit x)) * f64_unit x)"

definition f64_round :: "rat \<Rightarrow> f64" where
  "f64_round x =
     (let y = round_magnitude \<bar>x\<bar> in
      if pow2 1024 \<le> y then Infinite (x < 0) else Finite (if x < 0 then - y else y))"

definition f64_of_nat :: "nat \<Rightarrow> f64" where
  "f64_of_nat n = f64_round (of_nat n)"

fun f64_mult :: "f64 \<Rightarrow> f64 \<Rightarrow> f64" where
  "f64_mult NaN _ = NaN"
| "f64_mult _ NaN = NaN"
| "f64_mult (Infinite s) (Infinite t) = Infinite (s \<noteq> t)"
| "f64_mult (Infinite s) (Finite y) = (if y = 0 then NaN else Infinite (s \<noteq> (y < 0)))"
| "f64_mult (Finite x) (Infinite t) = (if x = 0 then NaN else Infinite ((x < 0) \<noteq> t))"
| "f64_mult (Finite x) (Finite y) = f64_round (x * y)"

text \<open>A zero divisor is the positive zero.\<close>

fun f64_div :: "f64 \<Rightarrow> f64 \<Rightarrow> f64" where
  "f64_div NaN _ = NaN"
| "f64_div _ NaN = NaN"
| "f64_div (Infinite s) (Infinite t) = NaN"
| "f64_div (Infinite s) (Finite y) = Infinite (s \<noteq> (y < 0))"
| "f64_div (Finite x) (Infinite t) = Finite 0"
| "f64_div (Finite x) (Finite y) =
     (if y = 0 then (if x = 0 then NaN else Infinite (x < 0)) else f64_round (x / y))"

fun f64_ceil :: "f64 \<Rightarrow> f64" where
  "f64_ceil (Finite x) = Finite (of_int \<lceil>x\<rceil>)"
| "f64_ceil x = x"

text \<open>\<open>f64::min\<close>: the other operand when one is not a number.\<close>

fun f64_min :: "f64 \<Rightarrow> f64 \<Rightarrow> f64" where
  "f64_min NaN y = y"
| "f64_min x NaN = x"
| "f64_min (Infinite s) y = (if s then Infinite True else y)"
| "f64_min x (Infinite t) = (if t then Infinite True else x)"
| "f64_min (Finite x) (Finite y) = Finite (min x y)"

text \<open>\<open>x as u32\<close>: truncation, saturating at both ends, and 0 for what is not a number.\<close>

fun f64_as_u32 :: "f64 \<Rightarrow> int" where
  "f64_as_u32 NaN = 0"
| "f64_as_u32 (Infinite s) = (if s then 0 else 2 ^ 32 - 1)"
| "f64_as_u32 (Finite x) =
     (let t = (if 0 \<le> x then \<lfloor>x\<rfloor> else \<lceil>x\<rceil>) in max 0 (min (2 ^ 32 - 1) t))"

section \<open>Exact results\<close>

lemma pow2_pos [simp]: "0 < pow2 k"
  by (simp add: pow2_def)

lemma pow2_nat: "pow2 (int n) = 2 ^ n"
  by (simp add: pow2_def)

lemma pow2_neg: "pow2 (- int n) = 1 / 2 ^ n"
  by (simp add: pow2_def)

lemma pow2_add_nat: "pow2 (k + int n) = pow2 k * 2 ^ n"
proof (cases "0 \<le> k")
  case True
  then show ?thesis by (simp add: pow2_def nat_add_distrib power_add)
next
  case False
  show ?thesis
  proof (cases "0 \<le> k + int n")
    case True
    then have "n = nat (- k) + nat (k + int n)" using False by auto
    then have "(2 :: rat) ^ n = 2 ^ nat (- k) * 2 ^ nat (k + int n)" by (metis power_add)
    then show ?thesis using True False by (simp add: pow2_def)
  next
    case f: False
    then have "nat (- k) = nat (- (k + int n)) + n" by simp
    then have "(2 :: rat) ^ nat (- k) = 2 ^ nat (- (k + int n)) * 2 ^ n" by (metis power_add)
    then show ?thesis using f False by (simp add: pow2_def)
  qed
qed

lemma round_half_even_int: "round_half_even (of_int n) = n"
  by (simp add: round_half_even_def Let_def)

lemma round_half_even_nonneg: "0 \<le> x \<Longrightarrow> 0 \<le> round_half_even x"
  by (auto simp: round_half_even_def Let_def)

text \<open>A number that is a multiple of its unit is not changed by rounding.\<close>

lemma f64_round_exact:
  assumes "x = of_int m * f64_unit x" and "0 < x" and "x < pow2 1024"
  shows "f64_round x = Finite x"
proof -
  have "x / f64_unit x = of_int m" using assms(1) by (metis pow2_pos f64_unit_def less_irrefl nonzero_mult_div_cancel_right)
  then have "round_magnitude x = x" using assms(1,2) by (simp add: round_magnitude_def round_half_even_int)
  with assms show ?thesis by (simp add: f64_round_def)
qed

lemma f64_exponent_le:
  assumes "0 < x"
  shows "pow2 (f64_exponent x) \<le> x"
proof -
  obtain a b where q: "quotient_of x = (a, b)" by (cases "quotient_of x")
  have b: "0 < b" using quotient_of_denom_pos [OF q] .
  have x: "x = of_int a / of_int b" by (rule quotient_of_div [OF q])
  have a: "0 < a" using assms b x by (simp add: zero_less_divide_iff)
  let ?A = "floorlog 2 (nat a)" and ?B = "floorlog 2 (nat b)"
  let ?k = "int ?A - int ?B"
  have A: "2 ^ (?A - 1) \<le> nat a" "0 < ?A" and B: "nat b < 2 ^ ?B"
    using a b floorlog_bounds [of "nat a" 2] floorlog_bounds [of "nat b" 2] by (auto simp: floorlog_def)
  have ra: "(2 :: rat) ^ (?A - 1) \<le> of_int a" using A a by (metis nat_eq_iff of_int_of_nat_eq of_nat_le_iff of_nat_numeral of_nat_power less_imp_le zero_le_imp_eq_int nat_int)
  have rb: "(of_int b :: rat) < 2 ^ ?B" using B b by (metis of_int_of_nat_eq of_nat_less_iff of_nat_numeral of_nat_power less_imp_le nat_int zero_le_imp_eq_int)
  have "pow2 (?k - 1) * 2 ^ ?B = 2 ^ (?A - 1)"
    using pow2_add_nat [of "?k - 1" ?B] A(2) pow2_nat [of "?A - 1"] by (simp add: of_nat_diff)
  moreover have "pow2 (?k - 1) * of_int b \<le> pow2 (?k - 1) * 2 ^ ?B"
    using rb by (intro mult_left_mono) (simp_all add: less_imp_le)
  ultimately have "pow2 (?k - 1) * of_int b \<le> of_int a" using ra by (metis order_trans)
  then have "pow2 (?k - 1) \<le> x" using b by (simp add: x pos_le_divide_eq)
  then show ?thesis by (simp add: f64_exponent_def q Let_def)
qed

lemma pow2_mono: "k \<le> l \<Longrightarrow> pow2 k \<le> pow2 l"
  using pow2_add_nat [of k "nat (l - k)"] pow2_pos [of k] one_le_power [of "2 :: rat" "nat (l - k)"]
  by simp

lemma pow2_less: "pow2 k < pow2 l \<Longrightarrow> k < l"
  using pow2_mono [of l k] by (meson not_less)

text \<open>Integers and half-integers below \<open>2 ^ 52\<close> are exact.\<close>

lemma f64_round_half_integer:
  assumes "0 \<le> n" and "n < 2 ^ 53"
  shows "f64_round (of_int n / 2) = Finite (of_int n / 2)"
proof (cases "n = 0")
  case True
  then show ?thesis by (simp add: f64_round_def round_magnitude_def pow2_def)
next
  case False
  let ?x = "of_int n / 2 :: rat"
  have pos: "0 < ?x" using assms(1) False by simp
  have lt: "?x < pow2 52" using assms(2) by (simp add: pow2_def)
  have e: "f64_exponent ?x < 52"
    using f64_exponent_le [OF pos] lt by (intro pow2_less) (rule le_less_trans)
  let ?k = "max (f64_exponent ?x - 52) (- 1074)"
  have "?k \<le> - 1" using e by simp
  then obtain j where j: "- 1 = ?k + int j" by (metis zle_iff_zadd)
  have "pow2 (- 1) = pow2 ?k * 2 ^ j" unfolding j by (rule pow2_add_nat)
  then have "?x = of_int (n * 2 ^ j) * f64_unit ?x"
    by (simp add: f64_unit_def pow2_def [of "- 1"] mult.commute)
  moreover have "pow2 52 \<le> pow2 1024" by (rule pow2_mono) simp
  ultimately show ?thesis using f64_round_exact [OF _ pos] lt by (meson less_le_trans)
qed

lemma f64_of_nat_exact: "n < 2 ^ 52 \<Longrightarrow> f64_of_nat n = Finite (of_nat n)"
  using f64_round_half_integer [of "2 * int n"] by (simp add: f64_of_nat_def)

lemma round_magnitude_nonneg: "0 \<le> x \<Longrightarrow> 0 \<le> round_magnitude x"
  by (auto simp: round_magnitude_def f64_unit_def less_imp_le intro!: mult_nonneg_nonneg round_half_even_nonneg
      divide_nonneg_pos)

lemma f64_round_nonneg:
  "0 \<le> x \<Longrightarrow> f64_round x = Infinite False \<or> (\<exists>y. 0 \<le> y \<and> f64_round x = Finite y)"
  using round_magnitude_nonneg [of x] by (simp add: f64_round_def Let_def)

end
