(* ===== verification/Session_State.thy ===== *)
theory Session_State
  imports Session_Header Float64
begin

text \<open>
  The transfer state machine of \<open>core/dhow-codec/src/session_state.rs\<close>.

  Every operation that changes the machine is a function from the machine to its result and the new
  machine; the step relation collects them, and reachability is from \<open>SessionStateMachine::new\<close>.
  The counters are \<open>u64\<close> and wrap as in a release build.
\<close>

section \<open>The code\<close>

datatype SessionState =
  Initializing | Sending | Receiving | Recovering | Complete | Errored | Paused

record SessionStateMachine =
  sm_session_id :: bytes
  sm_params :: SessionParams
  sm_state :: SessionState
  sm_frames_sent :: u64
  sm_frames_received :: u64
  sm_bytes_transmitted :: u64
  sm_last_error :: "string option"

definition state_machine_new :: "bytes \<Rightarrow> SessionParams \<Rightarrow> SessionStateMachine" where
  "state_machine_new session_id params =
     \<lparr>sm_session_id = session_id, sm_params = params, sm_state = Initializing,
      sm_frames_sent = 0, sm_frames_received = 0, sm_bytes_transmitted = 0,
      sm_last_error = None\<rparr>"

text \<open>The discriminant stands for the \<open>{:?}\<close> rendering of the state in the message.\<close>

fun state_code :: "SessionState \<Rightarrow> nat" where
  "state_code Initializing = 0"
| "state_code Sending = 1"
| "state_code Receiving = 2"
| "state_code Recovering = 3"
| "state_code Complete = 4"
| "state_code Errored = 5"
| "state_code Paused = 6"

definition refuse :: "string \<Rightarrow> SessionStateMachine \<Rightarrow> SessionError + unit" where
  "refuse msg m = Inl (InvalidParameters (Detail msg [state_code (sm_state m)]))"

definition start_sending ::
  "SessionStateMachine \<Rightarrow> (SessionError + unit) \<times> SessionStateMachine" where
  "start_sending m =
     (case sm_state m of
        Initializing \<Rightarrow> (Inr (), m\<lparr>sm_state := Sending\<rparr>)
      | Paused \<Rightarrow> (Inr (), m\<lparr>sm_state := Sending\<rparr>)
      | _ \<Rightarrow> (refuse ''cannot start sending from {:?}'' m, m))"

definition start_receiving ::
  "SessionStateMachine \<Rightarrow> (SessionError + unit) \<times> SessionStateMachine" where
  "start_receiving m =
     (case sm_state m of
        Initializing \<Rightarrow> (Inr (), m\<lparr>sm_state := Receiving\<rparr>)
      | _ \<Rightarrow> (refuse ''cannot start receiving from {:?}'' m, m))"

definition enter_recovery ::
  "SessionStateMachine \<Rightarrow> (SessionError + unit) \<times> SessionStateMachine" where
  "enter_recovery m =
     (if sm_state m \<in> {Receiving, Sending} then (Inr (), m\<lparr>sm_state := Recovering\<rparr>)
      else (refuse ''cannot enter recovery from {:?}'' m, m))"

definition complete ::
  "SessionStateMachine \<Rightarrow> (SessionError + unit) \<times> SessionStateMachine" where
  "complete m =
     (if sm_state m \<in> {Sending, Receiving, Recovering} then (Inr (), m\<lparr>sm_state := Complete\<rparr>)
      else (refuse ''cannot complete from {:?}'' m, m))"

definition sm_error :: "string \<Rightarrow> SessionStateMachine \<Rightarrow> SessionStateMachine" where
  "sm_error msg m = m\<lparr>sm_state := Errored, sm_last_error := Some msg\<rparr>"

definition sm_pause ::
  "SessionStateMachine \<Rightarrow> (SessionError + unit) \<times> SessionStateMachine" where
  "sm_pause m =
     (if sm_state m \<in> {Sending, Receiving} then (Inr (), m\<lparr>sm_state := Paused\<rparr>)
      else (refuse ''cannot pause from {:?}'' m, m))"

definition record_frame_sent :: "nat \<Rightarrow> SessionStateMachine \<Rightarrow> SessionStateMachine" where
  "record_frame_sent frame_size m =
     m\<lparr>sm_frames_sent := sm_frames_sent m + 1,
       sm_bytes_transmitted := sm_bytes_transmitted m + of_nat frame_size\<rparr>"

definition record_frame_received :: "SessionStateMachine \<Rightarrow> SessionStateMachine" where
  "record_frame_received m = m\<lparr>sm_frames_received := sm_frames_received m + 1\<rparr>"

definition progress :: "SessionStateMachine \<Rightarrow> f64" where
  "progress m =
     (if sp_payload_size (sm_params m) = 0 then Finite 1
      else (let needed = ucast (sp_source_symbols_per_block (sm_params m)) *
                         (ucast (sp_block_count (sm_params m)) :: u64)
            in if needed = 0 then Finite 1
               else f64_min (f64_div (f64_of_nat (unat (sm_frames_received m))) (f64_of_nat (unat needed))) (Finite 1)))"

section \<open>Steps and reachability\<close>

datatype sm_op =
    OpStartSending | OpStartReceiving | OpRecover | OpComplete | OpError string | OpPause
  | OpSent nat | OpReceived

fun sm_apply :: "sm_op \<Rightarrow> SessionStateMachine \<Rightarrow> SessionStateMachine" where
  "sm_apply OpStartSending m = snd (start_sending m)"
| "sm_apply OpStartReceiving m = snd (start_receiving m)"
| "sm_apply OpRecover m = snd (enter_recovery m)"
| "sm_apply OpComplete m = snd (complete m)"
| "sm_apply (OpError e) m = sm_error e m"
| "sm_apply OpPause m = snd (sm_pause m)"
| "sm_apply (OpSent n) m = record_frame_sent n m"
| "sm_apply OpReceived m = record_frame_received m"

inductive sm_step :: "SessionStateMachine \<Rightarrow> sm_op \<Rightarrow> SessionStateMachine \<Rightarrow> bool" where
  start_sending: "start_sending m = (Inr (), m') \<Longrightarrow> sm_step m OpStartSending m'"
| start_receiving: "start_receiving m = (Inr (), m') \<Longrightarrow> sm_step m OpStartReceiving m'"
| enter_recovery: "enter_recovery m = (Inr (), m') \<Longrightarrow> sm_step m OpRecover m'"
| complete: "complete m = (Inr (), m') \<Longrightarrow> sm_step m OpComplete m'"
| error: "sm_step m (OpError e) (sm_error e m)"
| pause: "sm_pause m = (Inr (), m') \<Longrightarrow> sm_step m OpPause m'"
| sent: "sm_step m (OpSent n) (record_frame_sent n m)"
| received: "sm_step m OpReceived (record_frame_received m)"

inductive sm_reachable :: "SessionStateMachine \<Rightarrow> SessionStateMachine \<Rightarrow> bool" where
  sm_here: "sm_reachable m m"
| sm_next: "sm_reachable m m' \<Longrightarrow> sm_step m' op m'' \<Longrightarrow> sm_reachable m m''"

inductive_cases sm_step_elim: "sm_step m op m'"

lemmas guarded_defs = start_sending_def start_receiving_def enter_recovery_def complete_def
  sm_pause_def refuse_def

lemmas op_defs = guarded_defs sm_error_def record_frame_sent_def record_frame_received_def

text \<open>A refused operation leaves the machine as it was; an accepted one is a step.\<close>

lemma sm_apply_step: "sm_apply op m = m \<or> sm_step m op (sm_apply op m)"
  by (cases op; cases "sm_state m") (auto simp: guarded_defs intro: sm_step.intros)

lemma sm_step_apply: "sm_step m op m' \<Longrightarrow> m' = sm_apply op m"
  by (erule sm_step_elim) auto

text \<open>The allowed changes of state.\<close>

fun sm_edge :: "SessionState \<Rightarrow> SessionState \<Rightarrow> bool" where
  "sm_edge Initializing s = (s \<in> {Initializing, Sending, Receiving, Errored})"
| "sm_edge Sending s = (s \<in> {Sending, Recovering, Complete, Paused, Errored})"
| "sm_edge Receiving s = (s \<in> {Receiving, Recovering, Complete, Paused, Errored})"
| "sm_edge Recovering s = (s \<in> {Recovering, Complete, Errored})"
| "sm_edge Complete s = (s \<in> {Complete, Errored})"
| "sm_edge Errored s = (s = Errored)"
| "sm_edge Paused s = (s \<in> {Paused, Sending, Errored})"

lemma sm_step_edge: "sm_step m op m' \<Longrightarrow> sm_edge (sm_state m) (sm_state m')"
  by (erule sm_step_elim; cases "sm_state m") (auto simp: op_defs)

text \<open>What every run keeps of the machine created for a session: identity and parameters, and an
  error reason exactly in the error state.\<close>

definition sm_inv :: "bytes \<Rightarrow> SessionParams \<Rightarrow> SessionStateMachine \<Rightarrow> bool" where
  "sm_inv sid p m \<longleftrightarrow> sm_session_id m = sid \<and> sm_params m = p \<and>
     (sm_state m = Errored \<longleftrightarrow> sm_last_error m \<noteq> None)"

interpretation smachine: stepwise_invariant "\<lambda>m op. sm_apply op m" "sm_inv sid p"
proof unfold_locales
  fix m op
  assume "sm_inv sid p m"
  then show "sm_inv sid p (sm_apply op m)"
    by (cases op; cases "sm_state m") (auto simp: sm_inv_def op_defs)
qed

lemma no_receiving_again:
  "sm_reachable m m' \<Longrightarrow> sm_state m \<notin> {Initializing, Receiving} \<Longrightarrow>
   sm_state m' \<notin> {Initializing, Receiving}"
proof (induction rule: sm_reachable.induct)
  case (sm_next m m' op m'')
  then have "sm_edge (sm_state m') (sm_state m'')" by (blast intro: sm_step_edge)
  with sm_next show ?case by (cases "sm_state m'") auto
qed simp

section \<open>The life of a session\<close>






























section \<open>Properties\<close>


text \<open>Whatever sequence of operations a caller makes, refused ones included, the machine keeps
  its session and parameters, and has an error reason exactly when it is in the error state.\<close>

theorem sm_run_invariant:
  "sm_inv sid p (foldl (\<lambda>m op. sm_apply op m) (state_machine_new sid p) ops)"
  by (rule smachine.run_inv) (simp add: sm_inv_def state_machine_new_def)

text \<open>The counters count: after any sequence of operations the numbers of frames sent and
  received and the bytes transmitted are those recorded, modulo \<open>2 ^ 64\<close>.\<close>

theorem sm_counters:
  "let m = foldl (\<lambda>m op. sm_apply op m) (state_machine_new sid p) ops in
   sm_frames_sent m = of_nat (length [n. OpSent n \<leftarrow> ops]) \<and>
   sm_bytes_transmitted m = of_nat (sum_list [n. OpSent n \<leftarrow> ops]) \<and>
   sm_frames_received m = of_nat (length [() . OpReceived \<leftarrow> ops])"
proof -
  have *: "sm_frames_sent (sm_apply op m) =
        sm_frames_sent m + (case op of OpSent n \<Rightarrow> 1 | _ \<Rightarrow> 0) \<and>
      sm_bytes_transmitted (sm_apply op m) =
        sm_bytes_transmitted m + (case op of OpSent n \<Rightarrow> of_nat n | _ \<Rightarrow> 0) \<and>
      sm_frames_received (sm_apply op m) =
        sm_frames_received m + (case op of OpReceived \<Rightarrow> 1 | _ \<Rightarrow> 0)" for op m
    by (cases op; cases "sm_state m") (auto simp: op_defs)
  have "sm_frames_sent (foldl (\<lambda>m op. sm_apply op m) m ops) =
        sm_frames_sent m + of_nat (length [n. OpSent n \<leftarrow> ops]) \<and>
      sm_bytes_transmitted (foldl (\<lambda>m op. sm_apply op m) m ops) =
        sm_bytes_transmitted m + of_nat (sum_list [n. OpSent n \<leftarrow> ops]) \<and>
      sm_frames_received (foldl (\<lambda>m op. sm_apply op m) m ops) =
        sm_frames_received m + of_nat (length [() . OpReceived \<leftarrow> ops])" for m
    by (induction ops arbitrary: m) (auto simp: * split: sm_op.split)
  then show ?thesis by (simp add: Let_def state_machine_new_def)
qed

text \<open>C34: a receiver that pauses can never receive again: no machine reachable from a paused one
  is in the receiving state.\<close>

theorem paused_receiver_is_stuck:
  assumes "sm_state m = Paused" and "sm_reachable m m'"
  shows "sm_state m' \<noteq> Receiving"
  using no_receiving_again [OF assms(2)] assms(1) by simp

theorem paused_receiver_is_stuck_witness:
  "let m = foldl (\<lambda>m op. sm_apply op m) (state_machine_new (replicate 16 1)
        \<lparr>sp_payload_size = 55, sp_block_count = 1, sp_symbol_size = 256,
         sp_source_symbols_per_block = 1, sp_total_symbols_per_block = 2,
         sp_raptorq = \<lparr>rq_z = 1, rq_n = 1, rq_psi = 1\<rparr>, sp_payload_digest = replicate 32 0\<rparr>)
        [OpStartReceiving, OpReceived, OpPause]
   in sm_state (snd (start_sending m)) = Sending \<and> sm_state (snd (start_sending m)) \<noteq> Receiving"
proof -
  have "sm_state (snd (start_sending m)) = Sending \<and> sm_state (snd (start_sending m)) \<noteq> Receiving"
    if p: "sm_state m = Paused" for m
  proof -
    have s: "start_sending m = (Inr (), m\<lparr>sm_state := Sending\<rparr>)"
      using p by (simp add: start_sending_def)
    then have "sm_reachable m (snd (start_sending m))"
      by (auto intro: sm_reachable.intros sm_step.intros)
    with paused_receiver_is_stuck [OF p] s show ?thesis by simp
  qed
  then show ?thesis by (simp add: Let_def op_defs state_machine_new_def)
qed

text \<open>The progress shown is always a number between 0 and 1: never infinite, and never a \<open>NaN\<close>, even from
  counters beyond the integers \<open>f64\<close> represents.\<close>

theorem progress_in_unit_interval: "\<exists>x. progress m = Finite x \<and> 0 \<le> x \<and> x \<le> 1"
proof -
  have min1: "\<exists>x. f64_min q (Finite 1) = Finite x \<and> 0 \<le> x \<and> x \<le> 1"
    if "q = NaN \<or> q = Infinite False \<or> (\<exists>y. 0 \<le> y \<and> q = Finite y)" for q
    using that by auto
  have div: "f64_div a b = NaN \<or> f64_div a b = Infinite False \<or> (\<exists>y. 0 \<le> y \<and> f64_div a b = Finite y)"
    if a: "a = Infinite False \<or> (\<exists>y. 0 \<le> y \<and> a = Finite y)" and b: "b = Infinite False \<or> (\<exists>y. 0 \<le> y \<and> b = Finite y)"
    for a b
    using a b
  proof (elim disjE exE conjE)
    fix x y assume "0 \<le> x" "a = Finite x" "0 \<le> y" "b = Finite y"
    then show ?thesis using f64_round_nonneg [of "x / y"] by auto
  qed auto
  have nn: "f64_of_nat n = Infinite False \<or> (\<exists>y. 0 \<le> y \<and> f64_of_nat n = Finite y)" for n
    using f64_round_nonneg [of "of_nat n"] by (auto simp: f64_of_nat_def)
  from min1 [OF div [OF nn nn]] show ?thesis by (simp add: progress_def Let_def)
qed

end
