(* ===== verification/Resume.thy ===== *)
theory Resume
  imports Session_Header
begin

text \<open>
  The resume file of \<open>core/dhow-codec/src/resume.rs\<close>: block entries with their symbol bitmaps,
  the 128-byte header with its CRC and integrity digest, and the whole file.

  Lengths are \<open>usize\<close> of a 64-bit target, where \<open>12 + (2 ^ 32 - 1).div_ceil(8)\<close> does not
  overflow, so the \<open>checked_add\<close> of the entry parser always succeeds. BLAKE3 is the parameter \<open>h\<close>.
\<close>

section \<open>The code\<close>

datatype ResumeError =
    ResumeInvalidMagic bytes
  | ResumeUnsupportedVersion u8
  | IntegrityCheckFailed
  | ResumeTruncated nat nat
  | ResumeSessionMismatch
  | ResumeBlockIndexOutOfRange u32
  | InvalidSymbolCount u32
  | ReservedNotZero nat
  | HeldCountMismatch u32 u32
  | ResumeTrailingBytes nat
  | JournalMismatch detail

definition RESUME_MAGIC :: bytes where "RESUME_MAGIC = [0x44, 0x48, 0x52, 0x53]"
definition RESUME_VERSION :: u8 where "RESUME_VERSION = 2"
definition RESUME_HEADER_SIZE :: nat where "RESUME_HEADER_SIZE = 128"
definition CRC_COVER_BYTES :: nat where "CRC_COVER_BYTES = 92"
definition INTEGRITY_COVER_BYTES :: nat where "INTEGRITY_COVER_BYTES = 96"
definition BLOCK_ENTRY_HEADER_SIZE :: nat where "BLOCK_ENTRY_HEADER_SIZE = 12"

record BlockEntry =
  be_block_index :: u32
  be_symbol_count :: u32
  be_symbols_held :: u32
  be_symbol_bitmap :: bytes

definition block_entry_new :: "u32 \<Rightarrow> u32 \<Rightarrow> u32 \<Rightarrow> bytes \<Rightarrow> BlockEntry" where
  "block_entry_new block_index symbol_count symbols_held symbol_bitmap =
     \<lparr>be_block_index = block_index, be_symbol_count = symbol_count,
      be_symbols_held = symbols_held, be_symbol_bitmap = symbol_bitmap\<rparr>"

definition block_entry_to_vec :: "BlockEntry \<Rightarrow> bytes" where
  "block_entry_to_vec e =
     u32_to_le_bytes (be_block_index e) @ u32_to_le_bytes (be_symbol_count e) @
     u32_to_le_bytes (be_symbols_held e) @ be_symbol_bitmap e"

definition popcount :: "bytes \<Rightarrow> nat" where
  "popcount bitmap = sum_list (map count_ones bitmap)"

definition block_entry_from_bytes :: "bytes \<Rightarrow> ResumeError + BlockEntry \<times> nat" where
  "block_entry_from_bytes bytes =
     (if length bytes < BLOCK_ENTRY_HEADER_SIZE
        then Inl (ResumeTruncated BLOCK_ENTRY_HEADER_SIZE (length bytes))
      else
        (let block_index = u32_from_le_bytes (slice 0 4 bytes);
             symbol_count = u32_from_le_bytes (slice 4 8 bytes);
             symbols_held = u32_from_le_bytes (slice 8 12 bytes)
         in if symbols_held > symbol_count then Inl (InvalidSymbolCount symbols_held)
            else
              (let bitmap_len = div_ceil_usize (unat symbol_count) 8;
                   fin = BLOCK_ENTRY_HEADER_SIZE + bitmap_len
               in if length bytes < fin then Inl (ResumeTruncated fin (length bytes))
                  else
                    (let symbol_bitmap = slice BLOCK_ENTRY_HEADER_SIZE fin bytes;
                         held = of_nat (popcount symbol_bitmap);
                         used = unat (symbol_count mod 8)
                     in if held \<noteq> symbols_held then Inl (HeldCountMismatch symbols_held held)
                        else if symbol_bitmap \<noteq> [] \<and> used \<noteq> 0 \<and>
                                drop_bit used (last symbol_bitmap) \<noteq> 0
                          then Inl (InvalidSymbolCount symbol_count)
                        else Inr (\<lparr>be_block_index = block_index, be_symbol_count = symbol_count,
                                   be_symbols_held = symbols_held,
                                   be_symbol_bitmap = symbol_bitmap\<rparr>, fin)))))"

record ResumeHeader =
  rh_magic :: bytes
  rh_version :: u8
  rh_reserved1 :: bytes
  rh_session_id :: bytes
  rh_block_count :: u32
  rh_journal_bytes :: u64
  rh_journal_digest :: bytes
  rh_reserved2 :: bytes
  rh_crc32c :: u32
  rh_integrity_digest :: bytes

definition resume_header_new ::
  "(bytes \<Rightarrow> bytes) \<Rightarrow> bytes \<Rightarrow> u64 \<Rightarrow> bytes \<Rightarrow> BlockEntry list \<Rightarrow> ResumeHeader" where
  "resume_header_new h session_id journal_bytes journal_digest entries =
     (let block_count = of_nat (length entries);
          bytes = RESUME_MAGIC @ [RESUME_VERSION] @ replicate 3 0 @ session_id @
                  u32_to_le_bytes block_count @ u64_to_le_bytes journal_bytes @
                  journal_digest @ replicate 24 0;
          crc = crc32c_digest bytes;
          integrity = blake3_digest h (bytes @ u32_to_le_bytes crc)
      in \<lparr>rh_magic = RESUME_MAGIC, rh_version = RESUME_VERSION, rh_reserved1 = replicate 3 0,
          rh_session_id = session_id, rh_block_count = block_count,
          rh_journal_bytes = journal_bytes, rh_journal_digest = journal_digest,
          rh_reserved2 = replicate 24 0, rh_crc32c = crc, rh_integrity_digest = integrity\<rparr>)"

definition resume_header_to_vec :: "ResumeHeader \<Rightarrow> bytes" where
  "resume_header_to_vec r =
     rh_magic r @ [rh_version r] @ rh_reserved1 r @ rh_session_id r @
     u32_to_le_bytes (rh_block_count r) @ u64_to_le_bytes (rh_journal_bytes r) @
     rh_journal_digest r @ rh_reserved2 r @ u32_to_le_bytes (rh_crc32c r) @ rh_integrity_digest r"

definition resume_header_from_bytes :: "(bytes \<Rightarrow> bytes) \<Rightarrow> bytes \<Rightarrow> ResumeError + ResumeHeader" where
  "resume_header_from_bytes h bytes =
     (if length bytes < RESUME_HEADER_SIZE
        then Inl (ResumeTruncated RESUME_HEADER_SIZE (length bytes))
      else if slice 0 4 bytes \<noteq> RESUME_MAGIC then Inl (ResumeInvalidMagic (slice 0 4 bytes))
      else if bytes ! 4 \<noteq> RESUME_VERSION then Inl (ResumeUnsupportedVersion (bytes ! 4))
      else if slice 5 8 bytes \<noteq> replicate 3 0 then Inl (ReservedNotZero 5)
      else if slice 68 92 bytes \<noteq> replicate 24 0 then Inl (ReservedNotZero 68)
      else
        (let crc = u32_from_le_bytes (slice 92 96 bytes);
             integrity = slice 96 128 bytes
         in if crc \<noteq> crc32c_digest (slice 0 CRC_COVER_BYTES bytes) then Inl IntegrityCheckFailed
            else if integrity \<noteq> blake3_digest h (slice 0 INTEGRITY_COVER_BYTES bytes)
              then Inl IntegrityCheckFailed
            else Inr
              \<lparr>rh_magic = slice 0 4 bytes, rh_version = bytes ! 4, rh_reserved1 = slice 5 8 bytes,
               rh_session_id = slice 8 24 bytes,
               rh_block_count = u32_from_le_bytes (slice 24 28 bytes),
               rh_journal_bytes = u64_from_le_bytes (slice 28 36 bytes),
               rh_journal_digest = slice 36 68 bytes, rh_reserved2 = slice 68 92 bytes,
               rh_crc32c = crc, rh_integrity_digest = integrity\<rparr>))"

record ResumeFile =
  rf_header :: ResumeHeader
  rf_entries :: "BlockEntry list"

definition resume_file_build :: "ResumeHeader \<Rightarrow> BlockEntry list \<Rightarrow> ResumeFile" where
  "resume_file_build header entries = \<lparr>rf_header = header, rf_entries = entries\<rparr>"

definition resume_file_new ::
  "(bytes \<Rightarrow> bytes) \<Rightarrow> bytes \<Rightarrow> u64 \<Rightarrow> bytes \<Rightarrow> BlockEntry list \<Rightarrow> ResumeFile" where
  "resume_file_new h session_id journal_bytes journal_digest entries =
     resume_file_build (resume_header_new h session_id journal_bytes journal_digest entries) entries"

definition resume_file_to_vec :: "ResumeFile \<Rightarrow> bytes" where
  "resume_file_to_vec f = resume_header_to_vec (rf_header f) @
     concat (map block_entry_to_vec (rf_entries f))"

text \<open>The loop over \<open>0..block_count\<close>: \<open>n\<close> entries are left, the next has index \<open>index\<close>.\<close>

fun resume_entries_loop ::
  "nat \<Rightarrow> nat \<Rightarrow> bytes \<Rightarrow> nat \<Rightarrow> BlockEntry list \<Rightarrow> ResumeError + BlockEntry list \<times> nat" where
  "resume_entries_loop 0 index bytes offset entries = Inr (entries, offset)"
| "resume_entries_loop (Suc n) index bytes offset entries =
     res_bind (block_entry_from_bytes (drop offset bytes)) (\<lambda>(entry, consumed).
       if unat (be_block_index entry) \<noteq> index
         then Inl (ResumeBlockIndexOutOfRange (be_block_index entry))
       else resume_entries_loop n (Suc index) bytes (offset + consumed) (entries @ [entry]))"

definition resume_file_from_bytes :: "(bytes \<Rightarrow> bytes) \<Rightarrow> bytes \<Rightarrow> ResumeError + ResumeFile" where
  "resume_file_from_bytes h bytes =
     res_bind (resume_header_from_bytes h bytes) (\<lambda>header.
       res_bind (resume_entries_loop (unat (rh_block_count header)) 0 bytes RESUME_HEADER_SIZE [])
         (\<lambda>(entries, offset).
           if offset \<noteq> length bytes then Inl (ResumeTrailingBytes (length bytes - offset))
           else Inr \<lparr>rf_header = header, rf_entries = entries\<rparr>))"

section \<open>Bitmaps\<close>

definition bitmap_bit :: "bytes \<Rightarrow> nat \<Rightarrow> bool" where
  "bitmap_bit bm i \<longleftrightarrow> i div 8 < length bm \<and> bit (bm ! (i div 8)) (i mod 8)"

lemma bitmap_bit_bound: "bitmap_bit bm i \<Longrightarrow> i < 8 * length bm"
  by (simp add: bitmap_bit_def div_less_iff_less_mult mult.commute)

lemma finite_bitmap [simp]: "finite {i. bitmap_bit bm i}"
  using bitmap_bit_bound by (auto intro: finite_subset [of _ "{..<8 * length bm}"])

lemma count_ones_card: "count_ones b = card {j. j < 8 \<and> bit b j}"
proof -
  have "{j. j < 8 \<and> bit b j} = set (filter (bit b) [0..<8])" by auto
  moreover have "distinct (filter (bit b) [0..<8])" by simp
  ultimately show ?thesis by (metis count_ones_def distinct_card)
qed

lemma bitmap_bit_snoc:
  "{i. bitmap_bit (bm @ [b]) i} =
     {i. bitmap_bit bm i} \<union> (+) (8 * length bm) ` {j. j < 8 \<and> bit b j}" (is "?L = ?A \<union> ?B")
proof (rule set_eqI)
  fix i
  show "i \<in> ?L \<longleftrightarrow> i \<in> ?A \<union> ?B"
  proof (cases "i < 8 * length bm")
    case True
    then have "i div 8 < length bm" by (simp add: div_less_iff_less_mult mult.commute)
    with True show ?thesis by (auto simp: bitmap_bit_def nth_append)
  next
    case False
    then obtain j where j: "i = 8 * length bm + j" by (metis le_Suc_ex not_less)
    show ?thesis
    proof (cases "j < 8")
      case True
      then show ?thesis unfolding j by (auto simp: bitmap_bit_def)
    next
      case False
      have "length bm + 1 \<le> (8 * length bm + j) div 8" using False by simp
      then show ?thesis using False unfolding j by (auto simp: bitmap_bit_def)
    qed
  qed
qed

lemma popcount_card: "popcount bm = card {i. bitmap_bit bm i}"
proof (induction bm rule: rev_induct)
  case Nil
  show ?case by (simp add: popcount_def bitmap_bit_def)
next
  case (snoc b bm)
  have disj: "{i. bitmap_bit bm i} \<inter> (+) (8 * length bm) ` {j. j < 8 \<and> bit b j} = {}"
    using bitmap_bit_bound by fastforce
  have "card ((+) (8 * length bm) ` {j. j < 8 \<and> bit b j}) = count_ones b"
    by (simp add: card_image count_ones_card)
  then show ?case
    using snoc by (simp add: bitmap_bit_snoc card_Un_disjoint disj) (simp add: popcount_def)
qed

text \<open>The check on the last byte confines the set bits to the symbols the block has.\<close>

lemma last_byte_confines:
  assumes len: "length bm = div_ceil_usize c 8"
    and last: "c mod 8 \<noteq> 0 \<longrightarrow> drop_bit (c mod 8) (last bm) = 0"
    and i: "bitmap_bit bm i"
  shows "i < c"
proof (cases "c mod 8 = 0")
  case True
  then have "8 * length bm = c" using len by (auto simp: div_ceil_usize_def)
  with bitmap_bit_bound [OF i] show ?thesis by simp
next
  case False
  then have bm: "length bm = c div 8 + 1" using len by (simp add: div_ceil_usize_def)
  then have "bm \<noteq> []" by auto
  with bm have lst: "last bm = bm ! (c div 8)" by (simp add: last_conv_nth)
  show ?thesis
  proof (cases "i div 8 = c div 8")
    case True
    with i have "bit (last bm) (i mod 8)" by (simp add: bitmap_bit_def lst)
    moreover have "\<not> bit (last bm) (c mod 8 + j)" for j
      using last False bit_drop_bit_eq [of "c mod 8" "last bm"] by (metis bit_0_eq comp_apply bot_apply bot_bool_def)
    ultimately have "i mod 8 < c mod 8" by (metis le_Suc_ex not_less)
    with True show ?thesis by (metis div_mult_mod_eq nat_add_left_cancel_less)
  next
    case ne: False
    with i bm have "i div 8 < c div 8" by (simp add: bitmap_bit_def)
    then show ?thesis by (metis div_le_mono not_less)
  qed
qed

section \<open>Block entries\<close>

definition block_entry_wf :: "BlockEntry \<Rightarrow> bool" where
  "block_entry_wf e \<longleftrightarrow>
     length (be_symbol_bitmap e) = div_ceil_usize (unat (be_symbol_count e)) 8 \<and>
     popcount (be_symbol_bitmap e) = unat (be_symbols_held e) \<and>
     (unat (be_symbol_count e) mod 8 \<noteq> 0 \<longrightarrow>
        drop_bit (unat (be_symbol_count e) mod 8) (last (be_symbol_bitmap e)) = 0)"

lemma confined_popcount:
  "length bm = div_ceil_usize c 8 \<Longrightarrow> (c mod 8 \<noteq> 0 \<longrightarrow> drop_bit (c mod 8) (last bm) = 0) \<Longrightarrow>
   popcount bm \<le> c"
  using last_byte_confines [of bm c] card_mono [of "{..<c}" "{i. bitmap_bit bm i}"]
  by (auto simp: popcount_card)

lemma empty_bitmap: "length bm = div_ceil_usize c 8 \<Longrightarrow> bm = [] \<longleftrightarrow> c = 0"
  by (auto simp: div_ceil_usize_def split: if_splits)

interpretation bentry: prefix_codec block_entry_to_vec block_entry_from_bytes block_entry_wf
proof unfold_locales
  fix e rest
  assume wf: "block_entry_wf e"
  let ?bm = "be_symbol_bitmap e" and ?c = "unat (be_symbol_count e)"
  have len: "length ?bm = div_ceil_usize ?c 8"
    and lastb: "?c mod 8 \<noteq> 0 \<longrightarrow> drop_bit (?c mod 8) (last ?bm) = 0"
    and held: "popcount ?bm = unat (be_symbols_held e)"
    using wf by (auto simp: block_entry_wf_def)
  have heldw: "of_nat (popcount ?bm) = be_symbols_held e" using held by simp
  have le: "be_symbols_held e \<le> be_symbol_count e"
    using confined_popcount [OF len lastb] held by (simp add: word_le_nat_alt)
  have vl: "length (block_entry_to_vec e @ rest) = 12 + (div_ceil_usize ?c 8 + length rest)"
    by (simp add: block_entry_to_vec_def len)
  have bm: "slice 12 (12 + div_ceil_usize ?c 8) (block_entry_to_vec e @ rest) = ?bm"
    using len by (simp add: block_entry_to_vec_def wire_simps)
  show "block_entry_from_bytes (block_entry_to_vec e @ rest) = Inr (e, length (block_entry_to_vec e))"
    unfolding block_entry_from_bytes_def vl BLOCK_ENTRY_HEADER_SIZE_def Let_def
    using le heldw lastb len bm
    by (simp add: block_entry_to_vec_def wire_simps unat_mod not_less) blast
next
  fix bs e k
  assume ok: "block_entry_from_bytes bs = Inr (e, k)"
  define c where "c = (u32_from_le_bytes (slice 4 8 bs))"
  let ?k = "12 + div_ceil_usize (unat c) 8"
  from ok have l12: "12 \<le> length bs" and len: "?k \<le> length bs" and k: "k = ?k"
    by (auto simp: block_entry_from_bytes_def BLOCK_ENTRY_HEADER_SIZE_def Let_def c_def
        split: if_splits)
  from ok have e: "be_symbol_count e = c" "be_symbol_bitmap e = slice 12 ?k bs"
    "of_nat (popcount (be_symbol_bitmap e)) = be_symbols_held e"
    "be_symbol_bitmap e \<noteq> [] \<and> unat (c mod 8) \<noteq> 0 \<longrightarrow>
       drop_bit (unat (c mod 8)) (last (be_symbol_bitmap e)) = 0"
    by (auto simp: block_entry_from_bytes_def BLOCK_ENTRY_HEADER_SIZE_def Let_def c_def
        split: if_splits)
  from ok l12 have f: "u32_to_le_bytes (be_block_index e) = slice 0 4 bs"
    "u32_to_le_bytes (be_symbol_count e) = slice 4 8 bs"
    "u32_to_le_bytes (be_symbols_held e) = slice 8 12 bs"
    by (auto simp: block_entry_from_bytes_def BLOCK_ENTRY_HEADER_SIZE_def Let_def
        intro!: field_intros split: if_splits)
  have bl: "length (be_symbol_bitmap e) = div_ceil_usize (unat c) 8"
    using e(2) len by simp
  have lastb: "unat c mod 8 \<noteq> 0 \<longrightarrow> drop_bit (unat c mod 8) (last (be_symbol_bitmap e)) = 0"
    using e(4) empty_bitmap [OF bl] by (auto simp: unat_mod)
  have "popcount (be_symbol_bitmap e) \<le> unat c" by (rule confined_popcount [OF bl lastb])
  moreover have "unat c < 2 ^ 32" using unsigned_less [where w = c] by simp
  ultimately have "unat (of_nat (popcount (be_symbol_bitmap e)) :: u32) = popcount (be_symbol_bitmap e)"
    by (intro unat_of_nat_lt) simp
  then have held: "popcount (be_symbol_bitmap e) = unat (be_symbols_held e)" using e(3) by simp
  have wf: "block_entry_wf e" using bl lastb held e(1) by (simp add: block_entry_wf_def)
  have "block_entry_to_vec e = slice 0 ?k bs"
    by (simp add: block_entry_to_vec_def f e(2) slice_join slice_join_append)
  then show "block_entry_wf e \<and> k \<le> length bs \<and> take k bs = block_entry_to_vec e"
    using wf len k by (simp add: slice_0_take)
qed

section \<open>The header codec\<close>

definition resume_header_crc_input :: "ResumeHeader \<Rightarrow> bytes" where
  "resume_header_crc_input r = rh_magic r @ [rh_version r] @ rh_reserved1 r @ rh_session_id r @
     u32_to_le_bytes (rh_block_count r) @ u64_to_le_bytes (rh_journal_bytes r) @
     rh_journal_digest r @ rh_reserved2 r"

definition resume_header_wf :: "(bytes \<Rightarrow> bytes) \<Rightarrow> ResumeHeader \<Rightarrow> bool" where
  "resume_header_wf h r \<longleftrightarrow> rh_magic r = RESUME_MAGIC \<and> rh_version r = RESUME_VERSION \<and>
     rh_reserved1 r = replicate 3 0 \<and> rh_reserved2 r = replicate 24 0 \<and>
     length (rh_session_id r) = 16 \<and> length (rh_journal_digest r) = 32 \<and>
     length (rh_integrity_digest r) = 32 \<and>
     rh_crc32c r = crc32c_digest (resume_header_crc_input r) \<and>
     rh_integrity_digest r =
       blake3_digest h (resume_header_crc_input r @ u32_to_le_bytes (rh_crc32c r))"

lemma RESUME_MAGIC_length [simp]: "length RESUME_MAGIC = 4"
  by (simp add: RESUME_MAGIC_def)

lemma resume_header_to_vec_parts:
  "resume_header_to_vec r =
     (resume_header_crc_input r @ u32_to_le_bytes (rh_crc32c r)) @ rh_integrity_digest r"
  by (simp add: resume_header_to_vec_def resume_header_crc_input_def)

lemma length_crc_input: "resume_header_wf h r \<Longrightarrow> length (resume_header_crc_input r) = 92"
  by (simp add: resume_header_crc_input_def resume_header_wf_def)

lemma resume_header_sound:
  assumes ok: "resume_header_from_bytes h bs = Inr r"
  shows "128 \<le> length bs \<and> resume_header_wf h r \<and> resume_header_to_vec r = slice 0 128 bs"
proof -
  from ok have len: "128 \<le> length bs"
    by (auto simp: resume_header_from_bytes_def RESUME_HEADER_SIZE_def split: if_splits)
  from ok len have fields: "rh_magic r = slice 0 4 bs" "[rh_version r] = slice 4 5 bs"
    "rh_reserved1 r = slice 5 8 bs" "rh_session_id r = slice 8 24 bs"
    "u32_to_le_bytes (rh_block_count r) = slice 24 28 bs"
    "u64_to_le_bytes (rh_journal_bytes r) = slice 28 36 bs"
    "rh_journal_digest r = slice 36 68 bs" "rh_reserved2 r = slice 68 92 bs"
    "u32_to_le_bytes (rh_crc32c r) = slice 92 96 bs" "rh_integrity_digest r = slice 96 128 bs"
    by (auto simp: resume_header_from_bytes_def Let_def intro!: field_intros split: if_splits)
  have crc_in: "resume_header_crc_input r = slice 0 92 bs"
    by (simp add: resume_header_crc_input_def fields slice_join slice_join_append
        del: append_Cons append.simps)
  from ok len have checks: "rh_magic r = RESUME_MAGIC" "rh_version r = RESUME_VERSION"
    "rh_reserved1 r = replicate 3 0" "rh_reserved2 r = replicate 24 0"
    "rh_crc32c r = crc32c_digest (slice 0 92 bs)"
    "rh_integrity_digest r = blake3_digest h (slice 0 96 bs)"
    by (auto simp: resume_header_from_bytes_def Let_def CRC_COVER_BYTES_def
        INTEGRITY_COVER_BYTES_def split: if_splits)
  have join: "slice 0 92 bs @ slice 92 96 bs = slice 0 96 bs"
    by (simp add: slice_join)
  have lens: "length (rh_session_id r) = 16" "length (rh_journal_digest r) = 32"
    "length (rh_integrity_digest r) = 32"
    using len by (simp_all add: fields(4,7,10))
  have wf: "resume_header_wf h r"
    unfolding resume_header_wf_def crc_in fields(9) join using checks lens by blast
  have "resume_header_to_vec r = slice 0 128 bs"
    by (simp add: resume_header_to_vec_parts crc_in fields(9,10) slice_join join del: append_assoc)
  with len wf show ?thesis by blast
qed

interpretation rhdr: fixed_codec RESUME_HEADER_SIZE resume_header_to_vec
  "resume_header_from_bytes h" "resume_header_wf h" for h
proof unfold_locales
  fix r rest
  assume wf: "resume_header_wf h r"
  note l92 = length_crc_input [OF wf]
  show len: "length (resume_header_to_vec r) = RESUME_HEADER_SIZE"
  proof -
    have "length (rh_integrity_digest r) = 32" using wf unfolding resume_header_wf_def by blast
    then show ?thesis using l92 by (simp add: resume_header_to_vec_parts RESUME_HEADER_SIZE_def)
  qed
  let ?bs = "resume_header_to_vec r @ rest"
  have crc: "crc32c_digest (slice 0 CRC_COVER_BYTES ?bs) = rh_crc32c r"
    using wf l92
    by (simp add: resume_header_to_vec_parts CRC_COVER_BYTES_def wire_simps resume_header_wf_def)
  have dig: "blake3_digest h (slice 0 INTEGRITY_COVER_BYTES ?bs) = rh_integrity_digest r"
    using wf l92
    by (simp add: resume_header_to_vec_parts INTEGRITY_COVER_BYTES_def wire_simps
        resume_header_wf_def slice_def)
  have "rh_magic r = RESUME_MAGIC" "rh_version r = RESUME_VERSION" "rh_reserved1 r = replicate 3 0"
    "rh_reserved2 r = replicate 24 0" "length (rh_session_id r) = 16"
    "length (rh_journal_digest r) = 32" "length (rh_integrity_digest r) = 32"
    using wf unfolding resume_header_wf_def by blast+
  then show "resume_header_from_bytes h ?bs = Inr r"
    unfolding resume_header_from_bytes_def crc dig
    by (simp add: resume_header_to_vec_def RESUME_HEADER_SIZE_def wire_simps nth_append Let_def)
next
  fix bs r
  assume "resume_header_from_bytes h bs = Inr r"
  from resume_header_sound [OF this]
  show "resume_header_wf h r \<and> RESUME_HEADER_SIZE \<le> length bs \<and>
      take RESUME_HEADER_SIZE bs = resume_header_to_vec r"
    by (simp add: slice_0_take RESUME_HEADER_SIZE_def)
qed

section \<open>The file\<close>

definition entries_indexed :: "nat \<Rightarrow> BlockEntry list \<Rightarrow> bool" where
  "entries_indexed i es \<longleftrightarrow> map (\<lambda>e. unat (be_block_index e)) es = [i..<i + length es]"

lemma entries_indexed_Nil [simp]: "entries_indexed i []"
  by (simp add: entries_indexed_def)

lemma entries_indexed_Cons [simp]:
  "entries_indexed i (e # es) \<longleftrightarrow> unat (be_block_index e) = i \<and> entries_indexed (Suc i) es"
proof -
  have "[i..<i + length (e # es)] = i # [Suc i..<Suc i + length es]"
    by (simp add: upt_conv_Cons del: upt_Suc)
  then show ?thesis by (simp add: entries_indexed_def)
qed

definition resume_file_wf :: "(bytes \<Rightarrow> bytes) \<Rightarrow> ResumeFile \<Rightarrow> bool" where
  "resume_file_wf h f \<longleftrightarrow> resume_header_wf h (rf_header f) \<and>
     length (rf_entries f) = unat (rh_block_count (rf_header f)) \<and>
     list_all block_entry_wf (rf_entries f) \<and> entries_indexed 0 (rf_entries f)"

lemma resume_entries_loop_iff:
  "resume_entries_loop n i bs off acc = Inr (es, off') \<longleftrightarrow>
     (\<exists>new rest. es = acc @ new \<and> length new = n \<and> list_all block_entry_wf new \<and>
        entries_indexed i new \<and> drop off bs = concat (map block_entry_to_vec new) @ rest \<and>
        off' = off + length (concat (map block_entry_to_vec new)))"
proof (induction n arbitrary: i off acc)
  case 0
  show ?case by auto
next
  case (Suc n)
  let ?R = "\<lambda>e new rest. es = acc @ e # new \<and> length new = n \<and> block_entry_wf e \<and>
     list_all block_entry_wf new \<and> unat (be_block_index e) = i \<and> entries_indexed (Suc i) new \<and>
     drop off bs = block_entry_to_vec e @ concat (map block_entry_to_vec new) @ rest \<and>
     off' = off + length (block_entry_to_vec e) + length (concat (map block_entry_to_vec new))"
  have dd: "drop (off + length v) bs = r" if "drop off bs = v @ r" for v r
  proof -
    have "drop (off + length v) bs = drop (length v) (drop off bs)"
      by (simp add: add.commute)
    then show ?thesis using that by simp
  qed
  have "resume_entries_loop (Suc n) i bs off acc = Inr (es, off') \<longleftrightarrow>
      (\<exists>e k. block_entry_from_bytes (drop off bs) = Inr (e, k) \<and> unat (be_block_index e) = i \<and>
         resume_entries_loop n (Suc i) bs (off + k) (acc @ [e]) = Inr (es, off'))"
    by auto
  also have "\<dots> \<longleftrightarrow> (\<exists>e new rest. ?R e new rest)"
    unfolding bentry.parse_iff Suc by (auto dest: dd) (metis append_assoc dd)+
  also have "\<dots> \<longleftrightarrow> (\<exists>new rest. es = acc @ new \<and> length new = Suc n \<and>
      list_all block_entry_wf new \<and> entries_indexed i new \<and>
      drop off bs = concat (map block_entry_to_vec new) @ rest \<and>
      off' = off + length (concat (map block_entry_to_vec new)))" (is "_ \<longleftrightarrow> ?X")
  proof
    assume "\<exists>e new rest. ?R e new rest"
    then obtain e new rest where "?R e new rest" by blast
    then show ?X by (intro exI [of _ "e # new"] exI [of _ rest]) auto
  next
    assume ?X
    then obtain new rest where x: "es = acc @ new \<and> length new = Suc n \<and>
      list_all block_entry_wf new \<and> entries_indexed i new \<and>
      drop off bs = concat (map block_entry_to_vec new) @ rest \<and>
      off' = off + length (concat (map block_entry_to_vec new))" by blast
    then obtain e new' where "new = e # new'" by (cases new) auto
    with x show "\<exists>e new rest. ?R e new rest"
      by (intro exI [of _ e] exI [of _ new'] exI [of _ rest]) auto
  qed
  finally show ?case .
qed

lemma resume_parse_iff:
  "resume_file_from_bytes h bs = Inr f \<longleftrightarrow> resume_file_wf h f \<and> bs = resume_file_to_vec f"
proof
  assume wf: "resume_file_wf h f \<and> bs = resume_file_to_vec f"
  then have hw: "resume_header_wf h (rf_header f)" by (simp add: resume_file_wf_def)
  have hl: "length (resume_header_to_vec (rf_header f)) = RESUME_HEADER_SIZE"
    using rhdr.length_to_vec [OF hw] .
  have "resume_entries_loop (unat (rh_block_count (rf_header f))) 0 bs RESUME_HEADER_SIZE [] =
      Inr (rf_entries f, length bs)"
    unfolding resume_entries_loop_iff using wf hl
    by (auto simp: resume_file_wf_def resume_file_to_vec_def)
  then show "resume_file_from_bytes h bs = Inr f"
    using rhdr.accepts [OF hw] wf
    by (simp add: resume_file_from_bytes_def resume_file_to_vec_def)
next
  assume "resume_file_from_bytes h bs = Inr f"
  then obtain r es where r: "resume_header_from_bytes h bs = Inr r"
    and es: "resume_entries_loop (unat (rh_block_count r)) 0 bs RESUME_HEADER_SIZE [] =
      Inr (es, length bs)"
    and f: "f = \<lparr>rf_header = r, rf_entries = es\<rparr>"
    by (auto simp: resume_file_from_bytes_def split: if_splits)
  note hs = rhdr.sound [OF r]
  from es obtain rest where e: "length es = unat (rh_block_count r)" "list_all block_entry_wf es"
    "entries_indexed 0 es"
    "drop RESUME_HEADER_SIZE bs = concat (map block_entry_to_vec es) @ rest"
    "length bs = RESUME_HEADER_SIZE + length (concat (map block_entry_to_vec es))"
    unfolding resume_entries_loop_iff by auto
  have "length (drop RESUME_HEADER_SIZE bs) = length (concat (map block_entry_to_vec es))"
    using e(5) by simp
  with e(4) have "rest = []" by simp
  with e(4) hs have "bs = resume_file_to_vec f"
    by (metis append_Nil2 append_take_drop_id f resume_file_to_vec_def ResumeFile.select_convs)
  with e(1-3) hs f show "resume_file_wf h f \<and> bs = resume_file_to_vec f"
    by (simp add: resume_file_wf_def)
qed

lemma resume_header_new_wf:
  assumes "hash_32 h" and "length session_id = 16" and "length digest = 32"
  shows "resume_header_wf h (resume_header_new h session_id jb digest entries)"
  using assms
  by (simp add: resume_header_wf_def resume_header_new_def resume_header_crc_input_def Let_def
      length_blake3_digest)

lemma resume_file_new_wf:
  assumes "hash_32 h" and "length session_id = 16" and "length digest = 32"
    and "list_all block_entry_wf entries" and "entries_indexed 0 entries"
    and "length entries < 2 ^ 32"
  shows "resume_file_wf h (resume_file_new h session_id jb digest entries)"
  using assms resume_header_new_wf [OF assms(1-3)]
  by (simp add: resume_file_wf_def resume_file_new_def resume_file_build_def)
    (simp add: resume_header_new_def Let_def unat_of_nat)

section \<open>Properties\<close>

text \<open>C29: a byte string is a resume file if and only if it is the serialization of a well-formed
  one: header with valid CRC and digest, exactly as many entries as declared, in block order, each
  with a bitmap of its declared size whose set bits are counted by \<open>symbols_held\<close> and stay below
  the symbol count, and nothing after them.\<close>

theorem resume_file_accepts_iff:
  "resume_file_from_bytes h bs = Inr f \<longleftrightarrow> resume_file_wf h f \<and> bs = resume_file_to_vec f"
  by (rule resume_parse_iff)

text \<open>An entry the parser accepts describes a set of held symbols exactly: \<open>symbols_held\<close> is the
  number of set bits, every set bit is a symbol of the block, and the bytes it consumed are its
  serialization.\<close>

theorem block_entry_exact:
  assumes "block_entry_from_bytes bs = Inr (e, k)"
  shows "unat (be_symbols_held e) = card {i. bitmap_bit (be_symbol_bitmap e) i} \<and>
     {i. bitmap_bit (be_symbol_bitmap e) i} \<subseteq> {..<unat (be_symbol_count e)} \<and>
     take k bs = block_entry_to_vec e"
  using bentry.sound [OF assms] last_byte_confines [of "be_symbol_bitmap e"]
  by (auto simp: block_entry_wf_def simp flip: popcount_card)

text \<open>The file written for any progress of a session is read back, with the journal prefix it
  covers and the entries unchanged.\<close>

theorem resume_file_roundtrip:
  fixes journal_bytes :: u64
  assumes "hash_32 h" and "length session_id = 16" and "length digest = 32"
    and "list_all block_entry_wf entries" and "entries_indexed 0 entries"
    and "length entries < 2 ^ 32"
  defines "f \<equiv> resume_file_new h session_id journal_bytes digest entries"
  shows "resume_file_from_bytes h (resume_file_to_vec f) = Inr f \<and> rf_entries f = entries \<and>
    rh_journal_bytes (rf_header f) = journal_bytes \<and> rh_journal_digest (rf_header f) = digest"
  using resume_file_new_wf [OF assms(1-6)] unfolding f_def resume_parse_iff
  by (simp add: resume_file_new_def resume_file_build_def resume_header_new_def Let_def)

text \<open>C38: the CRC and the integrity digest cover the header only. Any other well-formed entries of
  the same number in place of the recorded ones give a file that is accepted with the same header.\<close>

theorem resume_entries_not_covered:
  assumes "resume_file_from_bytes h bs = Inr f" and "list_all block_entry_wf entries'"
    and "entries_indexed 0 entries'" and "length entries' = length (rf_entries f)"
  shows "resume_file_from_bytes h (resume_header_to_vec (rf_header f) @
      concat (map block_entry_to_vec entries')) = Inr (f\<lparr>rf_entries := entries'\<rparr>)"
  using assms unfolding resume_parse_iff
  by (simp add: resume_file_wf_def resume_file_to_vec_def)

theorem resume_entries_not_covered_witness:
  "\<exists>f bs. resume_file_from_bytes (\<lambda>m. replicate 32 0) bs = Inr f \<and>
     map be_symbol_bitmap (rf_entries f) = [[5]] \<and>
     resume_file_from_bytes (\<lambda>m. replicate 32 0) (resume_header_to_vec (rf_header f) @
       concat (map block_entry_to_vec [\<lparr>be_block_index = 0, be_symbol_count = 8,
         be_symbols_held = 2, be_symbol_bitmap = [3]\<rparr>])) =
     Inr (f\<lparr>rf_entries := [\<lparr>be_block_index = 0, be_symbol_count = 8,
         be_symbols_held = 2, be_symbol_bitmap = [3]\<rparr>]\<rparr>)"
proof -
  let ?h = "\<lambda>m :: bytes. replicate 32 0 :: bytes"
  let ?e = "\<lambda>b. \<lparr>be_block_index = 0, be_symbol_count = 8, be_symbols_held = 2,
    be_symbol_bitmap = [b]\<rparr>"
  have c: "count_ones 5 = 2" "count_ones 3 = 2" by code_simp+
  let ?f = "resume_file_new ?h (replicate 16 1) 512 (replicate 32 7) [?e 5]"
  have "resume_file_wf ?h ?f"
    by (rule resume_file_new_wf)
      (simp_all add: c hash_32_def block_entry_wf_def div_ceil_usize_def popcount_def)
  then have ok: "resume_file_from_bytes ?h (resume_file_to_vec ?f) = Inr ?f"
    by (simp add: resume_parse_iff)
  have es: "rf_entries ?f = [?e 5]" by (simp add: resume_file_new_def resume_file_build_def)
  have "resume_file_from_bytes ?h (resume_header_to_vec (rf_header ?f) @
      concat (map block_entry_to_vec [?e 3])) = Inr (?f\<lparr>rf_entries := [?e 3]\<rparr>)"
    by (rule resume_entries_not_covered [OF ok])
      (simp_all add: c es block_entry_wf_def div_ceil_usize_def popcount_def)
  with ok es show ?thesis by (intro exI [of _ ?f] exI [of _ "resume_file_to_vec ?f"]) simp
qed

end
