(* ===== verification/Manifest_Codec.thy ===== *)
theory Manifest_Codec
  imports Session_Header
begin

text \<open>
  The manifest wire format of \<open>core/dhow-codec/src/manifest.rs\<close>: file-name validation, file
  entries, the 228-byte header, the manifest and the byte string its signature covers.

  A \<open>String\<close> is the list of its UTF-8 bytes; \<open>utf8_valid\<close> is the well-formedness that
  \<open>String::from_utf8\<close> checks (no overlong forms, no surrogates, nothing above U+10FFFF).
  The separators the validation looks for are ASCII, so looking for their bytes is looking for the
  characters.
\<close>

section \<open>Standard-library strings\<close>

definition utf8_cont :: "u8 \<Rightarrow> bool" where
  "utf8_cont b \<longleftrightarrow> 0x80 \<le> b \<and> b \<le> 0xBF"

fun utf8_valid :: "bytes \<Rightarrow> bool" where
  "utf8_valid [] = True"
| "utf8_valid (a # bs) =
     (if a \<le> 0x7F then utf8_valid bs
      else if 0xC2 \<le> a \<and> a \<le> 0xDF then
        (case bs of b # bs' \<Rightarrow> utf8_cont b \<and> utf8_valid bs' | _ \<Rightarrow> False)
      else if 0xE0 \<le> a \<and> a \<le> 0xEF then
        (case bs of b # c # bs' \<Rightarrow> utf8_cont b \<and> utf8_cont c \<and> (a = 0xE0 \<longrightarrow> 0xA0 \<le> b) \<and>
            (a = 0xED \<longrightarrow> b \<le> 0x9F) \<and> utf8_valid bs'
         | _ \<Rightarrow> False)
      else if 0xF0 \<le> a \<and> a \<le> 0xF4 then
        (case bs of b # c # d # bs' \<Rightarrow> utf8_cont b \<and> utf8_cont c \<and> utf8_cont d \<and>
            (a = 0xF0 \<longrightarrow> 0x90 \<le> b) \<and> (a = 0xF4 \<longrightarrow> b \<le> 0x8F) \<and> utf8_valid bs'
         | _ \<Rightarrow> False)
      else False)"

text \<open>The width of the character a lead byte starts.\<close>

definition utf8_width :: "u8 \<Rightarrow> nat" where
  "utf8_width a = (if a \<le> 0x7F then 1 else if a \<le> 0xDF then 2 else if a \<le> 0xEF then 3 else 4)"

text \<open>\<open>name.chars().nth(1) == Some(c)\<close> for an ASCII \<open>c\<close>.\<close>

definition second_char_is :: "u8 \<Rightarrow> bytes \<Rightarrow> bool" where
  "second_char_is c name \<longleftrightarrow> name \<noteq> [] \<and> utf8_width (hd name) < length name \<and>
     name ! utf8_width (hd name) = c"

fun split_on :: "u8 \<Rightarrow> bytes \<Rightarrow> bytes list" where
  "split_on sep [] = [[]]"
| "split_on sep (b # bs) =
     (if b = sep then [] # split_on sep bs
      else (case split_on sep bs of p # ps \<Rightarrow> (b # p) # ps | [] \<Rightarrow> [[b]]))"

section \<open>The code\<close>

datatype ManifestError =
    ManifestInvalidMagic bytes
  | ManifestUnsupportedVersion u8
  | SignatureVerificationFailed
  | ManifestCrcMismatch
  | ManifestTruncated nat nat
  | PathTraversal bytes
  | FileNameTooLong nat
  | FileSizeTooLarge u64 u64
  | InvalidFileCount u32
  | ManifestSessionMismatch
  | Malformed detail

definition MANIFEST_MAGIC :: bytes where "MANIFEST_MAGIC = [0x44, 0x48, 0x4D, 0x46]"
definition MANIFEST_VERSION :: u8 where "MANIFEST_VERSION = 2"
definition MANIFEST_HEADER_SIZE :: nat where "MANIFEST_HEADER_SIZE = 228"
definition CRC_OFFSET :: nat where "CRC_OFFSET = 160"
definition SIGNATURE_LEN :: nat where "SIGNATURE_LEN = 64"
definition MAX_NAME_LEN :: nat where "MAX_NAME_LEN = 4096"
definition MAX_FILE_COUNT :: u32 where "MAX_FILE_COUNT = 1000000"
definition SIGNATURE_OFFSET :: nat where "SIGNATURE_OFFSET = 164"

definition validate_name :: "bytes \<Rightarrow> ManifestError + unit" where
  "validate_name name =
     (if name = [] then Inl (PathTraversal name)
      else if length name > MAX_NAME_LEN then Inl (FileNameTooLong (length name))
      else if 0 \<in> set name \<or> 0x5C \<in> set name then Inl (PathTraversal name)
      else if hd name = 0x2F \<or> second_char_is 0x3A name then Inl (PathTraversal name)
      else if [0x2E, 0x2E] \<in> set (split_on 0x2F name) then Inl (PathTraversal name)
      else Inr ())"

definition ENTRY_FLAG_EXECUTABLE :: u8 where "ENTRY_FLAG_EXECUTABLE = 1"
definition ENTRY_FLAG_KNOWN :: u8 where "ENTRY_FLAG_KNOWN = ENTRY_FLAG_EXECUTABLE"
definition ENTRY_FIXED_LEN :: nat where "ENTRY_FIXED_LEN = 2 + 8 + 32 + 1"

record FileEntry =
  fe_name :: bytes
  fe_size :: u64
  fe_digest :: bytes
  fe_executable :: bool

definition file_entry_with_mode :: "bytes \<Rightarrow> u64 \<Rightarrow> bytes \<Rightarrow> bool \<Rightarrow> FileEntry" where
  "file_entry_with_mode name sz digest executable =
     \<lparr>fe_name = name, fe_size = sz, fe_digest = digest, fe_executable = executable\<rparr>"

definition file_entry_new :: "bytes \<Rightarrow> u64 \<Rightarrow> bytes \<Rightarrow> FileEntry" where
  "file_entry_new name sz digest =
     \<lparr>fe_name = name, fe_size = sz, fe_digest = digest, fe_executable = False\<rparr>"

definition file_entry_flags :: "FileEntry \<Rightarrow> u8" where
  "file_entry_flags e = (if fe_executable e then ENTRY_FLAG_EXECUTABLE else 0)"

definition file_entry_to_vec :: "FileEntry \<Rightarrow> bytes" where
  "file_entry_to_vec e =
     u16_to_le_bytes (of_nat (length (fe_name e))) @ fe_name e @ u64_to_le_bytes (fe_size e) @
     fe_digest e @ [file_entry_flags e]"

definition file_entry_from_bytes :: "bytes \<Rightarrow> ManifestError + FileEntry \<times> nat" where
  "file_entry_from_bytes bytes =
     (if length bytes < 2 then Inl (ManifestTruncated 2 (length bytes))
      else
        (let name_len = unat (u16_from_le_bytes [bytes ! 0, bytes ! 1]) in
         if name_len > MAX_NAME_LEN then Inl (FileNameTooLong name_len)
         else
           (let total_entry_len = ENTRY_FIXED_LEN + name_len in
            if length bytes < total_entry_len
              then Inl (ManifestTruncated total_entry_len (length bytes))
            else
              (let name = slice 2 (2 + name_len) bytes in
               if \<not> utf8_valid name
                 then Inl (Malformed (Detail ''file name contains invalid UTF-8'' []))
               else
                 res_bind (validate_name name) (\<lambda>_.
                   let sz = u64_from_le_bytes (slice (2 + name_len) (10 + name_len) bytes);
                       digest = slice (10 + name_len) (42 + name_len) bytes;
                       flags = bytes ! (42 + name_len)
                   in if flags AND NOT ENTRY_FLAG_KNOWN \<noteq> 0
                        then Inl (Malformed
                          (Detail ''file entry {name} sets undefined flag bits {flags:#04x}''
                            (map unat name @ [unat flags])))
                      else Inr (\<lparr>fe_name = name, fe_size = sz, fe_digest = digest,
                                 fe_executable = (flags AND ENTRY_FLAG_EXECUTABLE \<noteq> 0)\<rparr>,
                                total_entry_len))))))"

record ManifestHeader =
  mh_magic :: bytes
  mh_version :: u8
  mh_session_id :: bytes
  mh_file_count :: u32
  mh_total_size :: u64
  mh_salt :: bytes
  mh_nonce :: bytes
  mh_params :: SessionParams
  mh_crc32c :: u32
  mh_signature :: bytes

definition crc_covered_bytes ::
  "bytes \<Rightarrow> u32 \<Rightarrow> u64 \<Rightarrow> bytes \<Rightarrow> bytes \<Rightarrow> SessionParams \<Rightarrow> bytes" where
  "crc_covered_bytes session_id file_count total_size salt nonce params =
     MANIFEST_MAGIC @ [MANIFEST_VERSION] @ replicate 3 0 @ session_id @
     u32_to_le_bytes file_count @ u64_to_le_bytes total_size @
     sp_payload_digest params @ salt @ nonce @
     u64_to_le_bytes (sp_payload_size params) @
     u32_to_le_bytes (sp_block_count params) @
     u32_to_le_bytes (sp_symbol_size params) @
     u32_to_le_bytes (sp_source_symbols_per_block params) @
     u32_to_le_bytes (sp_total_symbols_per_block params) @
     u32_to_le_bytes (rq_z (sp_raptorq params)) @
     u32_to_le_bytes (rq_n (sp_raptorq params)) @
     u16_to_le_bytes (rq_psi (sp_raptorq params)) @ replicate 2 0"

definition manifest_header_new ::
  "bytes \<Rightarrow> FileEntry list \<Rightarrow> u64 \<Rightarrow> bytes \<Rightarrow> bytes \<Rightarrow> SessionParams \<Rightarrow> ManifestHeader" where
  "manifest_header_new session_id entries total_size salt nonce params =
     (let file_count = of_nat (length entries);
          crc = crc32c_digest
            (crc_covered_bytes session_id file_count total_size salt nonce params)
      in \<lparr>mh_magic = MANIFEST_MAGIC, mh_version = MANIFEST_VERSION, mh_session_id = session_id,
          mh_file_count = file_count, mh_total_size = total_size, mh_salt = salt,
          mh_nonce = nonce, mh_params = params, mh_crc32c = crc, mh_signature = replicate 64 0\<rparr>)"

definition set_signature :: "ManifestHeader \<Rightarrow> bytes \<Rightarrow> ManifestHeader" where
  "set_signature m sig = m\<lparr>mh_signature := sig\<rparr>"

definition manifest_header_to_vec :: "ManifestHeader \<Rightarrow> bytes" where
  "manifest_header_to_vec m =
     crc_covered_bytes (mh_session_id m) (mh_file_count m) (mh_total_size m) (mh_salt m)
       (mh_nonce m) (mh_params m) @
     u32_to_le_bytes (mh_crc32c m) @ mh_signature m"

definition manifest_header_from_bytes :: "bytes \<Rightarrow> ManifestError + ManifestHeader" where
  "manifest_header_from_bytes bytes =
     (if length bytes < 5 then Inl (ManifestTruncated MANIFEST_HEADER_SIZE (length bytes))
      else if slice 0 4 bytes \<noteq> MANIFEST_MAGIC then Inl (ManifestInvalidMagic (slice 0 4 bytes))
      else if bytes ! 4 \<noteq> MANIFEST_VERSION then Inl (ManifestUnsupportedVersion (bytes ! 4))
      else if length bytes < MANIFEST_HEADER_SIZE
        then Inl (ManifestTruncated MANIFEST_HEADER_SIZE (length bytes))
      else if slice 5 8 bytes \<noteq> replicate 3 0
        then Inl (Malformed (Detail ''reserved bytes at offset 5 must be zero'' []))
      else if slice 158 160 bytes \<noteq> replicate 2 0
        then Inl (Malformed (Detail ''reserved bytes at offset 158 must be zero'' []))
      else
        (let params =
               \<lparr>sp_payload_size = u64_from_le_bytes (slice 124 132 bytes),
                sp_block_count = u32_from_le_bytes (slice 132 136 bytes),
                sp_symbol_size = u32_from_le_bytes (slice 136 140 bytes),
                sp_source_symbols_per_block = u32_from_le_bytes (slice 140 144 bytes),
                sp_total_symbols_per_block = u32_from_le_bytes (slice 144 148 bytes),
                sp_raptorq = \<lparr>rq_z = u32_from_le_bytes (slice 148 152 bytes),
                              rq_n = u32_from_le_bytes (slice 152 156 bytes),
                              rq_psi = u16_from_le_bytes (slice 156 158 bytes)\<rparr>,
                sp_payload_digest = slice 36 68 bytes\<rparr>;
             crc = u32_from_le_bytes (slice CRC_OFFSET (CRC_OFFSET + 4) bytes);
             expected_crc = crc32c_digest (slice 0 CRC_OFFSET bytes)
         in if crc \<noteq> expected_crc then Inl ManifestCrcMismatch
            else Inr
              \<lparr>mh_magic = slice 0 4 bytes, mh_version = bytes ! 4,
               mh_session_id = slice 8 24 bytes,
               mh_file_count = u32_from_le_bytes (slice 24 28 bytes),
               mh_total_size = u64_from_le_bytes (slice 28 36 bytes),
               mh_salt = slice 68 100 bytes, mh_nonce = slice 100 124 bytes,
               mh_params = params, mh_crc32c = crc,
               mh_signature = slice SIGNATURE_OFFSET MANIFEST_HEADER_SIZE bytes\<rparr>))"

record Manifest =
  mf_header :: ManifestHeader
  mf_entries :: "FileEntry list"

definition manifest_build :: "ManifestHeader \<Rightarrow> FileEntry list \<Rightarrow> bytes \<Rightarrow> Manifest" where
  "manifest_build header entries signature =
     \<lparr>mf_header = set_signature header signature, mf_entries = entries\<rparr>"

definition manifest_to_vec :: "Manifest \<Rightarrow> bytes" where
  "manifest_to_vec m = manifest_header_to_vec (mf_header m) @
     concat (map file_entry_to_vec (mf_entries m))"

fun manifest_entries_loop ::
  "nat \<Rightarrow> bytes \<Rightarrow> nat \<Rightarrow> FileEntry list \<Rightarrow> ManifestError + FileEntry list \<times> nat" where
  "manifest_entries_loop 0 bytes offset entries = Inr (entries, offset)"
| "manifest_entries_loop (Suc n) bytes offset entries =
     (if offset \<ge> length bytes then Inl (ManifestTruncated (length bytes + 1) (length bytes))
      else res_bind (file_entry_from_bytes (drop offset bytes)) (\<lambda>(entry, consumed).
        manifest_entries_loop n bytes (offset + consumed) (entries @ [entry])))"

definition manifest_from_bytes :: "bytes \<Rightarrow> ManifestError + Manifest" where
  "manifest_from_bytes bytes =
     res_bind (manifest_header_from_bytes bytes) (\<lambda>header.
       if mh_file_count header > MAX_FILE_COUNT
         then Inl (InvalidFileCount (mh_file_count header))
       else
         res_bind (manifest_entries_loop (unat (mh_file_count header)) bytes MANIFEST_HEADER_SIZE [])
           (\<lambda>(entries, offset).
             if offset \<noteq> length bytes
               then Inl (Malformed (Detail ''{} trailing bytes after the last file entry''
                          [length bytes - offset]))
             else Inr \<lparr>mf_header = header, mf_entries = entries\<rparr>))"

text \<open>\<open>bytes[SIGNATURE_OFFSET..MANIFEST_HEADER_SIZE].fill(0)\<close> on a buffer that long.\<close>

definition zero_signature :: "bytes \<Rightarrow> bytes" where
  "zero_signature bytes = take SIGNATURE_OFFSET bytes @
     replicate (MANIFEST_HEADER_SIZE - SIGNATURE_OFFSET) 0 @ drop MANIFEST_HEADER_SIZE bytes"

definition signing_bytes :: "Manifest \<Rightarrow> bytes" where
  "signing_bytes m = zero_signature (manifest_to_vec m)"

definition signing_bytes_of :: "bytes \<Rightarrow> ManifestError + bytes" where
  "signing_bytes_of bytes =
     (if length bytes < MANIFEST_HEADER_SIZE
        then Inl (ManifestTruncated MANIFEST_HEADER_SIZE (length bytes))
      else Inr (zero_signature bytes))"

section \<open>File entries\<close>

definition name_ok :: "bytes \<Rightarrow> bool" where
  "name_ok name \<longleftrightarrow> utf8_valid name \<and> validate_name name = Inr ()"

lemma name_ok_length: "name_ok name \<Longrightarrow> name \<noteq> [] \<and> length name \<le> 4096"
  by (auto simp: name_ok_def validate_name_def MAX_NAME_LEN_def split: if_splits)

definition file_entry_wf :: "FileEntry \<Rightarrow> bool" where
  "file_entry_wf e \<longleftrightarrow> name_ok (fe_name e) \<and> length (fe_digest e) = 32"

lemma flags_known: "f AND NOT ENTRY_FLAG_KNOWN = 0 \<longleftrightarrow> f = 0 \<or> f = 1"
proof
  assume "f AND NOT ENTRY_FLAG_KNOWN = 0"
  then have "bit (f AND NOT 1) n = bit (0 :: u8) n" for n
    by (simp add: ENTRY_FLAG_KNOWN_def ENTRY_FLAG_EXECUTABLE_def)
  then have b: "\<not> bit f n" if "0 < n" "n < 8" for n
    using that by (auto simp: bit_simps)
  show "f = 0 \<or> f = 1"
  proof (cases "bit f 0")
    case True
    then have "f = 1" using b by (intro bit_word_eqI) (auto simp: bit_simps)
    then show ?thesis ..
  next
    case False
    have "bit f n = bit 0 n" if "n < 8" for n
      using b [of n] that False by (cases n) auto
    then have "f = 0" by (intro bit_word_eqI) simp
    then show ?thesis ..
  qed
qed (auto simp: ENTRY_FLAG_KNOWN_def ENTRY_FLAG_EXECUTABLE_def)

lemma file_entry_flags_simps [simp]:
  "file_entry_flags e AND NOT ENTRY_FLAG_KNOWN = 0"
  "(file_entry_flags e AND ENTRY_FLAG_EXECUTABLE \<noteq> 0) = fe_executable e"
  by (simp_all add: flags_known file_entry_flags_def ENTRY_FLAG_EXECUTABLE_def)

interpretation fentry: prefix_codec file_entry_to_vec file_entry_from_bytes file_entry_wf
proof unfold_locales
  fix e rest
  assume wf: "file_entry_wf e"
  let ?n = "length (fe_name e)" and ?bs = "file_entry_to_vec e @ rest"
  have ok: "utf8_valid (fe_name e)" "validate_name (fe_name e) = Inr ()" "?n \<le> 4096"
    "length (fe_digest e) = 32"
    using wf name_ok_length by (auto simp: file_entry_wf_def name_ok_def)
  have len: "length ?bs = 43 + ?n + length rest" using ok(4) by (simp add: file_entry_to_vec_def)
  have pair: "[?bs ! 0, ?bs ! 1] = slice 0 2 ?bs"
    using pair_slice [of 0 ?bs] len by (simp add: numeral_2_eq_2)
  have nl: "unat (u16_from_le_bytes (slice 0 2 ?bs)) = ?n"
    using ok(3) by (simp add: file_entry_to_vec_def wire_simps unat_of_nat)
  have parts: "slice 2 (2 + ?n) ?bs = fe_name e"
    "slice (2 + ?n) (10 + ?n) ?bs = u64_to_le_bytes (fe_size e)"
    "slice (10 + ?n) (42 + ?n) ?bs = fe_digest e" "?bs ! (42 + ?n) = file_entry_flags e"
    using ok(4) by (simp_all add: file_entry_to_vec_def wire_simps nth_append)
  have l: "length (file_entry_to_vec e) = 43 + ?n" using ok(4) by (simp add: file_entry_to_vec_def)
  show "file_entry_from_bytes ?bs = Inr (e, length (file_entry_to_vec e))"
    unfolding file_entry_from_bytes_def pair nl Let_def parts l
    using ok len by (simp add: MAX_NAME_LEN_def ENTRY_FIXED_LEN_def)
next
  fix bs e k
  assume ok: "file_entry_from_bytes bs = Inr (e, k)"
  define n where "n = unat (u16_from_le_bytes [bs ! 0, bs ! 1])"
  from ok have len: "43 + n \<le> length bs" and k: "k = 43 + n" and n: "n \<le> 4096"
    by (auto simp: file_entry_from_bytes_def Let_def ENTRY_FIXED_LEN_def MAX_NAME_LEN_def n_def
        split: if_splits)
  from ok have f: "fe_name e = slice 2 (2 + n) bs" "utf8_valid (fe_name e)"
    "validate_name (fe_name e) = Inr ()" "fe_digest e = slice (10 + n) (42 + n) bs"
    "fe_executable e = (bs ! (42 + n) AND ENTRY_FLAG_EXECUTABLE \<noteq> 0)"
    "bs ! (42 + n) AND NOT ENTRY_FLAG_KNOWN = 0"
    "fe_size e = u64_from_le_bytes (slice (2 + n) (10 + n) bs)"
    by (auto simp: file_entry_from_bytes_def Let_def n_def split: if_splits)
  have sz: "u64_to_le_bytes (fe_size e) = slice (2 + n) (10 + n) bs"
    using len by (intro field_intros) (simp_all add: f(7))
  have nl: "length (fe_name e) = n" using f(1) len by simp
  have "[bs ! 0, bs ! 1] = slice 0 2 bs"
    using pair_slice [of 0 bs] len by (simp add: numeral_2_eq_2)
  then have "of_nat n = u16_from_le_bytes (slice 0 2 bs)" by (simp add: n_def)
  then have lenf: "u16_to_le_bytes (of_nat n) = slice 0 2 bs"
    using len by (intro word_field) simp_all
  have "file_entry_flags e = bs ! (42 + n)"
    using f(5,6) by (auto simp: flags_known file_entry_flags_def ENTRY_FLAG_EXECUTABLE_def)
  then have flags: "[file_entry_flags e] = slice (42 + n) (43 + n) bs"
    using len by (intro single_field) simp_all
  have "file_entry_to_vec e = slice 0 (43 + n) bs"
    unfolding file_entry_to_vec_def nl lenf unfolding sz flags f(1,4)
    by (simp add: slice_join slice_join_append)
  then show "file_entry_wf e \<and> k \<le> length bs \<and> take k bs = file_entry_to_vec e"
    using len k f(2-4) by (simp add: file_entry_wf_def name_ok_def slice_0_take)
qed

section \<open>The header codec\<close>

definition manifest_header_wf :: "ManifestHeader \<Rightarrow> bool" where
  "manifest_header_wf m \<longleftrightarrow> mh_magic m = MANIFEST_MAGIC \<and> mh_version m = MANIFEST_VERSION \<and>
     length (mh_session_id m) = 16 \<and> length (mh_salt m) = 32 \<and> length (mh_nonce m) = 24 \<and>
     length (mh_signature m) = 64 \<and> session_params_wf (mh_params m) \<and>
     mh_crc32c m = crc32c_digest (crc_covered_bytes (mh_session_id m) (mh_file_count m)
       (mh_total_size m) (mh_salt m) (mh_nonce m) (mh_params m))"

lemma MANIFEST_MAGIC_length [simp]: "length MANIFEST_MAGIC = 4"
  by (simp add: MANIFEST_MAGIC_def)

lemma length_crc_covered:
  "length sid = 16 \<Longrightarrow> length salt = 32 \<Longrightarrow> length nonce = 24 \<Longrightarrow> session_params_wf p \<Longrightarrow>
   length (crc_covered_bytes sid n t salt nonce p) = 160"
  by (simp add: crc_covered_bytes_def session_params_wf_def)

lemmas manifest_sizes = MANIFEST_HEADER_SIZE_def CRC_OFFSET_def SIGNATURE_OFFSET_def

lemma manifest_header_sound:
  assumes ok: "manifest_header_from_bytes bs = Inr m"
  shows "228 \<le> length bs \<and> manifest_header_wf m \<and> manifest_header_to_vec m = slice 0 228 bs"
proof -
  from ok have len: "228 \<le> length bs"
    by (auto simp: manifest_header_from_bytes_def manifest_sizes split: if_splits)
  from ok len have fields: "MANIFEST_MAGIC = slice 0 4 bs" "[MANIFEST_VERSION] = slice 4 5 bs"
    "replicate 3 0 = slice 5 8 bs" "mh_session_id m = slice 8 24 bs"
    "u32_to_le_bytes (mh_file_count m) = slice 24 28 bs"
    "u64_to_le_bytes (mh_total_size m) = slice 28 36 bs"
    "sp_payload_digest (mh_params m) = slice 36 68 bs"
    "mh_salt m = slice 68 100 bs" "mh_nonce m = slice 100 124 bs"
    "u64_to_le_bytes (sp_payload_size (mh_params m)) = slice 124 132 bs"
    "u32_to_le_bytes (sp_block_count (mh_params m)) = slice 132 136 bs"
    "u32_to_le_bytes (sp_symbol_size (mh_params m)) = slice 136 140 bs"
    "u32_to_le_bytes (sp_source_symbols_per_block (mh_params m)) = slice 140 144 bs"
    "u32_to_le_bytes (sp_total_symbols_per_block (mh_params m)) = slice 144 148 bs"
    "u32_to_le_bytes (rq_z (sp_raptorq (mh_params m))) = slice 148 152 bs"
    "u32_to_le_bytes (rq_n (sp_raptorq (mh_params m))) = slice 152 156 bs"
    "u16_to_le_bytes (rq_psi (sp_raptorq (mh_params m))) = slice 156 158 bs"
    "replicate 2 0 = slice 158 160 bs" "u32_to_le_bytes (mh_crc32c m) = slice 160 164 bs"
    "mh_signature m = slice 164 228 bs"
    by (auto simp: manifest_header_from_bytes_def Let_def manifest_sizes
        intro!: field_intros split: if_splits)
  have cov: "crc_covered_bytes (mh_session_id m) (mh_file_count m) (mh_total_size m) (mh_salt m)
      (mh_nonce m) (mh_params m) = slice 0 160 bs"
    unfolding crc_covered_bytes_def fields by (simp add: slice_join slice_join_append)
  from ok len have checks: "mh_magic m = MANIFEST_MAGIC" "mh_version m = MANIFEST_VERSION"
    "mh_crc32c m = crc32c_digest (slice 0 160 bs)"
    by (auto simp: manifest_header_from_bytes_def Let_def manifest_sizes split: if_splits)
  have wf: "manifest_header_wf m"
    unfolding manifest_header_wf_def cov using checks len
    by (simp add: fields(4,7,8,9,20) session_params_wf_def)
  have "manifest_header_to_vec m = slice 0 228 bs"
    unfolding manifest_header_to_vec_def cov fields(19,20) by (simp add: slice_join slice_join_append)
  with len wf show ?thesis by blast
qed

interpretation mhdr: fixed_codec MANIFEST_HEADER_SIZE manifest_header_to_vec
  manifest_header_from_bytes manifest_header_wf
proof unfold_locales
  fix m rest
  assume wf: "manifest_header_wf m"
  have l: "length (mh_session_id m) = 16" "length (mh_salt m) = 32" "length (mh_nonce m) = 24"
    "length (mh_signature m) = 64" "session_params_wf (mh_params m)"
    "mh_magic m = MANIFEST_MAGIC" "mh_version m = MANIFEST_VERSION"
    using wf unfolding manifest_header_wf_def by blast+
  have l32: "length (sp_payload_digest (mh_params m)) = 32"
    using l(5) by (simp add: session_params_wf_def)
  note cl = length_crc_covered [OF l(1-3,5)]
  show "length (manifest_header_to_vec m) = MANIFEST_HEADER_SIZE"
    by (simp add: manifest_header_to_vec_def cl l manifest_sizes)
  let ?bs = "manifest_header_to_vec m @ rest"
  have crc: "crc32c_digest (slice 0 CRC_OFFSET ?bs) = mh_crc32c m"
    using wf cl by (simp add: manifest_header_to_vec_def manifest_sizes wire_simps manifest_header_wf_def)
  show "manifest_header_from_bytes ?bs = Inr m"
    unfolding manifest_header_from_bytes_def crc Let_def
    by (simp add: manifest_header_to_vec_def crc_covered_bytes_def l l32 manifest_sizes wire_simps
        nth_append)
next
  fix bs m
  assume "manifest_header_from_bytes bs = Inr m"
  from manifest_header_sound [OF this]
  show "manifest_header_wf m \<and> MANIFEST_HEADER_SIZE \<le> length bs \<and>
      take MANIFEST_HEADER_SIZE bs = manifest_header_to_vec m"
    by (simp add: slice_0_take manifest_sizes)
qed

section \<open>The manifest\<close>

definition manifest_wf :: "Manifest \<Rightarrow> bool" where
  "manifest_wf m \<longleftrightarrow> manifest_header_wf (mf_header m) \<and>
     mh_file_count (mf_header m) \<le> MAX_FILE_COUNT \<and>
     length (mf_entries m) = unat (mh_file_count (mf_header m)) \<and>
     list_all file_entry_wf (mf_entries m)"

lemma file_entry_nonempty: "file_entry_to_vec e \<noteq> []"
  by (simp add: file_entry_to_vec_def)

lemma drop_after: "drop off bs = v @ r \<Longrightarrow> drop (off + length v) bs = r"
  by (metis add.commute append_eq_conv_conj drop_drop)

lemma manifest_entries_loop_sound:
  "manifest_entries_loop n bs off acc = Inr (es, off') \<Longrightarrow>
   \<exists>new rest. es = acc @ new \<and> length new = n \<and> list_all file_entry_wf new \<and>
     drop off bs = concat (map file_entry_to_vec new) @ rest \<and>
     off' = off + length (concat (map file_entry_to_vec new))"
proof (induction n arbitrary: off acc)
  case 0
  then show ?case by auto
next
  case (Suc n)
  then obtain e k where e: "file_entry_from_bytes (drop off bs) = Inr (e, k)"
    and loop: "manifest_entries_loop n bs (off + k) (acc @ [e]) = Inr (es, off')"
    by (auto split: if_splits)
  from e obtain rest where wf: "file_entry_wf e" and k: "k = length (file_entry_to_vec e)"
    and d: "drop off bs = file_entry_to_vec e @ rest"
    using fentry.parse_iff by blast
  from Suc.IH [OF loop] obtain new r where new: "es = acc @ e # new" "length new = n"
    "list_all file_entry_wf new" "drop (off + k) bs = concat (map file_entry_to_vec new) @ r"
    "off' = off + k + length (concat (map file_entry_to_vec new))"
    by auto
  have "rest = concat (map file_entry_to_vec new) @ r"
    using drop_after [OF d] new(4) k by simp
  with new wf d k show ?case
    by (intro exI [of _ "e # new"] exI [of _ r]) simp
qed

lemma manifest_entries_loop_complete:
  "list_all file_entry_wf new \<Longrightarrow> drop off bs = concat (map file_entry_to_vec new) @ rest \<Longrightarrow>
   manifest_entries_loop (length new) bs off acc =
     Inr (acc @ new, off + length (concat (map file_entry_to_vec new)))"
proof (induction new arbitrary: off acc)
  case Nil
  then show ?case by simp
next
  case (Cons e new)
  have d: "drop off bs = file_entry_to_vec e @ (concat (map file_entry_to_vec new) @ rest)"
    using Cons.prems by simp
  then have "drop off bs \<noteq> []" using file_entry_nonempty [of e] by simp
  then have "off < length bs" by simp
  moreover have "file_entry_from_bytes (drop off bs) = Inr (e, length (file_entry_to_vec e))"
    unfolding d using Cons.prems by (intro fentry.accepts) simp
  ultimately show ?case
    using Cons.IH [OF _ drop_after [OF d], of "acc @ [e]"] Cons.prems by (simp add: add.assoc)
qed

lemma manifest_parse_iff:
  "manifest_from_bytes bs = Inr m \<longleftrightarrow> manifest_wf m \<and> bs = manifest_to_vec m"
proof
  assume wf: "manifest_wf m \<and> bs = manifest_to_vec m"
  then have hw: "manifest_header_wf (mf_header m)" by (simp add: manifest_wf_def)
  have "drop MANIFEST_HEADER_SIZE bs = concat (map file_entry_to_vec (mf_entries m)) @ []"
    using wf mhdr.length_to_vec [OF hw] by (simp add: manifest_to_vec_def)
  from manifest_entries_loop_complete [OF _ this, of "[]"] wf mhdr.length_to_vec [OF hw]
  have "manifest_entries_loop (unat (mh_file_count (mf_header m))) bs MANIFEST_HEADER_SIZE [] =
      Inr (mf_entries m, length bs)"
    by (simp add: manifest_wf_def manifest_to_vec_def)
  then show "manifest_from_bytes bs = Inr m"
    using mhdr.accepts [OF hw] wf
    by (simp add: manifest_from_bytes_def manifest_to_vec_def manifest_wf_def not_less)
next
  assume "manifest_from_bytes bs = Inr m"
  then obtain h es where h: "manifest_header_from_bytes bs = Inr h"
    and small: "mh_file_count h \<le> MAX_FILE_COUNT"
    and es: "manifest_entries_loop (unat (mh_file_count h)) bs MANIFEST_HEADER_SIZE [] =
      Inr (es, length bs)"
    and m: "m = \<lparr>mf_header = h, mf_entries = es\<rparr>"
    by (auto simp: manifest_from_bytes_def split: if_splits)
  note hs = mhdr.sound [OF h]
  from manifest_entries_loop_sound [OF es] obtain rest where
    e: "length es = unat (mh_file_count h)" "list_all file_entry_wf es"
    "drop MANIFEST_HEADER_SIZE bs = concat (map file_entry_to_vec es) @ rest"
    "length bs = MANIFEST_HEADER_SIZE + length (concat (map file_entry_to_vec es))"
    by auto
  have "length (drop MANIFEST_HEADER_SIZE bs) = length (concat (map file_entry_to_vec es))"
    using e(4) by simp
  with e(3) have "rest = []" by simp
  with e(3) hs have "bs = manifest_to_vec m"
    by (metis append_Nil2 append_take_drop_id m manifest_to_vec_def Manifest.select_convs)
  with e(1,2) hs small m show "manifest_wf m \<and> bs = manifest_to_vec m"
    by (simp add: manifest_wf_def)
qed

section \<open>The signed bytes\<close>

lemma zero_signature_to_vec:
  assumes "manifest_header_wf (mf_header m)"
  shows "zero_signature (manifest_to_vec m) =
    manifest_to_vec (m\<lparr>mf_header := set_signature (mf_header m) (replicate 64 0)\<rparr>)"
proof -
  let ?h = "mf_header m"
  have l: "length (mh_session_id ?h) = 16" "length (mh_salt ?h) = 32" "length (mh_nonce ?h) = 24"
    "length (mh_signature ?h) = 64" "session_params_wf (mh_params ?h)"
    using assms unfolding manifest_header_wf_def by blast+
  show ?thesis
    by (simp add: zero_signature_def manifest_to_vec_def manifest_header_to_vec_def set_signature_def
        manifest_sizes length_crc_covered [OF l(1-3,5)] l(4))
qed

lemma manifest_wf_set_signature:
  "manifest_wf m \<Longrightarrow> length sig = 64 \<Longrightarrow>
   manifest_wf (m\<lparr>mf_header := set_signature (mf_header m) sig\<rparr>)"
  by (simp add: manifest_wf_def manifest_header_wf_def set_signature_def)

lemma set_signature_twice: "set_signature (set_signature m a) b = set_signature m b"
  by (simp add: set_signature_def)

lemma set_signature_id: "set_signature m (mh_signature m) = m"
  by (simp add: set_signature_def)

lemma signing_bytes_inj:
  assumes "manifest_wf m" and "manifest_wf m'" and "signing_bytes m = signing_bytes m'"
  shows "mf_entries m = mf_entries m' \<and>
    mf_header m = set_signature (mf_header m') (mh_signature (mf_header m))"
proof -
  let ?z = "\<lambda>m. m\<lparr>mf_header := set_signature (mf_header m) (replicate 64 0)\<rparr>"
  note wf = assms(1,2)
  then have hw: "manifest_header_wf (mf_header m)" "manifest_header_wf (mf_header m')"
    by (auto simp: manifest_wf_def)
  have vec: "manifest_to_vec (?z m) = manifest_to_vec (?z m')"
    using assms(3) zero_signature_to_vec [OF hw(1)] zero_signature_to_vec [OF hw(2)]
    by (simp add: signing_bytes_def)
  have "manifest_from_bytes (manifest_to_vec (?z x)) = Inr (?z x)" if "manifest_wf x" for x
    using that by (simp add: manifest_parse_iff manifest_wf_set_signature)
  from this [OF wf(1)] this [OF wf(2)] have eq: "?z m = ?z m'"
    unfolding vec by (metis sum.inject(2))
  have h: "set_signature (mf_header m) (replicate 64 0) =
      set_signature (mf_header m') (replicate 64 0)"
    using arg_cong [OF eq, of mf_header] by simp
  have "mf_entries m = mf_entries m'" using arg_cong [OF eq, of mf_entries] by simp
  moreover have "mf_header m = set_signature (mf_header m') (mh_signature (mf_header m))"
    using h by (metis set_signature_id set_signature_twice)
  ultimately show ?thesis by simp
qed

section \<open>Extraction paths\<close>

text \<open>Lexical resolution of a \<open>/\<close>-separated relative path on a stack of directory components.\<close>

definition path_step :: "bytes list \<Rightarrow> bytes \<Rightarrow> bytes list" where
  "path_step stack c =
     (if c = [] \<or> c = [0x2E] then stack
      else if c = [0x2E, 0x2E] then butlast stack
      else stack @ [c])"

definition resolve :: "bytes list \<Rightarrow> bytes \<Rightarrow> bytes list" where
  "resolve root name = foldl path_step root (split_on 0x2F name)"

lemma path_steps_below:
  "[0x2E, 0x2E] \<notin> set cs \<Longrightarrow> foldl path_step root cs = root @ filter (\<lambda>c. c \<noteq> [] \<and> c \<noteq> [0x2E]) cs"
  by (induction cs arbitrary: root) (auto simp: path_step_def)

section \<open>An instance\<close>

text \<open>A manifest of one executable file \<open>a/b\<close>, on which the properties are evaluated.\<close>

definition one_file_manifest :: Manifest where
  "one_file_manifest =
     (let p = \<lparr>sp_payload_size = 64, sp_block_count = 1, sp_symbol_size = 64,
                sp_source_symbols_per_block = 1, sp_total_symbols_per_block = 2,
                sp_raptorq = \<lparr>rq_z = 1, rq_n = 1, rq_psi = 1\<rparr>, sp_payload_digest = replicate 32 9\<rparr>;
          es = [file_entry_with_mode [0x61, 0x2F, 0x62] 5 (replicate 32 4) True]
      in manifest_build (manifest_header_new (replicate 16 1) es 5 (replicate 32 2) (replicate 24 3) p)
           es (replicate 64 8))"

lemma one_file_manifest_ok:
  "manifest_from_bytes (manifest_to_vec one_file_manifest) = Inr one_file_manifest"
proof -
  have "name_ok [0x61, 0x2F, 0x62]" by code_simp
  then have "manifest_wf one_file_manifest"
    by (simp add: one_file_manifest_def manifest_wf_def manifest_build_def manifest_header_new_def
        manifest_header_wf_def set_signature_def session_params_wf_def file_entry_wf_def
        file_entry_with_mode_def MAX_FILE_COUNT_def Let_def)
  then show ?thesis by (simp add: manifest_parse_iff)
qed

lemma one_file_manifest_entries:
  "mf_entries one_file_manifest = [file_entry_with_mode [0x61, 0x2F, 0x62] 5 (replicate 32 4) True]"
  by (simp add: one_file_manifest_def manifest_build_def Let_def)

section \<open>Properties\<close>

text \<open>C16: a byte string is a manifest if and only if it is the serialization of a well-formed one:
  no tail, no undefined flag bits, reserved bytes zero, CRC valid, at most a million entries, every
  name valid UTF-8 and accepted by \<open>validate_name\<close>. Parsing and printing are inverse.\<close>

theorem manifest_accepts_iff:
  "manifest_from_bytes bs = Inr m \<longleftrightarrow> manifest_wf m \<and> bs = manifest_to_vec m"
  by (rule manifest_parse_iff)

text \<open>C23: no file name of an accepted manifest can leave the extraction directory: resolved
  component by component below any root, every name only descends.\<close>

theorem manifest_names_stay_below_root:
  assumes "manifest_from_bytes bs = Inr m" and "e \<in> set (mf_entries m)"
  shows "\<exists>below. resolve root (fe_name e) = root @ below \<and> [0x2E, 0x2E] \<notin> set below \<and>
     hd (fe_name e) \<noteq> 0x2F \<and> 0 \<notin> set (fe_name e) \<and> 0x5C \<notin> set (fe_name e)"
proof -
  have "file_entry_wf e"
    using assms by (auto simp: manifest_parse_iff manifest_wf_def list_all_iff)
  then have v: "validate_name (fe_name e) = Inr ()" by (simp add: file_entry_wf_def name_ok_def)
  then have "[0x2E, 0x2E] \<notin> set (split_on 0x2F (fe_name e))"
    by (auto simp: validate_name_def split: if_splits)
  with v show ?thesis
    by (auto simp: resolve_def path_steps_below validate_name_def split: if_splits)
qed

theorem manifest_names_stay_below_root_witness:
  "\<exists>below. resolve [[0x72]] [0x61, 0x2F, 0x62] = [[0x72]] @ below \<and> [0x2E, 0x2E] \<notin> set below"
  using manifest_names_stay_below_root [OF one_file_manifest_ok,
      of "file_entry_with_mode [0x61, 0x2F, 0x62] 5 (replicate 32 4) True" "[[0x72]]"]
  by (auto simp: one_file_manifest_entries) (auto simp: file_entry_with_mode_def)

text \<open>The verifier's \<open>signing_bytes_of\<close> on the received bytes and the signer's
  \<open>signing_bytes\<close> on the parsed manifest agree, and are the manifest with a zero signature.\<close>

theorem signing_bytes_agree:
  assumes "manifest_from_bytes bs = Inr m"
  shows "signing_bytes_of bs = Inr (signing_bytes m) \<and>
    signing_bytes m =
      manifest_to_vec (m\<lparr>mf_header := set_signature (mf_header m) (replicate 64 0)\<rparr>)"
proof -
  from assms have wf: "manifest_header_wf (mf_header m)" and bs: "bs = manifest_to_vec m"
    by (auto simp: manifest_parse_iff manifest_wf_def)
  have "MANIFEST_HEADER_SIZE \<le> length bs"
    using bs mhdr.length_to_vec [OF wf] by (simp add: manifest_to_vec_def)
  with bs zero_signature_to_vec [OF wf] show ?thesis
    by (simp add: signing_bytes_of_def signing_bytes_def)
qed

text \<open>The signed bytes determine the manifest: two accepted manifests with the same signing
  bytes have the same entries and the same header but for the signature field.\<close>

theorem signing_bytes_injective:
  assumes "manifest_from_bytes bs = Inr m" and "manifest_from_bytes bs' = Inr m'"
    and "signing_bytes m = signing_bytes m'"
  shows "mf_entries m = mf_entries m' \<and>
    mf_header m = set_signature (mf_header m') (mh_signature (mf_header m))"
  using assms by (intro signing_bytes_inj) (auto simp: manifest_parse_iff)

end
