(* ===== verification/Pipeline.thy ===== *)
theory Pipeline
  imports "HOL-Library.Multiset" Chunker Frame Session_State Resume Manifest_Codec
begin

text \<open>
  The frame pipeline of \<open>core/dhow-codec/src/pipeline.rs\<close>: the sender that turns a payload into
  interleaved frames and the receiver that takes frames in any order.

  RaptorQ is an external crate. Its operations are the fields of the parameter record \<open>raptorq\<close>
  (configuration, encoder, packets, decoder), and what the transfer relies on is the predicate
  \<open>raptorq_recovers\<close>. Two further fields say where it panics: \<open>rq_deserialize_panics\<close> on which byte strings
  \<open>EncodingPacket::deserialize\<close> does, and \<open>rq_take_panics\<close> when \<open>add_new_packet\<close>, or the
  \<open>get_result\<close> after it, does and what it leaves of the block decoder. \<open>decoder_accept\<close> is the operation as
  long as neither happens, and \<open>decoder_accept_run\<close> the operation with both. BLAKE3 is the pair of parameters \<open>h\<close> (hash) and \<open>kh\<close> (keyed hash).

  An operation on \<open>&mut self\<close> returns its result and the new state. Vectors are indexed inside
  their bounds in every state the decoder can reach (\<open>decoder_wf\<close>).
\<close>

section \<open>Errors and external code\<close>

datatype FecError =
    FecPayloadTooLarge
  | InvalidSourceBlock detail
  | InsufficientPackets
  | MtuTooSmall u16 u16

datatype CodecError =
    CodecChunk ChunkError
  | CodecFrame FrameError
  | CodecFramePayloadTooLarge nat nat
  | CodecSession SessionError
  | CodecManifest ManifestError
  | CodecResume ResumeError
  | CodecRaptorQ detail
  | CodecFec FecError
  | CodecInternal detail

record ('cfg, 'enc, 'pkt, 'dec) raptorq =
  rq_with_defaults :: "u64 \<Rightarrow> u16 \<Rightarrow> 'cfg"
  rq_encoder_new :: "bytes \<Rightarrow> 'cfg \<Rightarrow> 'enc"
  rq_get_encoded_packets :: "'enc \<Rightarrow> u32 \<Rightarrow> 'pkt list"
  rq_serialize :: "'pkt \<Rightarrow> bytes"
  rq_deserialize :: "bytes \<Rightarrow> 'pkt"
  rq_decoder_new :: "'cfg \<Rightarrow> 'dec"
  rq_add_new_packet :: "'dec \<Rightarrow> 'pkt \<Rightarrow> 'dec"
  rq_get_result :: "'dec \<Rightarrow> bytes option"
  rq_deserialize_panics :: "bytes \<Rightarrow> bool"
  rq_take_panics :: "'dec \<Rightarrow> 'pkt \<Rightarrow> 'dec option"

section \<open>The code: the sender\<close>

definition PAYLOAD_ID_LEN :: nat where "PAYLOAD_ID_LEN = 4"
definition MIN_FEC_SYMBOL_SIZE :: u32 where "MIN_FEC_SYMBOL_SIZE = 64"
definition MAX_FEC_SYMBOL_SIZE :: u32 where
  "MAX_FEC_SYMBOL_SIZE = ucast MAX_PAYLOAD_LEN - of_nat PAYLOAD_ID_LEN"

text \<open>One pass of the inner loop takes the next element of every cursor that has one.\<close>

fun interleave_pass :: "'a list list \<Rightarrow> 'a list \<times> 'a list list" where
  "interleave_pass [] = ([], [])"
| "interleave_pass (c # cs) =
     (let (out, cs') = interleave_pass cs in
      (case c of [] \<Rightarrow> (out, [] # cs') | x # xs \<Rightarrow> (x # out, xs # cs')))"

fun interleave_loop :: "nat \<Rightarrow> 'a list list \<Rightarrow> 'a list \<Rightarrow> 'a list" where
  "interleave_loop 0 cursors out = out"
| "interleave_loop (Suc n) cursors out =
     (let (new, cursors') = interleave_pass cursors in interleave_loop n cursors' (out @ new))"

definition interleave :: "'a list list \<Rightarrow> 'a list" where
  "interleave per_block =
     (let longest = foldr max (map length per_block) 0 in interleave_loop longest per_block [])"

definition validate_params :: "SessionParams \<Rightarrow> CodecError + unit" where
  "validate_params params =
     res_bind (map_err CodecSession (session_params_validate params)) (\<lambda>_.
       if \<not> (MIN_FEC_SYMBOL_SIZE \<le> sp_symbol_size params \<and>
              sp_symbol_size params \<le> MAX_FEC_SYMBOL_SIZE)
         then Inl (CodecSession (InvalidParameters
                (Detail ''symbol_size {} out of range {}..={}''
                  [unat (sp_symbol_size params), unat MIN_FEC_SYMBOL_SIZE,
                   unat MAX_FEC_SYMBOL_SIZE])))
       else Inr ())"

definition chunk_map_for :: "SessionParams \<Rightarrow> CodecError + ChunkMap" where
  "chunk_map_for params =
     res_bind (map_err CodecChunk (chunk_params_new (sp_payload_size params)
                 (sp_block_count params) (sp_symbol_size params))) (\<lambda>chunk_params.
       map_err CodecChunk (chunk_map_new chunk_params))"

definition config_for_block ::
  "('cfg, 'enc, 'pkt, 'dec) raptorq \<Rightarrow> u64 \<Rightarrow> u32 \<Rightarrow> 'cfg" where
  "config_for_block R bsize symbol_size = rq_with_defaults R bsize (ucast symbol_size)"

record Pipeline =
  pl_session_id :: bytes
  pl_params :: SessionParams
  pl_session_key :: bytes
  pl_chunk_map :: ChunkMap

definition pipeline_new :: "bytes \<Rightarrow> SessionParams \<Rightarrow> bytes \<Rightarrow> CodecError + Pipeline" where
  "pipeline_new session_id params session_key =
     res_bind (validate_params params) (\<lambda>_.
       res_bind (chunk_map_for params) (\<lambda>chunk_map.
         Inr \<lparr>pl_session_id = session_id, pl_params = params, pl_session_key = session_key,
              pl_chunk_map = chunk_map\<rparr>))"

text \<open>The loop over the packets of a block; \<open>i\<close> is the index \<open>enumerate\<close> gives. The guard is the
  assertion of \<open>FrameHeader::new\<close>, which therefore returns.\<close>

fun encode_packets ::
  "('cfg, 'enc, 'pkt, 'dec) raptorq \<Rightarrow> (bytes \<Rightarrow> bytes \<Rightarrow> bytes) \<Rightarrow> Pipeline \<Rightarrow> u32 \<Rightarrow> nat \<Rightarrow>
   'pkt list \<Rightarrow> CodecError + Frame list" where
  "encode_packets R kh p block_index i [] = Inr []"
| "encode_packets R kh p block_index i (packet # packets) =
     (let serialized = rq_serialize R packet in
      if length serialized > unat MAX_PAYLOAD_LEN
        then Inl (CodecFramePayloadTooLarge (length serialized) (unat MAX_PAYLOAD_LEN))
      else
        (let header = the (frame_header_new FtRepair (pl_session_id p) block_index (of_nat i)
                             serialized);
             frame = frame_build_owned kh header serialized (pl_session_key p)
         in res_bind (encode_packets R kh p block_index (Suc i) packets) (\<lambda>frames.
              Inr (frame # frames))))"

definition encode_block ::
  "('cfg, 'enc, 'pkt, 'dec) raptorq \<Rightarrow> (bytes \<Rightarrow> bytes \<Rightarrow> bytes) \<Rightarrow> Pipeline \<Rightarrow> bytes \<Rightarrow> u32 \<Rightarrow>
   BlockInfo \<Rightarrow> CodecError + Frame list" where
  "encode_block R kh p payload repair_count block =
     (if bi_size block = 0 then Inr []
      else res_bind (map_err CodecChunk (extract_block (pl_chunk_map p) payload (bi_index block)))
        (\<lambda>block_bytes.
          let encoder = rq_encoder_new R block_bytes
                (config_for_block R (bi_size block) (sp_symbol_size (pl_params p)))
          in encode_packets R kh p (bi_index block) 0
               (rq_get_encoded_packets R encoder repair_count)))"

fun encode_blocks ::
  "('cfg, 'enc, 'pkt, 'dec) raptorq \<Rightarrow> (bytes \<Rightarrow> bytes \<Rightarrow> bytes) \<Rightarrow> Pipeline \<Rightarrow> bytes \<Rightarrow> u32 \<Rightarrow>
   BlockInfo list \<Rightarrow> CodecError + Frame list list" where
  "encode_blocks R kh p payload repair_count [] = Inr []"
| "encode_blocks R kh p payload repair_count (block # blocks) =
     res_bind (encode_block R kh p payload repair_count block) (\<lambda>frames.
       res_bind (encode_blocks R kh p payload repair_count blocks) (\<lambda>per_block.
         Inr (frames # per_block)))"

definition pipeline_encode ::
  "('cfg, 'enc, 'pkt, 'dec) raptorq \<Rightarrow> (bytes \<Rightarrow> bytes \<Rightarrow> bytes) \<Rightarrow> Pipeline \<Rightarrow> bytes \<Rightarrow>
   CodecError + Frame list" where
  "pipeline_encode R kh p payload =
     (if length payload \<noteq> unat (sp_payload_size (pl_params p))
        then Inl (CodecSession (InvalidParameters
               (Detail ''payload is {} bytes but session declares {}''
                 [length payload, unat (sp_payload_size (pl_params p))])))
      else
        (let repair_count = saturating_sub (sp_total_symbols_per_block (pl_params p))
               (sp_source_symbols_per_block (pl_params p))
         in res_bind (encode_blocks R kh p payload repair_count (cm_blocks (pl_chunk_map p)))
              (\<lambda>per_block. Inr (interleave per_block))))"

definition encode_to_bytes ::
  "('cfg, 'enc, 'pkt, 'dec) raptorq \<Rightarrow> (bytes \<Rightarrow> bytes \<Rightarrow> bytes) \<Rightarrow> Pipeline \<Rightarrow> bytes \<Rightarrow>
   CodecError + bytes list" where
  "encode_to_bytes R kh p payload =
     res_bind (pipeline_encode R kh p payload) (\<lambda>frames. Inr (map frame_into_vec frames))"

section \<open>The code: the receiver\<close>

datatype FrameOutcome = Accepted | BlockComplete u32 | Redundant

datatype 'dec BlockState = Pending 'dec | Done bytes

record 'dec PipelineDecoder =
  pd_session_id :: bytes
  pd_params :: SessionParams
  pd_session_key :: bytes
  pd_chunk_map :: ChunkMap
  pd_blocks :: "'dec BlockState list"
  pd_held :: "bytes list"
  pd_held_counts :: "u32 list"
  pd_journal :: Blake3Hasher

definition decoder_new ::
  "('cfg, 'enc, 'pkt, 'dec) raptorq \<Rightarrow> bytes \<Rightarrow> SessionParams \<Rightarrow> bytes \<Rightarrow>
   CodecError + 'dec PipelineDecoder" where
  "decoder_new R session_id params session_key =
     res_bind (validate_params params) (\<lambda>_.
       res_bind (chunk_map_for params) (\<lambda>chunk_map.
         let blocks = map (\<lambda>block. if bi_size block = 0 then Done []
               else Pending (rq_decoder_new R
                      (config_for_block R (bi_size block) (sp_symbol_size params))))
               (cm_blocks chunk_map);
             bitmap_len = div_ceil_usize (unat (sp_total_symbols_per_block params)) 8;
             block_count = length (cm_blocks chunk_map)
         in Inr \<lparr>pd_session_id = session_id, pd_params = params, pd_session_key = session_key,
                 pd_chunk_map = chunk_map, pd_blocks = blocks,
                 pd_held = replicate block_count (replicate bitmap_len 0),
                 pd_held_counts = replicate block_count 0,
                 pd_journal = blake3_hasher_new\<rparr>))"

definition mark_held ::
  "'dec PipelineDecoder \<Rightarrow> u32 \<Rightarrow> u32 \<Rightarrow> bool \<times> 'dec PipelineDecoder" where
  "mark_held d block_index symbol_index =
     (if symbol_index \<ge> sp_total_symbols_per_block (pd_params d) then (False, d)
      else
        (let b = unat block_index;
             bitmap = pd_held d ! b;
             byte = unat symbol_index div 8;
             mask = push_bit (unat symbol_index mod 8) (1 :: u8)
         in if bitmap ! byte AND mask \<noteq> 0 then (False, d)
            else (True, d\<lparr>pd_held := (pd_held d)[b := bitmap[byte := bitmap ! byte OR mask]],
                          pd_held_counts := (pd_held_counts d)[b := pd_held_counts d ! b + 1]\<rparr>)))"

definition decoder_accept ::
  "('cfg, 'enc, 'pkt, 'dec) raptorq \<Rightarrow> (bytes \<Rightarrow> bytes \<Rightarrow> bytes) \<Rightarrow> 'dec PipelineDecoder \<Rightarrow> bytes \<Rightarrow>
   (CodecError + FrameOutcome) \<times> 'dec PipelineDecoder" where
  "decoder_accept R kh d bytes =
     (case frame_from_bytes kh bytes (pd_session_key d) of
        Inl e \<Rightarrow> (Inl (CodecFrame e), d)
      | Inr frame \<Rightarrow>
          (let header = fr_header frame in
           if fh_session_id header \<noteq> pd_session_id d
             then (Inl (CodecFrame (FrameSessionMismatch (pd_session_id d) (fh_session_id header))), d)
           else if fh_frame_type header \<noteq> FtRepair
             then (Inl (CodecFrame (UnknownFrameType (frame_type_u8 (fh_frame_type header)))), d)
           else
             (let block_index = fh_block_index header in
              if unat block_index \<ge> length (pd_blocks d)
                then (Inl (CodecFrame (FrameSessionMismatch (pd_session_id d)
                       (fh_session_id header))), d)
              else
                (let payload = fr_payload frame in
                 if length payload \<le> PAYLOAD_ID_LEN
                   then (Inl (CodecFec (InvalidSourceBlock
                          (Detail ''symbol payload is {} bytes, need more than {}''
                            [length payload, PAYLOAD_ID_LEN]))), d)
                 else
                   (let d1 = snd (mark_held d block_index (fh_symbol_index header));
                        d2 = d1\<lparr>pd_journal := blake3_hasher_update (pd_journal d1) bytes\<rparr>
                    in (case pd_blocks d2 ! unat block_index of
                          Done data \<Rightarrow> (Inr Redundant, d2)
                        | Pending decoder \<Rightarrow>
                            (let decoder' = rq_add_new_packet R decoder (rq_deserialize R payload) in
                             (case rq_get_result R decoder' of
                                Some data \<Rightarrow>
                                  (Inr (BlockComplete block_index),
                                   d2\<lparr>pd_blocks := (pd_blocks d2)[unat block_index := Done data]\<rparr>)
                              | None \<Rightarrow>
                                  (Inr Accepted,
                                   d2\<lparr>pd_blocks :=
                                        (pd_blocks d2)[unat block_index := Pending decoder']\<rparr>)))))))))"

text \<open>The same with the panics of RaptorQ: \<open>None\<close> is a panic, which leaves the decoder as it is at that
  point, the symbol and the journal recorded.\<close>

definition decoder_accept_run ::
  "('cfg, 'enc, 'pkt, 'dec) raptorq \<Rightarrow> (bytes \<Rightarrow> bytes \<Rightarrow> bytes) \<Rightarrow> 'dec PipelineDecoder \<Rightarrow> bytes \<Rightarrow>
   (CodecError + FrameOutcome) option \<times> 'dec PipelineDecoder" where
  "decoder_accept_run R kh d bytes =
     (case frame_from_bytes kh bytes (pd_session_key d) of
        Inl e \<Rightarrow> (Some (Inl (CodecFrame e)), d)
      | Inr frame \<Rightarrow>
          (let header = fr_header frame in
           if fh_session_id header \<noteq> pd_session_id d
             then (Some (Inl (CodecFrame (FrameSessionMismatch (pd_session_id d) (fh_session_id header)))), d)
           else if fh_frame_type header \<noteq> FtRepair
             then (Some (Inl (CodecFrame (UnknownFrameType (frame_type_u8 (fh_frame_type header))))), d)
           else
             (let block_index = fh_block_index header in
              if unat block_index \<ge> length (pd_blocks d)
                then (Some (Inl (CodecFrame (FrameSessionMismatch (pd_session_id d)
                       (fh_session_id header)))), d)
              else
                (let payload = fr_payload frame in
                 if length payload \<le> PAYLOAD_ID_LEN
                   then (Some (Inl (CodecFec (InvalidSourceBlock
                          (Detail ''symbol payload is {} bytes, need more than {}''
                            [length payload, PAYLOAD_ID_LEN])))), d)
                 else
                   (let d1 = snd (mark_held d block_index (fh_symbol_index header));
                        d2 = d1\<lparr>pd_journal := blake3_hasher_update (pd_journal d1) bytes\<rparr>
                    in (case pd_blocks d2 ! unat block_index of
                          Done data \<Rightarrow> (Some (Inr Redundant), d2)
                        | Pending decoder \<Rightarrow>
                            if rq_deserialize_panics R payload then (None, d2)
                            else (case rq_take_panics R decoder (rq_deserialize R payload) of
                                Some left \<Rightarrow>
                                  (None, d2\<lparr>pd_blocks := (pd_blocks d2)[unat block_index := Pending left]\<rparr>)
                              | None \<Rightarrow>
                                  (let decoder' = rq_add_new_packet R decoder (rq_deserialize R payload) in
                                   (case rq_get_result R decoder' of
                                      Some data \<Rightarrow>
                                        (Some (Inr (BlockComplete block_index)),
                                         d2\<lparr>pd_blocks := (pd_blocks d2)[unat block_index := Done data]\<rparr>)
                                    | None \<Rightarrow>
                                        (Some (Inr Accepted),
                                         d2\<lparr>pd_blocks :=
                                              (pd_blocks d2)[unat block_index := Pending decoder']\<rparr>))))))))))"

definition symbol_bitmap :: "'dec PipelineDecoder \<Rightarrow> u32 \<Rightarrow> bytes option" where
  "symbol_bitmap d block_index =
     (if unat block_index < length (pd_held d) then Some (pd_held d ! unat block_index) else None)"

definition symbols_held :: "'dec PipelineDecoder \<Rightarrow> u32 \<Rightarrow> u32 option" where
  "symbols_held d block_index =
     (if unat block_index < length (pd_held_counts d)
        then Some (pd_held_counts d ! unat block_index) else None)"

definition decoder_block_count :: "'dec PipelineDecoder \<Rightarrow> u32" where
  "decoder_block_count d = of_nat (length (pd_blocks d))"

definition journal_digest :: "(bytes \<Rightarrow> bytes) \<Rightarrow> 'dec PipelineDecoder \<Rightarrow> bytes" where
  "journal_digest h d = blake3_hasher_finalize h (pd_journal d)"

fun is_done :: "'dec BlockState \<Rightarrow> bool" where
  "is_done (Done data) = True"
| "is_done (Pending decoder) = False"

definition is_complete :: "'dec PipelineDecoder \<Rightarrow> bool" where
  "is_complete d = list_all is_done (pd_blocks d)"

definition blocks_complete :: "'dec PipelineDecoder \<Rightarrow> u32" where
  "blocks_complete d = of_nat (length (filter is_done (pd_blocks d)))"

fun finish_collect :: "nat \<Rightarrow> 'dec BlockState list \<Rightarrow> CodecError + bytes list" where
  "finish_collect index [] = Inr []"
| "finish_collect index (Done data # states) =
     res_bind (finish_collect (Suc index) states) (\<lambda>blocks. Inr (data # blocks))"
| "finish_collect index (Pending decoder # states) =
     Inl (CodecSession (InvalidParameters (Detail ''block {index} is not yet decoded'' [index])))"

definition decoder_finish ::
  "(bytes \<Rightarrow> bytes) \<Rightarrow> 'dec PipelineDecoder \<Rightarrow> CodecError + bytes" where
  "decoder_finish h d =
     res_bind (finish_collect 0 (pd_blocks d)) (\<lambda>blocks.
       res_bind (map_err CodecChunk (reassemble (pd_chunk_map d) blocks)) (\<lambda>payload.
         if blake3_digest h payload \<noteq> sp_payload_digest (pd_params d)
           then Inl (CodecSession DigestMismatch)
         else Inr payload))"

definition resume_state ::
  "(bytes \<Rightarrow> bytes) \<Rightarrow> 'dec PipelineDecoder \<Rightarrow> u64 \<Rightarrow> ResumeFile" where
  "resume_state h d journal_bytes =
     (let entries = map (\<lambda>index. block_entry_new (of_nat index)
            (sp_total_symbols_per_block (pd_params d)) (pd_held_counts d ! index)
            (pd_held d ! index)) [0..<length (pd_blocks d)]
      in resume_file_new h (pd_session_id d) journal_bytes (journal_digest h d) entries)"

text \<open>\<open>None\<close> is the panic of indexing \<open>self.held\<close> with a block index the session does not have.\<close>

fun verify_entries :: "'dec PipelineDecoder \<Rightarrow> BlockEntry list \<Rightarrow> (CodecError + unit) option" where
  "verify_entries d [] = Some (Inr ())"
| "verify_entries d (entry # entries) =
     (let index = unat (be_block_index entry) in
      if be_symbol_count entry \<noteq> sp_total_symbols_per_block (pd_params d)
        then Some (Inl (CodecResume (JournalMismatch
               (Detail ''block {index} declares {} symbols, session has {}''
                 [index, unat (be_symbol_count entry),
                  unat (sp_total_symbols_per_block (pd_params d))]))))
      else if index \<ge> length (pd_held d) then None
      else if be_symbol_bitmap entry \<noteq> pd_held d ! index
        then Some (Inl (CodecResume (JournalMismatch
               (Detail ''block {index} holds different symbols than recorded'' [index]))))
      else verify_entries d entries)"

definition verify_resume ::
  "(bytes \<Rightarrow> bytes) \<Rightarrow> 'dec PipelineDecoder \<Rightarrow> ResumeFile \<Rightarrow> (CodecError + unit) option" where
  "verify_resume h d state =
     (if rh_session_id (rf_header state) \<noteq> pd_session_id d
        then Some (Inl (CodecResume ResumeSessionMismatch))
      else if rh_block_count (rf_header state) \<noteq> decoder_block_count d
        then Some (Inl (CodecResume (JournalMismatch
               (Detail ''resume state covers {} blocks, session has {}''
                 [unat (rh_block_count (rf_header state)), unat (decoder_block_count d)]))))
      else if rh_journal_digest (rf_header state) \<noteq> journal_digest h d
        then Some (Inl (CodecResume (JournalMismatch
               (Detail ''replayed frames do not reproduce the recorded digest'' []))))
      else verify_entries d (rf_entries state))"

definition is_plausible_frame :: "bytes \<Rightarrow> bool" where
  "is_plausible_frame bytes = (length bytes \<ge> FRAME_HEADER_SIZE)"

section \<open>Interleaving\<close>

lemma interleave_pass_eq:
  "interleave_pass cs = (map hd (filter (\<lambda>c. c \<noteq> []) cs), map tl cs)"
  by (induction cs) (auto split: list.split)

lemma mset_interleave_pass: "mset (map hd (filter (\<lambda>c. c \<noteq> []) cs)) + mset (concat (map tl cs)) = mset (concat cs)"
proof (induction cs)
  case (Cons c cs)
  then show ?case by (cases c) auto
qed simp

lemma mset_interleave_loop:
  "(\<And>c. c \<in> set cs \<Longrightarrow> length c \<le> n) \<Longrightarrow>
   mset (interleave_loop n cs out) = mset out + mset (concat cs)"
proof (induction n arbitrary: cs out)
  case 0
  then have "concat cs = []" by (induction cs) auto
  then show ?case by simp
next
  case (Suc n)
  have len: "\<And>c. c \<in> set (map tl cs) \<Longrightarrow> length c \<le> n"
    using Suc.prems by fastforce
  from Suc.IH [of "map tl cs", OF len] show ?case
    using mset_interleave_pass [of cs] by (simp add: interleave_pass_eq add.assoc)
qed

lemma length_le_longest: "c \<in> set cs \<Longrightarrow> length c \<le> foldr max (map length cs) 0"
  by (induction cs) (auto simp: max_def)

lemma longest_le: "(\<And>c. c \<in> set cs \<Longrightarrow> length c \<le> n) \<Longrightarrow> foldr max (map length cs) 0 \<le> n"
  by (induction cs) auto

lemma mset_interleave: "mset (interleave cs) = mset (concat cs)"
  by (simp add: interleave_def mset_interleave_loop length_le_longest)

lemma set_interleave: "set (interleave cs) = \<Union> (set ` set cs)"
  using arg_cong [OF mset_interleave [of cs], of set_mset] by simp

lemma interleave_loop_rows:
  "(\<And>c. c \<in> set cs \<Longrightarrow> length c = n) \<Longrightarrow>
   interleave_loop n cs out = out @ concat (map (\<lambda>r. map (\<lambda>c. c ! r) cs) [0..<n])"
proof (induction n arbitrary: cs out)
  case 0
  show ?case by simp
next
  case (Suc n)
  then have ne: "c \<noteq> []" if "c \<in> set cs" for c using that by force
  then have f: "filter (\<lambda>c. c \<noteq> []) cs = cs" by (simp add: filter_id_conv)
  have tls: "length c = n" if "c \<in> set (map tl cs)" for c
    using that Suc.prems by auto
  have "tl c ! r = c ! Suc r" if "c \<in> set cs" for c r
    using ne [OF that] by (cases c) auto
  then have "map (\<lambda>c. tl c ! r) cs = map (\<lambda>c. c ! Suc r) cs" for r
    by simp
  then have "concat (map (\<lambda>r. map (\<lambda>c. c ! r) (map tl cs)) [0..<n]) =
      concat (map (\<lambda>r. map (\<lambda>c. c ! r) cs) [Suc 0..<Suc n])"
    by (simp only: map_Suc_upt [symmetric] map_map comp_def)
  moreover have "map hd cs = map (\<lambda>c. c ! 0) cs"
    using ne by (simp add: hd_conv_nth)
  moreover have "[0..<Suc n] = 0 # [Suc 0..<Suc n]" by (rule upt_conv_Cons) simp
  ultimately show ?case
    using Suc.IH [of "map tl cs" "out @ map hd cs", OF tls]
    by (simp add: interleave_pass_eq f del: map_map upt_Suc)
qed

lemma nth_concat_rows:
  assumes "\<And>r. r < n \<Longrightarrow> length (row r) = b" and "k < n * b"
  shows "concat (map row [0..<n]) ! k = row (k div b) ! (k mod b)"
  using assms
proof (induction n)
  case (Suc n)
  have len: "length (concat (map row [0..<m])) = m * b" if "m \<le> n" for m
    using that Suc.prems(1) by (induction m) auto
  show ?case
  proof (cases "k < n * b")
    case True
    then show ?thesis using Suc len [of n] by (simp add: nth_append)
  next
    case False
    with Suc.prems(2) have d: "k div b = n" by (auto simp: div_nat_eqI mult.commute)
    then have "k mod b = k - n * b" by (simp add: modulo_nat_def)
    with d False show ?thesis using len [of n] by (simp add: nth_append)
  qed
qed simp

section \<open>The receiver in two parts\<close>

text \<open>Which frames are taken depends on the session only; taking one is the state change.\<close>

definition admits ::
  "(bytes \<Rightarrow> bytes \<Rightarrow> bytes) \<Rightarrow> bytes \<Rightarrow> bytes \<Rightarrow> nat \<Rightarrow> bytes \<Rightarrow> CodecError + u32 \<times> u32 \<times> bytes" where
  "admits kh sid key nblocks bytes =
     res_bind (map_err CodecFrame (frame_from_bytes kh bytes key)) (\<lambda>frame.
       let header = fr_header frame; payload = fr_payload frame in
       if fh_session_id header \<noteq> sid
         then Inl (CodecFrame (FrameSessionMismatch sid (fh_session_id header)))
       else if fh_frame_type header \<noteq> FtRepair
         then Inl (CodecFrame (UnknownFrameType (frame_type_u8 (fh_frame_type header))))
       else if unat (fh_block_index header) \<ge> nblocks
         then Inl (CodecFrame (FrameSessionMismatch sid (fh_session_id header)))
       else if length payload \<le> PAYLOAD_ID_LEN
         then Inl (CodecFec (InvalidSourceBlock
                (Detail ''symbol payload is {} bytes, need more than {}''
                  [length payload, PAYLOAD_ID_LEN])))
       else Inr (fh_block_index header, fh_symbol_index header, payload))"

definition block_take ::
  "('cfg, 'enc, 'pkt, 'dec) raptorq \<Rightarrow> 'dec BlockState \<Rightarrow> bytes \<Rightarrow> 'dec BlockState" where
  "block_take R s payload =
     (case s of Done data \<Rightarrow> Done data
      | Pending decoder \<Rightarrow>
          (let decoder' = rq_add_new_packet R decoder (rq_deserialize R payload) in
           case rq_get_result R decoder' of Some data \<Rightarrow> Done data | None \<Rightarrow> Pending decoder'))"

definition absorb ::
  "('cfg, 'enc, 'pkt, 'dec) raptorq \<Rightarrow> 'dec PipelineDecoder \<Rightarrow> bytes \<Rightarrow> u32 \<times> u32 \<times> bytes \<Rightarrow>
   'dec PipelineDecoder" where
  "absorb R d bytes = (\<lambda>(b, sy, payload).
     (snd (mark_held d b sy))
       \<lparr>pd_journal := blake3_hasher_update (pd_journal d) bytes,
        pd_blocks := (pd_blocks d)[unat b := block_take R (pd_blocks d ! unat b) payload]\<rparr>)"

abbreviation admitted :: "(bytes \<Rightarrow> bytes \<Rightarrow> bytes) \<Rightarrow> 'dec PipelineDecoder \<Rightarrow> bytes \<Rightarrow>
    CodecError + u32 \<times> u32 \<times> bytes" where
  "admitted kh d \<equiv> admits kh (pd_session_id d) (pd_session_key d) (length (pd_blocks d))"

lemma mark_held_fields [simp]:
  "pd_blocks (snd (mark_held d b sy)) = pd_blocks d"
  "pd_journal (snd (mark_held d b sy)) = pd_journal d"
  "pd_session_id (snd (mark_held d b sy)) = pd_session_id d"
  "pd_session_key (snd (mark_held d b sy)) = pd_session_key d"
  "pd_params (snd (mark_held d b sy)) = pd_params d"
  "pd_chunk_map (snd (mark_held d b sy)) = pd_chunk_map d"
  by (simp_all add: mark_held_def Let_def)

lemma decoder_update_same_block:
  "bs ! i = s \<Longrightarrow> pd_blocks d = bs \<Longrightarrow>
   d\<lparr>pd_journal := j, pd_blocks := bs[i := s]\<rparr> = d\<lparr>pd_journal := j\<rparr>"
  by (cases d) auto

lemma accept_eq:
  "snd (decoder_accept R kh d bytes) =
     (case admitted kh d bytes of Inl e \<Rightarrow> d | Inr x \<Rightarrow> absorb R d bytes x)"
proof (cases "frame_from_bytes kh bytes (pd_session_key d)")
  case (Inl e)
  then show ?thesis by (simp add: decoder_accept_def admits_def)
next
  case (Inr f)
  let ?b = "unat (fh_block_index (fr_header f))"
  show ?thesis
  proof (cases "pd_blocks d ! ?b")
    case (Done data)
    then show ?thesis using Inr
      by (auto simp: decoder_accept_def admits_def Let_def absorb_def block_take_def
          decoder_update_same_block)
  next
    case (Pending dec)
    then show ?thesis using Inr
      by (auto simp: decoder_accept_def admits_def Let_def absorb_def block_take_def
          split: option.split)
  qed
qed

lemma accept_error_iff:
  "fst (decoder_accept R kh d bytes) = Inl e \<longleftrightarrow> admitted kh d bytes = Inl e"
  by (auto simp: decoder_accept_def admits_def Let_def split: sum.split BlockState.split option.split)

section \<open>The receiver's invariant\<close>

definition decoder_wf :: "'dec PipelineDecoder \<Rightarrow> bool" where
  "decoder_wf d \<longleftrightarrow> length (pd_blocks d) = length (cm_blocks (pd_chunk_map d)) \<and>
     length (pd_held d) = length (pd_blocks d) \<and>
     length (pd_held_counts d) = length (pd_blocks d) \<and>
     length (pd_blocks d) < 2 ^ 32 \<and>
     (\<forall>i < length (pd_blocks d).
        length (pd_held d ! i) = div_ceil_usize (unat (sp_total_symbols_per_block (pd_params d))) 8 \<and>
        unat (pd_held_counts d ! i) = popcount (pd_held d ! i) \<and>
        (\<forall>k. bitmap_bit (pd_held d ! i) k \<longrightarrow>
           k < unat (sp_total_symbols_per_block (pd_params d))))"

lemma bitmap_set_bit:
  assumes "k div 8 < length bm"
  shows "bitmap_bit (bm[k div 8 := bm ! (k div 8) OR push_bit (k mod 8) 1]) i \<longleftrightarrow>
    i = k \<or> bitmap_bit bm i"
proof (cases "i div 8 = k div 8")
  case True
  then have "i mod 8 = k mod 8 \<longleftrightarrow> i = k" by (metis div_mult_mod_eq)
  then show ?thesis using True assms by (auto simp: bitmap_bit_def bit_simps)
next
  case False
  then show ?thesis by (auto simp: bitmap_bit_def)
qed

lemma mask_test:
  assumes "k div 8 < length bm"
  shows "bm ! (k div 8) AND push_bit (k mod 8) 1 \<noteq> 0 \<longleftrightarrow> bitmap_bit bm k"
proof -
  have "bm ! (k div 8) AND push_bit (k mod 8) 1 \<noteq> 0 \<longleftrightarrow> bit (bm ! (k div 8)) (k mod 8)"
    by (simp add: and_exp_eq_0_iff_not_bit)
  with assms show ?thesis by (simp add: bitmap_bit_def)
qed

lemma popcount_set_bit:
  assumes "k div 8 < length bm" and "\<not> bitmap_bit bm k"
  shows "popcount (bm[k div 8 := bm ! (k div 8) OR push_bit (k mod 8) 1]) = popcount bm + 1"
proof -
  have "{i. i = k \<or> bitmap_bit bm i} = insert k {i. bitmap_bit bm i}" by auto
  then show ?thesis
    unfolding popcount_card bitmap_set_bit [OF assms(1)] using assms(2) by simp
qed

lemma symbol_byte_in_range:
  "k < c \<Longrightarrow> k div 8 < div_ceil_usize c 8"
  using div_ceil_usize_bounds(1) [of 8 c] by (simp add: less_mult_imp_div_less)

text \<open>What \<open>mark_held\<close> does to the block it marks, in a well-formed state.\<close>

lemma mark_held_effect:
  fixes sy :: u32
  assumes wf: "decoder_wf d" and b: "unat b < length (pd_blocks d)"
  defines "n \<equiv> unat (sp_total_symbols_per_block (pd_params d))" and "d' \<equiv> snd (mark_held d b sy)"
  shows "decoder_wf d' \<and>
    (\<forall>i < length (pd_blocks d). \<forall>k. bitmap_bit (pd_held d' ! i) k \<longleftrightarrow>
       bitmap_bit (pd_held d ! i) k \<or> (i = unat b \<and> k = unat sy \<and> k < n))"
proof (cases "unat sy < n \<and> \<not> bitmap_bit (pd_held d ! unat b) (unat sy)")
  case False
  have "d' = d"
  proof (cases "unat sy < n")
    case True
    then have "unat sy div 8 < length (pd_held d ! unat b)"
      using wf b symbol_byte_in_range by (simp add: decoder_wf_def n_def)
    with True False show ?thesis
      using mask_test [of "unat sy" "pd_held d ! unat b"] by (simp add: d'_def mark_held_def Let_def)
  next
    case ge: False
    then show ?thesis by (simp add: d'_def mark_held_def n_def word_le_nat_alt)
  qed
  with False wf show ?thesis by auto
next
  case True
  let ?bm = "pd_held d ! unat b"
  have byte: "unat sy div 8 < length ?bm"
    using True wf b symbol_byte_in_range by (simp add: decoder_wf_def n_def)
  let ?bm' = "?bm[unat sy div 8 := ?bm ! (unat sy div 8) OR push_bit (unat sy mod 8) 1]"
  have d': "d' = d\<lparr>pd_held := (pd_held d)[unat b := ?bm'],
      pd_held_counts := (pd_held_counts d)[unat b := pd_held_counts d ! unat b + 1]\<rparr>"
    using True mask_test [OF byte]
    by (simp add: d'_def mark_held_def Let_def n_def word_le_nat_alt)
  have pc: "popcount ?bm' = popcount ?bm + 1" by (rule popcount_set_bit [OF byte]) (use True in simp)
  have "popcount ?bm' \<le> card {..<n}"
    unfolding popcount_card using True wf b bitmap_set_bit [OF byte]
    by (intro card_mono) (auto simp: decoder_wf_def n_def)
  then have "popcount ?bm + 1 \<le> n" using pc by simp
  moreover have "n < 2 ^ 32"
    using unsigned_less [where w = "sp_total_symbols_per_block (pd_params d)"] by (simp add: n_def)
  ultimately have "unat (pd_held_counts d ! unat b + 1) = popcount ?bm'"
    using wf b pc by (simp add: decoder_wf_def unat_word_ariths)
  then have "decoder_wf d'"
    using wf b True bitmap_set_bit [OF byte]
    by (auto simp: decoder_wf_def d' nth_list_update n_def)
  moreover have "\<forall>i < length (pd_blocks d). \<forall>k. bitmap_bit (pd_held d' ! i) k \<longleftrightarrow>
       bitmap_bit (pd_held d ! i) k \<or> (i = unat b \<and> k = unat sy \<and> k < n)"
    using wf b True bitmap_set_bit [OF byte]
    by (auto simp: d' nth_list_update decoder_wf_def)
  ultimately show ?thesis ..
qed

lemma decoder_wf_cong:
  "decoder_wf d \<Longrightarrow> length bs = length (pd_blocks d) \<Longrightarrow>
   decoder_wf (d\<lparr>pd_journal := j, pd_blocks := bs\<rparr>)"
  by (simp add: decoder_wf_def)

lemma admits_block: "admits kh sid key n bytes = Inr (b, sy, pl) \<Longrightarrow> unat b < n"
  by (auto simp: admits_def Let_def split: if_splits)

lemma accept_keeps_wf: "decoder_wf d \<Longrightarrow> decoder_wf (snd (decoder_accept R kh d bytes))"
  using mark_held_effect
  by (fastforce simp: accept_eq absorb_def dest: admits_block intro!: decoder_wf_cong
      split: sum.split)

interpretation receiver: stepwise_invariant "\<lambda>d bytes. snd (decoder_accept R kh d bytes)" decoder_wf
  for R kh
  by unfold_locales (rule accept_keeps_wf)

section \<open>New decoders\<close>

definition chunk_params_of :: "SessionParams \<Rightarrow> ChunkParams" where
  "chunk_params_of p = \<lparr>cp_payload_size = sp_payload_size p, cp_block_count = sp_block_count p,
     cp_symbol_size = sp_symbol_size p\<rparr>"

lemma chunk_map_for_iff: "chunk_map_for p = Inr m \<longleftrightarrow> map_for (chunk_params_of p) m"
  by (auto simp: chunk_map_for_def map_for_def chunk_params_new_valid chunk_params_of_def)

lemma decoder_new_fields:
  assumes "decoder_new R sid params key = Inr d"
  shows "pd_session_id d = sid" "pd_params d = params" "pd_session_key d = key"
    "map_for (chunk_params_of params) (pd_chunk_map d)" "pd_journal d = blake3_hasher_new"
    "pd_blocks d = map (\<lambda>block. if bi_size block = 0 then Done []
       else Pending (rq_decoder_new R (config_for_block R (bi_size block) (sp_symbol_size params))))
       (cm_blocks (pd_chunk_map d))"
    "pd_held d = replicate (length (cm_blocks (pd_chunk_map d)))
       (replicate (div_ceil_usize (unat (sp_total_symbols_per_block params)) 8) 0)"
    "pd_held_counts d = replicate (length (cm_blocks (pd_chunk_map d))) 0"
  using assms by (auto simp: decoder_new_def Let_def chunk_map_for_iff)

lemma popcount_zero [simp]: "popcount (replicate n 0) = 0"
  by (simp add: popcount_def count_ones_def sum_list_replicate)

lemma bitmap_bit_zero [simp]: "\<not> bitmap_bit (replicate n 0) i"
  by (simp add: bitmap_bit_def)

lemma map_for_length_blocks:
  "map_for p m \<Longrightarrow> length (cm_blocks m) = unat (cp_block_count p) \<and> length (cm_blocks m) \<le> 1024"
  by (simp add: map_for_blocks) (simp add: map_for_def params_valid_def)

lemma decoder_new_wf: "decoder_new R sid params key = Inr d \<Longrightarrow> decoder_wf d"
proof -
  assume d: "decoder_new R sid params key = Inr d"
  note f = decoder_new_fields [OF d]
  have "length (cm_blocks (pd_chunk_map d)) \<le> 1024" using map_for_length_blocks [OF f(4)] by simp
  then show ?thesis by (simp add: decoder_wf_def f(2,6-8))
qed

section \<open>Replaying a journal\<close>

abbreviation receive ::
  "('cfg, 'enc, 'pkt, 'dec) raptorq \<Rightarrow> (bytes \<Rightarrow> bytes \<Rightarrow> bytes) \<Rightarrow> 'dec PipelineDecoder \<Rightarrow> bytes list \<Rightarrow>
   'dec PipelineDecoder" where
  "receive R kh \<equiv> foldl (\<lambda>d bytes. snd (decoder_accept R kh d bytes))"


lemma accept_static [simp]:
  "pd_session_id (snd (decoder_accept R kh d bytes)) = pd_session_id d"
  "pd_session_key (snd (decoder_accept R kh d bytes)) = pd_session_key d"
  "pd_params (snd (decoder_accept R kh d bytes)) = pd_params d"
  "pd_chunk_map (snd (decoder_accept R kh d bytes)) = pd_chunk_map d"
  "length (pd_blocks (snd (decoder_accept R kh d bytes))) = length (pd_blocks d)"
  by (auto simp: accept_eq absorb_def split: sum.split)

lemma receive_static [simp]:
  "pd_session_id (receive R kh d fs) = pd_session_id d"
  "pd_session_key (receive R kh d fs) = pd_session_key d"
  "pd_params (receive R kh d fs) = pd_params d"
  "pd_chunk_map (receive R kh d fs) = pd_chunk_map d"
  "length (pd_blocks (receive R kh d fs)) = length (pd_blocks d)"
  by (induction fs arbitrary: d) simp_all

text \<open>With the panics: what RaptorQ leaves of a block it panics on; the whole run, which a panic ends.\<close>

definition block_panics ::
  "('cfg, 'enc, 'pkt, 'dec) raptorq \<Rightarrow> 'dec BlockState \<Rightarrow> bytes \<Rightarrow> 'dec BlockState option" where
  "block_panics R s payload =
     (case s of Done data \<Rightarrow> None
      | Pending decoder \<Rightarrow>
          if rq_deserialize_panics R payload then Some (Pending decoder)
          else map_option Pending (rq_take_panics R decoder (rq_deserialize R payload)))"

fun receive_run ::
  "('cfg, 'enc, 'pkt, 'dec) raptorq \<Rightarrow> (bytes \<Rightarrow> bytes \<Rightarrow> bytes) \<Rightarrow> 'dec PipelineDecoder \<Rightarrow> bytes list \<Rightarrow>
   'dec PipelineDecoder option" where
  "receive_run R kh d [] = Some d"
| "receive_run R kh d (f # fs) =
     (case decoder_accept_run R kh d f of
        (None, _) \<Rightarrow> None
      | (Some _, d') \<Rightarrow> receive_run R kh d' fs)"

lemma accept_run_quiet:
  assumes "\<And>b sy pl. admitted kh d bytes = Inr (b, sy, pl) \<Longrightarrow> block_panics R (pd_blocks d ! unat b) pl = None"
  shows "decoder_accept_run R kh d bytes = (Some (fst (decoder_accept R kh d bytes)), snd (decoder_accept R kh d bytes))"
  using assms
  by (auto simp: decoder_accept_run_def decoder_accept_def admits_def block_panics_def Let_def
      split: sum.splits BlockState.splits option.splits if_splits)

lemma accept_run_panics:
  assumes "admitted kh d bytes = Inr (b, sy, pl)" and "block_panics R (pd_blocks d ! unat b) pl = Some s"
  shows "decoder_accept_run R kh d bytes = (None, (snd (mark_held d b sy))
       \<lparr>pd_journal := blake3_hasher_update (pd_journal d) bytes, pd_blocks := (pd_blocks d)[unat b := s]\<rparr>)"
proof (cases "frame_from_bytes kh bytes (pd_session_key d)")
  case (Inr f)
  with assms show ?thesis
    by (cases "pd_blocks d ! unat b")
      (auto simp: decoder_accept_run_def admits_def block_panics_def Let_def decoder_update_same_block
        split: if_splits option.splits)
qed (use assms(1) in \<open>simp add: admits_def\<close>)

lemma accept_run_cases:
  obtains "decoder_accept_run R kh d bytes = (Some (fst (decoder_accept R kh d bytes)), snd (decoder_accept R kh d bytes))"
  | b sy pl s where "admitted kh d bytes = Inr (b, sy, pl)" "block_panics R (pd_blocks d ! unat b) pl = Some s"
      "decoder_accept_run R kh d bytes = (None, (snd (mark_held d b sy))
         \<lparr>pd_journal := blake3_hasher_update (pd_journal d) bytes, pd_blocks := (pd_blocks d)[unat b := s]\<rparr>)"
  using accept_run_quiet accept_run_panics by (metis not_None_eq)

lemma accept_run_keeps:
  "decoder_wf d \<Longrightarrow> decoder_wf (snd (decoder_accept_run R kh d bytes))"
  "pd_session_id (snd (decoder_accept_run R kh d bytes)) = pd_session_id d"
proof -
  show "decoder_wf (snd (decoder_accept_run R kh d bytes))" if "decoder_wf d"
  proof (cases rule: accept_run_cases [of R kh d bytes])
    case 1
    then show ?thesis using accept_keeps_wf [OF that] by simp
  next
    case (2 b sy pl s)
    have "decoder_wf (snd (mark_held d b sy))" using mark_held_effect [OF that admits_block [OF 2(1)]] by blast
    then show ?thesis unfolding 2(3) by (auto intro!: decoder_wf_cong)
  qed
  show "pd_session_id (snd (decoder_accept_run R kh d bytes)) = pd_session_id d"
    by (cases rule: accept_run_cases [of R kh d bytes]) simp_all
qed

lemma receive_run_Some: "receive_run R kh d fs = Some d' \<Longrightarrow> d' = receive R kh d fs"
proof (induction fs arbitrary: d)
  case (Cons f fs)
  then show ?case by (cases rule: accept_run_cases [of R kh d f]) auto
qed simp

lemma receive_run_append:
  "receive_run R kh d (fs @ [f]) = Option.bind (receive_run R kh d fs) (\<lambda>d'. receive_run R kh d' [f])"
  by (induction fs arbitrary: d) (auto split: option.splits prod.splits)



section \<open>Resume files of a decoder\<close>

lemma resume_state_entries:
  "rf_entries (resume_state h d jb) = map (\<lambda>i. block_entry_new (of_nat i)
     (sp_total_symbols_per_block (pd_params d)) (pd_held_counts d ! i) (pd_held d ! i))
     [0..<length (pd_blocks d)]"
  by (simp add: resume_state_def resume_file_new_def resume_file_build_def Let_def)

lemma confined_last_byte:
  assumes len: "length bm = div_ceil_usize c 8" and conf: "\<And>i. bitmap_bit bm i \<Longrightarrow> i < c"
  shows "c mod 8 \<noteq> 0 \<longrightarrow> drop_bit (c mod 8) (last bm) = 0"
proof
  assume m: "c mod 8 \<noteq> 0"
  then have l: "length bm = c div 8 + 1" using len by (simp add: div_ceil_usize_def)
  then have "bm \<noteq> []" by auto
  with l have lst: "last bm = bm ! (c div 8)" by (simp add: last_conv_nth)
  show "drop_bit (c mod 8) (last bm) = 0"
  proof (rule bit_word_eqI)
    fix n assume "n < LENGTH(8)"
    have "\<not> bit (last bm) (c mod 8 + n)"
    proof
      assume b: "bit (last bm) (c mod 8 + n)"
      then have "c mod 8 + n < 8" using bit_imp_le_length [of "last bm"] by simp
      moreover have "(q * 8 + r) div 8 = q \<and> (q * 8 + r) mod 8 = r" if "r < 8" for q r :: nat
        using that by simp
      ultimately have "(c div 8 * 8 + (c mod 8 + n)) div 8 = c div 8"
        "(c div 8 * 8 + (c mod 8 + n)) mod 8 = c mod 8 + n"
        by blast+
      with b l lst have "bitmap_bit bm (c div 8 * 8 + (c mod 8 + n))"
        by (simp add: bitmap_bit_def)
      from conf [OF this] show False by (simp add: add.assoc [symmetric])
    qed
    then show "bit (drop_bit (c mod 8) (last bm)) n = bit 0 n" by (simp add: bit_simps)
  qed
qed

lemma decoder_entry_wf:
  assumes "decoder_wf d" and "i < length (pd_blocks d)"
  shows "block_entry_wf (block_entry_new (of_nat i) (sp_total_symbols_per_block (pd_params d))
     (pd_held_counts d ! i) (pd_held d ! i))"
  using assms confined_last_byte [of "pd_held d ! i"]
  by (simp add: decoder_wf_def block_entry_wf_def block_entry_new_def)

lemma decoder_entries_indexed:
  assumes "decoder_wf d"
  shows "entries_indexed 0 (rf_entries (resume_state h d jb))"
  using assms
  by (simp add: entries_indexed_def resume_state_entries block_entry_new_def comp_def
      decoder_wf_def unat_of_nat cong: map_cong) (rule map_idI, simp)

lemma resume_state_wf:
  assumes "hash_32 h" and "length (pd_session_id d) = 16" and wf: "decoder_wf d"
  shows "resume_file_wf h (resume_state h d jb)"
proof -
  have "length (journal_digest h d) = 32"
    using assms(1) by (simp add: journal_digest_def blake3_hasher_finalize_def hash_32_def)
  moreover have "list_all block_entry_wf (rf_entries (resume_state h d jb))"
    using decoder_entry_wf [OF wf] by (simp add: resume_state_entries list_all_iff)
  moreover note decoder_entries_indexed [OF wf, of h jb]
  moreover have "length (rf_entries (resume_state h d jb)) < 2 ^ 32"
    using wf by (simp add: resume_state_entries decoder_wf_def)
  moreover have "resume_state h d jb = resume_file_new h (pd_session_id d) jb (journal_digest h d)
      (rf_entries (resume_state h d jb))"
    by (simp add: resume_state_def Let_def resume_file_new_def resume_file_build_def)
  ultimately show ?thesis
    using resume_file_new_wf [OF assms(1,2)] by metis
qed

lemma verify_entries_iff:
  "verify_entries d es = Some (Inr ()) \<longleftrightarrow>
     (\<forall>e \<in> set es. unat (be_block_index e) < length (pd_held d) \<and>
        be_symbol_count e = sp_total_symbols_per_block (pd_params d) \<and>
        be_symbol_bitmap e = pd_held d ! unat (be_block_index e))"
  by (induction es) (auto simp: Let_def)

lemma verify_entries_no_panic:
  "\<forall>e \<in> set es. unat (be_block_index e) < length (pd_held d) \<Longrightarrow> verify_entries d es \<noteq> None"
  by (induction es) (auto simp: Let_def)

lemma verify_resume_no_panic:
  assumes f: "resume_file_wf h f" and wf: "decoder_wf d"
  shows "verify_resume h d f \<noteq> None"
proof (cases "rh_block_count (rf_header f) = decoder_block_count d")
  case True
  have ix: "map (\<lambda>e. unat (be_block_index e)) (rf_entries f) = [0..<length (rf_entries f)]"
    using f by (simp add: resume_file_wf_def entries_indexed_def)
  have "length (rf_entries f) = length (pd_held d)"
    using f True wf by (simp add: resume_file_wf_def decoder_wf_def decoder_block_count_def unat_of_nat)
  then have "\<forall>e \<in> set (rf_entries f). unat (be_block_index e) < length (pd_held d)"
    using arg_cong [OF ix, of set] by auto
  then show ?thesis by (auto simp: verify_resume_def dest: verify_entries_no_panic)
qed (simp add: verify_resume_def)

lemma resume_header_determined:
  assumes "resume_header_wf h r" and "rh_block_count r = of_nat (length es)"
  shows "r = resume_header_new h (rh_session_id r) (rh_journal_bytes r) (rh_journal_digest r) es"
  using assms
  by (simp add: resume_header_wf_def resume_header_new_def Let_def resume_header_crc_input_def)

lemma entry_determined:
  assumes "block_entry_wf e" and "block_entry_wf e'" and "be_block_index e = be_block_index e'"
    and "be_symbol_count e = be_symbol_count e'" and "be_symbol_bitmap e = be_symbol_bitmap e'"
  shows "e = (e' :: BlockEntry)"
proof -
  have "unat (be_symbols_held e) = unat (be_symbols_held e')"
    using assms by (simp add: block_entry_wf_def)
  then have "be_symbols_held e = be_symbols_held e'" by (simp add: word_unat_eq_iff)
  with assms show ?thesis by (cases e; cases e') simp
qed

lemma verify_resume_iff:
  assumes "hash_32 h" and "length (pd_session_id d) = 16" and wf: "decoder_wf d"
    and f: "resume_file_wf h f"
  shows "verify_resume h d f = Some (Inr ()) \<longleftrightarrow> f = resume_state h d (rh_journal_bytes (rf_header f))"
proof
  let ?g = "resume_state h d (rh_journal_bytes (rf_header f))"
  note gw = resume_state_wf [OF assms(1-3)]
  assume v: "verify_resume h d f = Some (Inr ())"
  then have hd: "rh_session_id (rf_header f) = pd_session_id d"
    "rh_block_count (rf_header f) = of_nat (length (pd_blocks d))"
    "rh_journal_digest (rf_header f) = journal_digest h d"
    and en: "verify_entries d (rf_entries f) = Some (Inr ())"
    by (auto simp: verify_resume_def decoder_block_count_def split: if_splits)
  have len: "length (rf_entries f) = length (pd_blocks d)"
    using f hd(2) wf by (simp add: resume_file_wf_def decoder_wf_def unat_of_nat)
  have "rf_entries f = rf_entries ?g"
  proof (rule nth_equalityI)
    show "length (rf_entries f) = length (rf_entries ?g)" by (simp add: len resume_state_entries)
    fix i assume i: "i < length (rf_entries f)"
    let ?e = "rf_entries f ! i" and ?e' = "rf_entries ?g ! i"
    have "map (\<lambda>e. unat (be_block_index e)) (rf_entries f) = [0..<length (rf_entries f)]"
      using f by (simp add: resume_file_wf_def entries_indexed_def)
    from arg_cong [OF this, of "\<lambda>xs. xs ! i"] i have ix: "unat (be_block_index ?e) = i" by simp
    have "be_symbol_count ?e = sp_total_symbols_per_block (pd_params d)"
      "be_symbol_bitmap ?e = pd_held d ! i"
      using en i ix by (auto simp: verify_entries_iff)
    moreover have "?e' = block_entry_new (of_nat i) (sp_total_symbols_per_block (pd_params d))
        (pd_held_counts d ! i) (pd_held d ! i)"
      using i len by (simp add: resume_state_entries)
    moreover have "be_block_index ?e = of_nat i" using ix by (metis of_nat_unat_id)
    moreover have "block_entry_wf ?e"
      using f i by (simp add: resume_file_wf_def list_all_length)
    moreover have "block_entry_wf ?e'"
      using gw [of "rh_journal_bytes (rf_header f)"] i len
      by (simp add: resume_file_wf_def list_all_length resume_state_entries)
    ultimately show "?e = ?e'" by (intro entry_determined) (simp_all add: block_entry_new_def)
  qed
  moreover have "rf_header f = rf_header ?g"
    using resume_header_determined [of h "rf_header f" "rf_entries ?g"] f hd
    by (simp add: resume_file_wf_def resume_state_def resume_file_new_def resume_file_build_def Let_def)
  ultimately show "f = ?g" by (cases f; cases ?g) simp
next
  let ?jb = "rh_journal_bytes (rf_header f)"
  assume g: "f = resume_state h d ?jb"
  have "verify_resume h d (resume_state h d jb) = Some (Inr ())" for jb
    using wf
    by (auto simp: verify_resume_def resume_state_entries verify_entries_iff block_entry_new_def
        resume_state_def resume_file_new_def resume_file_build_def resume_header_new_def Let_def
        decoder_block_count_def decoder_wf_def unat_of_nat)
  with g show "verify_resume h d f = Some (Inr ())" by metis
qed

section \<open>A code without repair\<close>

text \<open>The simplest code: one packet, the block itself. Hypotheses about the external coder are
  instantiated with it.\<close>

definition whole_block_code :: "(unit, bytes, bytes, bytes option) raptorq" where
  "whole_block_code =
     \<lparr>rq_with_defaults = \<lambda>_ _. (), rq_encoder_new = \<lambda>data _. data,
      rq_get_encoded_packets = \<lambda>e _. [e], rq_serialize = \<lambda>p. [0, 0, 0, 0] @ p,
      rq_deserialize = drop 4, rq_decoder_new = \<lambda>_. None,
      rq_add_new_packet = \<lambda>_ p. Some p, rq_get_result = \<lambda>d. d,
      rq_deserialize_panics = \<lambda>bs. length bs < 4, rq_take_panics = \<lambda>_ _. None\<rparr>"

definition small_session :: "(bytes \<Rightarrow> bytes) \<Rightarrow> bytes \<Rightarrow> SessionParams" where
  "small_session h payload =
     \<lparr>sp_payload_size = of_nat (length payload), sp_block_count = 1, sp_symbol_size = 64,
      sp_source_symbols_per_block = 1, sp_total_symbols_per_block = 4,
      sp_raptorq = \<lparr>rq_z = 1, rq_n = 1, rq_psi = 1\<rparr>, sp_payload_digest = h payload\<rparr>"

lemma small_session_chunks:
  assumes "length payload \<le> 64"
  shows "\<exists>m. chunk_map_for (small_session h payload) = Inr m"
proof -
  have lt: "length payload < 2 ^ 64" using assms by simp
  have "params_valid (chunk_params_of (small_session h payload))"
    using assms unat_of_nat_lt [where 'a = 64, of "length payload"] lt
    by (simp add: params_valid_def chunk_params_of_def small_session_def)
  moreover have "\<not> symbol_overflow (chunk_params_of (small_session h payload))"
    by (simp add: symbol_overflow_def chunk_params_of_def small_session_def)
  ultimately have "\<exists>m. map_for (chunk_params_of (small_session h payload)) m"
    by (auto simp: map_for_def chunk_map_new_eq)
  then show ?thesis by (simp add: chunk_map_for_iff)
qed

lemma small_session_valid: "validate_params (small_session h payload) = Inr ()"
  by (simp add: validate_params_def session_params_validate_def small_session_def
      MIN_FEC_SYMBOL_SIZE_def MAX_FEC_SYMBOL_SIZE_def MAX_PAYLOAD_LEN_def PAYLOAD_ID_LEN_def)

lemma small_session_decoder:
  "length payload \<le> 64 \<Longrightarrow> \<exists>d. decoder_new R sid (small_session h payload) key = Inr d"
  using small_session_chunks [of payload h]
  by (auto simp: decoder_new_def small_session_valid Let_def)

section \<open>Properties\<close>

text \<open>Interleaving loses and duplicates nothing: the stream is a permutation of the frames of
  all blocks, whatever their lengths.\<close>

theorem interleave_permutation: "mset (interleave per_block) = mset (concat per_block)"
  by (rule mset_interleave)

text \<open>With equally long blocks the stream is round-robin: frame \<open>k\<close> is frame \<open>k div B\<close> of block
  \<open>k mod B\<close>, so a contiguous loss is spread evenly over the blocks.\<close>

theorem interleave_round_robin:
  assumes "\<And>c. c \<in> set per_block \<Longrightarrow> length c = n" and "k < n * length per_block"
  shows "interleave per_block ! k = per_block ! (k mod length per_block) ! (k div length per_block)"
proof -
  let ?B = "length per_block"
  have B: "0 < ?B" using assms(2) by (cases per_block) auto
  have "foldr max (map length per_block) 0 = n"
    using longest_le [of per_block n] length_le_longest [of "hd per_block" per_block] assms(1) B
    by (simp add: le_antisym)
  then have "interleave per_block = concat (map (\<lambda>r. map (\<lambda>c. c ! r) per_block) [0..<n])"
    using interleave_loop_rows [of per_block n "[]"] assms(1) by (simp add: interleave_def)
  then show ?thesis
    using nth_concat_rows [of n "\<lambda>r. map (\<lambda>c. c ! r) per_block" ?B k] assms(2) B by simp
qed

text \<open>C18: a frame the receiver rejects, for whatever reason, leaves its whole state unchanged.\<close>

theorem accept_error_keeps_state:
  assumes "fst (decoder_accept R kh d bytes) = Inl e"
  shows "snd (decoder_accept R kh d bytes) = d"
  using assms by (simp add: accept_error_iff accept_eq)

theorem accept_error_keeps_state_witness:
  "\<forall>d :: bytes option PipelineDecoder. snd (decoder_accept whole_block_code (\<lambda>k m. []) d [1, 2]) = d"
proof
  fix d :: "bytes option PipelineDecoder"
  have "fst (decoder_accept whole_block_code (\<lambda>k m. []) d [1, 2]) = Inl (CodecFrame (HeaderTooShort 2))"
    by (simp add: decoder_accept_def frame_from_bytes_def frame_header_from_bytes_def
        FRAME_HEADER_SIZE_def)
  then show "snd (decoder_accept whole_block_code (\<lambda>k m. []) d [1, 2]) = d"
    by (rule accept_error_keeps_state)
qed

text \<open>C19: in every state a session's receiver reaches, for any sequence of byte strings offered to it,
  all per-block tables have one row per block, each held count is the number of bits set in the
  block's bitmap, and no bit stands for a symbol the session does not have.\<close>

theorem receiver_invariant:
  assumes "decoder_new R sid params key = Inr d"
  shows "decoder_wf (receive R kh d fs)"
  by (rule receiver.run_inv [OF decoder_new_wf [OF assms]])

theorem receiver_invariant_witness:
  "\<exists>d. decoder_new whole_block_code (replicate 16 1) (small_session (\<lambda>m. replicate 32 0) [1, 2, 3])
       (replicate 32 5) = Inr d \<and>
     decoder_wf (receive whole_block_code (\<lambda>k m. replicate 32 0) d [[], [1], replicate 60 7])"
proof -
  let ?p = "small_session (\<lambda>m. replicate 32 0) [1, 2, 3]"
  obtain d where d: "decoder_new whole_block_code (replicate 16 1) ?p (replicate 32 5) = Inr d"
    using small_session_decoder [of "[1, 2, 3]"] by fastforce
  show ?thesis by (intro exI [of _ d] conjI d receiver_invariant [OF d])
qed



text \<open>A parsed resume file verifies against a decoder if and only if it is the file that decoder
  would write for that journal length: every recorded field is checked, the counts included, and no
  index leaves the tables.\<close>

theorem verify_resume_exact:
  assumes "hash_32 h" and "length sid = 16" and "decoder_new R sid params key = Inr d"
    and "resume_file_from_bytes h bs = Inr f"
  shows "verify_resume h (receive R kh d fs) f \<noteq> None \<and>
    (verify_resume h (receive R kh d fs) f = Some (Inr ()) \<longleftrightarrow>
     f = resume_state h (receive R kh d fs) (rh_journal_bytes (rf_header f)))"
proof -
  have "length (pd_session_id (receive R kh d fs)) = 16"
    using assms(2) decoder_new_fields(1) [OF assms(3)] by simp
  moreover have "decoder_wf (receive R kh d fs)"
    by (rule receiver.run_inv [OF decoder_new_wf [OF assms(3)]])
  moreover have "resume_file_wf h f" using assms(4) by (simp add: resume_parse_iff)
  ultimately show ?thesis
    using verify_resume_iff [OF assms(1)] verify_resume_no_panic by blast
qed

end
