(* ===== verification/Optical_Transfer.thy ===== *)
theory Optical_Transfer
  imports Pipeline
begin

text \<open>
  The whole optical transfer: what \<open>Pipeline::encode_to_bytes\<close> emits, received by a
  \<open>PipelineDecoder\<close> in any order, with repetitions, losses and foreign byte strings in between.

  \<open>raptorq_recovers\<close> states what is relied on of the RaptorQ crate for one block: a packet is a
  four-byte identifier and a symbol and survives serialization; the decoder never returns anything
  but the block; and it returns the block once it has seen all source packets.
\<close>

definition repair_count_of :: "SessionParams \<Rightarrow> u32" where
  "repair_count_of p = saturating_sub (sp_total_symbols_per_block p) (sp_source_symbols_per_block p)"

definition block_cfg :: "('cfg, 'enc, 'pkt, 'dec) raptorq \<Rightarrow> SessionParams \<Rightarrow> bytes \<Rightarrow> 'cfg" where
  "block_cfg R p data = config_for_block R (of_nat (length data)) (sp_symbol_size p)"

definition block_packets ::
  "('cfg, 'enc, 'pkt, 'dec) raptorq \<Rightarrow> SessionParams \<Rightarrow> bytes \<Rightarrow> u32 \<Rightarrow> 'pkt list" where
  "block_packets R p data repair = rq_get_encoded_packets R (rq_encoder_new R data (block_cfg R p data)) repair"

definition raptorq_recovers ::
  "('cfg, 'enc, 'pkt, 'dec) raptorq \<Rightarrow> SessionParams \<Rightarrow> bytes \<Rightarrow> bool" where
  "raptorq_recovers R p data \<longleftrightarrow>
     (let pkts = block_packets R p data (repair_count_of p);
          src = block_packets R p data 0;
          run = \<lambda>ps. rq_get_result R (foldl (rq_add_new_packet R) (rq_decoder_new R (block_cfg R p data)) ps)
      in src \<noteq> [] \<and> set src \<subseteq> set pkts \<and>
         (\<forall>pk \<in> set pkts. 4 < length (rq_serialize R pk) \<and>
            length (rq_serialize R pk) \<le> 4 + unat (sp_symbol_size p) \<and>
            rq_deserialize R (rq_serialize R pk) = pk) \<and>
         (\<forall>ps. set ps \<subseteq> set pkts \<longrightarrow> run ps = None \<or> run ps = Some data) \<and>
         (\<forall>ps. set ps \<subseteq> set pkts \<longrightarrow> set src \<subseteq> set ps \<longrightarrow> run ps = Some data))"

text \<open>That RaptorQ does not panic on the packets it made for the block itself.\<close>

definition raptorq_takes ::
  "('cfg, 'enc, 'pkt, 'dec) raptorq \<Rightarrow> SessionParams \<Rightarrow> bytes \<Rightarrow> bool" where
  "raptorq_takes R p data \<longleftrightarrow>
     (let pkts = set (block_packets R p data (repair_count_of p))
      in \<forall>pk \<in> pkts. \<not> rq_deserialize_panics R (rq_serialize R pk) \<and>
         (\<forall>ps. set ps \<subseteq> pkts \<longrightarrow>
            rq_take_panics R (foldl (rq_add_new_packet R) (rq_decoder_new R (block_cfg R p data)) ps) pk = None))"

section \<open>One block\<close>

definition received_payloads ::
  "(bytes \<Rightarrow> bytes \<Rightarrow> bytes) \<Rightarrow> 'dec PipelineDecoder \<Rightarrow> nat \<Rightarrow> bytes list \<Rightarrow> bytes list" where
  "received_payloads kh d i fs =
     concat (map (\<lambda>f. case admitted kh d f of
         Inr (b, sy, pl) \<Rightarrow> if unat b = i then [pl] else []
       | Inl e \<Rightarrow> []) fs)"

definition received_packets ::
  "('cfg, 'enc, 'pkt, 'dec) raptorq \<Rightarrow> (bytes \<Rightarrow> bytes \<Rightarrow> bytes) \<Rightarrow> 'dec PipelineDecoder \<Rightarrow> nat \<Rightarrow>
   bytes list \<Rightarrow> 'pkt list" where
  "received_packets R kh d i fs = map (rq_deserialize R) (received_payloads kh d i fs)"

lemma received_payloads_iff:
  "pl \<in> set (received_payloads kh d i fs) \<longleftrightarrow>
     (\<exists>f \<in> set fs. \<exists>b sy. admitted kh d f = Inr (b, sy, pl) \<and> unat b = i)"
proof (induction fs)
  case Nil
  show ?case by (simp add: received_payloads_def)
next
  case (Cons f fs)
  have "received_payloads kh d i (f # fs) =
      received_payloads kh d i [f] @ received_payloads kh d i fs"
    by (simp add: received_payloads_def)
  moreover have "pl \<in> set (received_payloads kh d i [f]) \<longleftrightarrow>
      (\<exists>b sy. admitted kh d f = Inr (b, sy, pl) \<and> unat b = i)"
    by (cases "admitted kh d f") (auto simp: received_payloads_def)
  ultimately show ?case using Cons by simp
qed

lemma receive_block:
  "i < length (pd_blocks d) \<Longrightarrow>
   pd_blocks (receive R kh d fs) ! i =
     foldl (block_take R) (pd_blocks d ! i) (received_payloads kh d i fs)"
proof (induction fs arbitrary: d)
  case Nil
  show ?case by (simp add: received_payloads_def)
next
  case (Cons f fs)
  let ?d = "snd (decoder_accept R kh d f)"
  have same: "received_payloads kh ?d i fs = received_payloads kh d i fs"
    by (simp add: received_payloads_def)
  have "pd_blocks ?d ! i = foldl (block_take R) (pd_blocks d ! i) (received_payloads kh d i [f])"
    using Cons.prems by (auto simp: accept_eq absorb_def received_payloads_def nth_list_update
        split: sum.split)
  then show ?case
    using Cons.IH [of ?d] Cons.prems same by (simp add: received_payloads_def)
qed

lemma block_take_simps [simp]:
  "block_take R (Done data) pl = Done data"
  "block_take R (Pending dec) pl =
     (case rq_get_result R (rq_add_new_packet R dec (rq_deserialize R pl)) of
        Some data \<Rightarrow> Done data
      | None \<Rightarrow> Pending (rq_add_new_packet R dec (rq_deserialize R pl)))"
  by (simp_all add: block_take_def Let_def)

lemma block_fold:
  assumes sound: "\<And>ps. set ps \<subseteq> P \<Longrightarrow>
      rq_get_result R (foldl (rq_add_new_packet R) dec ps) \<in> {None, Some data}"
    and "set (map (rq_deserialize R) pls) \<subseteq> P"
  defines "run \<equiv> foldl (rq_add_new_packet R) dec (map (rq_deserialize R) pls)"
  shows "foldl (block_take R) (Pending dec) pls = Done data \<or>
    (foldl (block_take R) (Pending dec) pls = Pending run \<and> (pls \<noteq> [] \<longrightarrow> rq_get_result R run = None))"
  using assms(2) unfolding run_def
proof (induction pls rule: rev_induct)
  case Nil
  show ?case by simp
next
  case (snoc pl pls)
  let ?ps = "map (rq_deserialize R) pls"
  have res: "rq_get_result R (foldl (rq_add_new_packet R) dec (?ps @ [rq_deserialize R pl])) \<in>
      {None, Some data}"
    using snoc.prems by (intro sound) auto
  from snoc consider "foldl (block_take R) (Pending dec) pls = Done data"
    | "foldl (block_take R) (Pending dec) pls = Pending (foldl (rq_add_new_packet R) dec ?ps)"
    by auto
  then show ?case
    using res by cases auto
qed

lemma block_recovered:
  assumes "raptorq_recovers R p data"
    and "set (map (rq_deserialize R) pls) \<subseteq> set (block_packets R p data (repair_count_of p))"
    and "set (block_packets R p data 0) \<subseteq> set (map (rq_deserialize R) pls)"
  shows "foldl (block_take R) (Pending (rq_decoder_new R (block_cfg R p data))) pls = Done data"
proof -
  let ?dec = "rq_decoder_new R (block_cfg R p data)"
  let ?run = "foldl (rq_add_new_packet R) ?dec (map (rq_deserialize R) pls)"
  have "block_packets R p data 0 \<noteq> []" using assms(1) by (simp add: raptorq_recovers_def Let_def)
  with assms(3) have ne: "pls \<noteq> []" by (cases "block_packets R p data 0") auto
  have full: "rq_get_result R ?run = Some data"
    using assms unfolding raptorq_recovers_def Let_def by blast
  have "foldl (block_take R) (Pending ?dec) pls = Done data \<or>
    (foldl (block_take R) (Pending ?dec) pls = Pending ?run \<and>
      (pls \<noteq> [] \<longrightarrow> rq_get_result R ?run = None))"
    using assms(1,2) by (intro block_fold) (auto simp: raptorq_recovers_def Let_def)
  with ne full show ?thesis by simp
qed

section \<open>The frames of a session\<close>

definition symbol_frame ::
  "('cfg, 'enc, 'pkt, 'dec) raptorq \<Rightarrow> (bytes \<Rightarrow> bytes \<Rightarrow> bytes) \<Rightarrow> bytes \<Rightarrow> bytes \<Rightarrow> u32 \<Rightarrow> nat \<Rightarrow> 'pkt \<Rightarrow>
   Frame" where
  "symbol_frame R kh sid key b i pk =
     frame_build_owned kh (the (frame_header_new FtRepair sid b (of_nat i) (rq_serialize R pk)))
       (rq_serialize R pk) key"

lemma encode_packets_eq:
  assumes "\<And>pk. pk \<in> set pks \<Longrightarrow> length (rq_serialize R pk) \<le> 65535"
  shows "encode_packets R kh p b i pks =
    Inr (map (\<lambda>(j, pk). symbol_frame R kh (pl_session_id p) (pl_session_key p) b j pk)
      (enumerate i pks))"
  using assms
  by (induction pks arbitrary: i)
    (simp_all add: Let_def symbol_frame_def MAX_PAYLOAD_LEN_def not_less)

lemma admits_symbol_frame:
  assumes "keyed_hash_32 kh" and "length sid = 16" and "unat b < n"
    and "4 < length (rq_serialize R pk)" and "length (rq_serialize R pk) \<le> 65535"
  shows "admits kh sid key n (frame_into_vec (symbol_frame R kh sid key b i pk)) =
    Inr (b, of_nat i, rq_serialize R pk)"
proof -
  let ?pl = "rq_serialize R pk"
  obtain h where h: "frame_header_new FtRepair sid b (of_nat i) ?pl = Some h"
    using assms(5) by (simp add: frame_header_new_def MAX_PAYLOAD_LEN_def)
  let ?f = "frame_build kh h ?pl key"
  have f: "symbol_frame R kh sid key b i pk = ?f"
    by (simp add: symbol_frame_def h frame_build_def)
  have "frame_valid kh key ?f" by (rule frame_build_valid [OF assms(1,2) h])
  then have "frame_from_bytes kh (frame_into_vec ?f) key = Inr ?f"
    by (auto simp: frame_parse_iff frame_into_vec_def frame_to_vec_def)
  with h assms(3-5) show ?thesis
    unfolding f by (auto simp: admits_def Let_def frame_build_def frame_build_owned_def set_mac_def
        PAYLOAD_ID_LEN_def frame_header_new_def split: if_splits)
qed

section \<open>The session\<close>

text \<open>A sender and a receiver set up with the same session, and a payload of the declared size
  whose blocks the coder can recover.\<close>

definition session_ok ::
  "('cfg, 'enc, 'pkt, 'dec) raptorq \<Rightarrow> (bytes \<Rightarrow> bytes \<Rightarrow> bytes) \<Rightarrow> bytes \<Rightarrow> bytes \<Rightarrow> SessionParams \<Rightarrow>
   bytes \<Rightarrow> Pipeline \<Rightarrow> 'dec PipelineDecoder \<Rightarrow> bool" where
  "session_ok R kh sid key params payload p d \<longleftrightarrow>
     keyed_hash_32 kh \<and> length sid = 16 \<and> pipeline_new sid params key = Inr p \<and>
     decoder_new R sid params key = Inr d \<and> length payload = unat (sp_payload_size params) \<and>
     (\<forall>data \<in> set (payload_blocks (chunk_params_of params) payload).
        data \<noteq> [] \<longrightarrow> raptorq_recovers R params data)"

definition block_data :: "SessionParams \<Rightarrow> bytes \<Rightarrow> nat \<Rightarrow> bytes" where
  "block_data params payload i = payload_blocks (chunk_params_of params) payload ! i"

definition block_frames ::
  "('cfg, 'enc, 'pkt, 'dec) raptorq \<Rightarrow> (bytes \<Rightarrow> bytes \<Rightarrow> bytes) \<Rightarrow> bytes \<Rightarrow> bytes \<Rightarrow> SessionParams \<Rightarrow>
   bytes \<Rightarrow> nat \<Rightarrow> Frame list" where
  "block_frames R kh sid key params payload i =
     (let data = block_data params payload i in
      if data = [] then []
      else map (\<lambda>(j, pk). symbol_frame R kh sid key (of_nat i) j pk)
             (enumerate 0 (block_packets R params data (repair_count_of params))))"

lemma session_maps:
  assumes "session_ok R kh sid key params payload p d"
  shows "map_for (chunk_params_of params) (pl_chunk_map p)"
    and "pl_params p = params" "pl_session_id p = sid" "pl_session_key p = key"
    and "map_for (chunk_params_of params) (pd_chunk_map d)"
    and "length (pd_blocks d) = unat (sp_block_count params)"
    and "unat (sp_symbol_size params) \<le> 65531"
proof -
  from assms have s: "pipeline_new sid params key = Inr p" "decoder_new R sid params key = Inr d"
    by (auto simp: session_ok_def)
  then show "map_for (chunk_params_of params) (pl_chunk_map p)" "pl_params p = params"
    "pl_session_id p = sid" "pl_session_key p = key"
    by (auto simp: pipeline_new_def chunk_map_for_iff)
  show m: "map_for (chunk_params_of params) (pd_chunk_map d)" by (rule decoder_new_fields(4) [OF s(2)])
  show "length (pd_blocks d) = unat (sp_block_count params)"
    using decoder_new_fields(6) [OF s(2)] map_for_length_blocks [OF m]
    by (simp add: chunk_params_of_def)
  from s(1) have "sp_symbol_size params \<le> MAX_FEC_SYMBOL_SIZE"
    by (auto simp: pipeline_new_def validate_params_def split: if_splits)
  then show "unat (sp_symbol_size params) \<le> 65531"
    by (simp add: MAX_FEC_SYMBOL_SIZE_def MAX_PAYLOAD_LEN_def PAYLOAD_ID_LEN_def word_le_nat_alt)
qed

lemma session_block:
  assumes ok: "session_ok R kh sid key params payload p d" and i: "i < unat (sp_block_count params)"
  defines "B \<equiv> layout_block (chunk_params_of params) i" and "data \<equiv> block_data params payload i"
  shows "bi_index B = of_nat i" "unat (bi_index B) = i" "bi_size B = of_nat (length data)"
    "bi_size B = 0 \<longleftrightarrow> data = []" "data \<noteq> [] \<Longrightarrow> raptorq_recovers R params data"
    "extract_block (pl_chunk_map p) payload (bi_index B) = Inr data"
proof -
  note m = session_maps(1) [OF ok]
  let ?c = "chunk_params_of params"
  have v: "params_valid ?c" using m by (simp add: map_for_def)
  have len: "length payload = unat (cp_payload_size ?c)"
    using ok by (simp add: session_ok_def chunk_params_of_def)
  have ic: "i < unat (cp_block_count ?c)" using i by (simp add: chunk_params_of_def)
  note props = payload_blocks_props [OF v len]
  note lb = layout_block_fields [OF v ic]
  show ix: "unat (bi_index B) = i" using lb(1) by (simp add: B_def)
  then show "bi_index B = of_nat i" by (metis of_nat_unat_id)
  have sz: "unat (bi_size B) = length data"
    using lb(3) props(2) [OF ic] by (simp add: B_def data_def block_data_def)
  then show "bi_size B = of_nat (length data)" by (metis of_nat_unat_id)
  show "bi_size B = 0 \<longleftrightarrow> data = []" using sz by (metis length_0_conv unat_eq_zero)
  have "data \<in> set (payload_blocks ?c payload)"
    using ic props(1) by (simp add: data_def block_data_def)
  then show "data \<noteq> [] \<Longrightarrow> raptorq_recovers R params data"
    using ok by (simp add: session_ok_def)
  show "extract_block (pl_chunk_map p) payload (bi_index B) = Inr data"
    using extract_block_payload_blocks [OF m len, of "bi_index B"] ix ic
    by (simp add: data_def block_data_def)
qed

lemma encode_blocks_map:
  "(\<And>x. x \<in> set xs \<Longrightarrow> encode_block R kh p payload rc (F x) = Inr (g x)) \<Longrightarrow>
   encode_blocks R kh p payload rc (map F xs) = Inr (map g xs)"
  by (induction xs) auto

lemma recovers_lengths:
  assumes "raptorq_recovers R params data" and "unat (sp_symbol_size params) \<le> 65531"
    and "pk \<in> set (block_packets R params data (repair_count_of params))"
  shows "4 < length (rq_serialize R pk)" and "length (rq_serialize R pk) \<le> 65535"
    and "rq_deserialize R (rq_serialize R pk) = pk"
proof -
  have "4 < length (rq_serialize R pk) \<and> length (rq_serialize R pk) \<le> 4 + unat (sp_symbol_size params) \<and>
      rq_deserialize R (rq_serialize R pk) = pk"
    using assms(1,3) by (simp add: raptorq_recovers_def Let_def)
  with assms(2) show "4 < length (rq_serialize R pk)" "length (rq_serialize R pk) \<le> 65535"
    "rq_deserialize R (rq_serialize R pk) = pk" by auto
qed

lemma encode_session:
  assumes ok: "session_ok R kh sid key params payload p d"
  shows "encode_to_bytes R kh p payload =
    Inr (map frame_into_vec (interleave (map (block_frames R kh sid key params payload)
      [0..<unat (sp_block_count params)])))"
proof -
  note m = session_maps [OF ok]
  let ?c = "chunk_params_of params" and ?n = "unat (sp_block_count params)"
  have blocks: "cm_blocks (pl_chunk_map p) = map (layout_block ?c) [0..<?n]"
    using map_for_blocks [OF m(1)] by (simp add: chunk_params_of_def)
  have "encode_block R kh p payload (repair_count_of params) (layout_block ?c i) =
      Inr (block_frames R kh sid key params payload i)" if i: "i < ?n" for i
  proof -
    note b = session_block [OF ok i]
    let ?data = "block_data params payload i"
    show ?thesis
    proof (cases "?data = []")
      case True
      then show ?thesis using b by (simp add: encode_block_def block_frames_def)
    next
      case False
      note rec = b(5) [OF False]
      have "encode_packets R kh p (of_nat i) 0
          (block_packets R params ?data (repair_count_of params)) =
        Inr (block_frames R kh sid key params payload i)"
        using recovers_lengths [OF rec m(7)] False
        by (subst encode_packets_eq) (simp_all add: block_frames_def Let_def m)
      then show ?thesis
        using b False
        by (simp add: encode_block_def block_packets_def block_cfg_def Let_def m)
    qed
  qed
  then have "encode_blocks R kh p payload (repair_count_of params) (cm_blocks (pl_chunk_map p)) =
      Inr (map (block_frames R kh sid key params payload) [0..<?n])"
    unfolding blocks by (intro encode_blocks_map) simp
  then show ?thesis
    using ok by (simp add: encode_to_bytes_def pipeline_encode_def m repair_count_of_def Let_def
        session_ok_def)
qed

lemma frame_admitted:
  assumes ok: "session_ok R kh sid key params payload p d"
    and f: "f \<in> set (block_frames R kh sid key params payload i)" and i: "i < unat (sp_block_count params)"
  shows "\<exists>j pk. pk \<in> set (block_packets R params (block_data params payload i) (repair_count_of params)) \<and>
    admitted kh d (frame_into_vec f) = Inr (of_nat i, of_nat j, rq_serialize R pk) \<and>
    unat (of_nat i :: u32) = i"
proof -
  note m = session_maps [OF ok] and b = session_block [OF ok i]
  let ?data = "block_data params payload i"
  from f have ne: "?data \<noteq> []" by (auto simp: block_frames_def Let_def split: if_splits)
  with f obtain j pk where f': "f = symbol_frame R kh sid key (of_nat i) j pk"
    and pk: "pk \<in> set (block_packets R params ?data (repair_count_of params))"
    by (auto simp: block_frames_def Let_def in_set_enumerate_eq)
  have u: "unat (of_nat i :: u32) = i" using b(1,2) by simp
  note l = recovers_lengths [OF b(5) [OF ne] m(7) pk]
  have d: "pd_session_id d = sid" "pd_session_key d = key"
    using ok decoder_new_fields(1,3) [of R sid params key d] by (auto simp: session_ok_def)
  have "admitted kh d (frame_into_vec f) = Inr (of_nat i, of_nat j, rq_serialize R pk)"
    unfolding f' d using ok i u l m(6)
    by (intro admits_symbol_frame) (auto simp: session_ok_def)
  with pk u show ?thesis by blast
qed

text \<open>The stream \<open>fs\<close> consists of frames of the session and of byte strings the receiver rejects.\<close>

definition session_stream ::
  "('cfg, 'enc, 'pkt, 'dec) raptorq \<Rightarrow> (bytes \<Rightarrow> bytes \<Rightarrow> bytes) \<Rightarrow> 'dec PipelineDecoder \<Rightarrow> bytes list \<Rightarrow>
   bytes list \<Rightarrow> bool" where
  "session_stream R kh d frames fs \<longleftrightarrow>
     (\<forall>f \<in> set fs. f \<in> set frames \<or> \<not> is_ok (fst (decoder_accept R kh d f)))"

lemma rejected_not_admitted: "is_ok (fst (decoder_accept R kh d f)) \<longleftrightarrow> is_ok (admitted kh d f)"
proof (cases "admitted kh d f")
  case (Inl e)
  then show ?thesis using accept_error_iff [of R kh d f e] by simp
next
  case (Inr x)
  then have "fst (decoder_accept R kh d f) \<noteq> Inl e" for e
    using accept_error_iff [of R kh d f e] by simp
  then have "is_ok (fst (decoder_accept R kh d f))"
    by (cases "fst (decoder_accept R kh d f)") auto
  with Inr show ?thesis by simp
qed

lemma emitted_accepted:
  assumes ok: "session_ok R kh sid key params payload p d"
    and enc: "encode_to_bytes R kh p payload = Inr frames" and "f \<in> set frames"
  shows "is_ok (fst (decoder_accept R kh d f))"
proof -
  obtain k g where k: "k < unat (sp_block_count params)"
    and g: "g \<in> set (block_frames R kh sid key params payload k)" and fg: "f = frame_into_vec g"
    using enc assms(3) by (auto simp: encode_session [OF ok] set_interleave)
  from frame_admitted [OF ok g k] fg show ?thesis by (auto simp: rejected_not_admitted)
qed

lemma stream_packet:
  assumes ok: "session_ok R kh sid key params payload p d"
    and enc: "encode_to_bytes R kh p payload = Inr frames"
    and st: "session_stream R kh d frames fs" and f: "f \<in> set fs" "admitted kh d f = Inr (b, sy, pl)"
  obtains pk where "unat b < unat (sp_block_count params)" "block_data params payload (unat b) \<noteq> []"
    "pk \<in> set (block_packets R params (block_data params payload (unat b)) (repair_count_of params))"
    "pl = rq_serialize R pk" "rq_deserialize R pl = pk"
proof -
  have "is_ok (fst (decoder_accept R kh d f))" using f(2) by (simp add: rejected_not_admitted)
  then have "f \<in> set frames" using st f(1) by (auto simp: session_stream_def)
  then obtain k g where k: "k < unat (sp_block_count params)"
    and g: "g \<in> set (block_frames R kh sid key params payload k)" and fg: "f = frame_into_vec g"
    using enc by (auto simp: encode_session [OF ok] set_interleave)
  from frame_admitted [OF ok g k] f(2) fg obtain pk where
    pk: "pk \<in> set (block_packets R params (block_data params payload k) (repair_count_of params))"
    and "unat b = k" "pl = rq_serialize R pk"
    by auto
  moreover have ne: "block_data params payload k \<noteq> []"
    using g by (auto simp: block_frames_def Let_def split: if_splits)
  moreover note recovers_lengths(3) [OF session_block(5) [OF ok k ne] session_maps(7) [OF ok] pk]
  ultimately show thesis using that k by simp
qed

lemma received_within:
  assumes ok: "session_ok R kh sid key params payload p d"
    and enc: "encode_to_bytes R kh p payload = Inr frames"
    and st: "session_stream R kh d frames fs"
  shows "set (received_packets R kh d i fs) \<subseteq>
    set (block_packets R params (block_data params payload i) (repair_count_of params))"
  by (auto simp: received_packets_def received_payloads_iff elim: stream_packet [OF ok enc st])

lemma initial_block:
  assumes ok: "session_ok R kh sid key params payload p d" and i: "i < unat (sp_block_count params)"
  shows "pd_blocks d ! i = (if block_data params payload i = [] then Done []
    else Pending (rq_decoder_new R (block_cfg R params (block_data params payload i))))"
proof -
  note m = session_maps(5) [OF ok] and b = session_block [OF ok i]
  have dn: "decoder_new R sid params key = Inr d" using ok by (simp add: session_ok_def)
  have "cm_blocks (pd_chunk_map d) = map (layout_block (chunk_params_of params)) [0..<unat (sp_block_count params)]"
    using map_for_blocks [OF m] by (simp add: chunk_params_of_def)
  with i b(3,4) show ?thesis
    by (simp add: decoder_new_fields(6) [OF dn] block_cfg_def)
qed

text \<open>In a stream of the session no call panics.\<close>

lemma stream_quiet:
  assumes ok: "session_ok R kh sid key params payload p d"
    and enc: "encode_to_bytes R kh p payload = Inr frames"
    and takes: "\<And>i. i < unat (sp_block_count params) \<Longrightarrow> block_data params payload i \<noteq> [] \<Longrightarrow>
      raptorq_takes R params (block_data params payload i)"
    and "session_stream R kh d frames fs"
  shows "receive_run R kh d fs = Some (receive R kh d fs)"
  using assms(4)
proof (induction fs rule: rev_induct)
  case (snoc f fs)
  let ?d = "receive R kh d fs"
  have st: "session_stream R kh d frames fs" using snoc.prems by (simp add: session_stream_def)
  have "block_panics R (pd_blocks ?d ! unat b) pl = None" if adm: "admitted kh ?d f = Inr (b, sy, pl)" for b sy pl
  proof -
    have "admitted kh d f = Inr (b, sy, pl)" using adm by simp
    from stream_packet [OF ok enc snoc.prems _ this] obtain pk where
      pk: "unat b < unat (sp_block_count params)" "block_data params payload (unat b) \<noteq> []"
      "pk \<in> set (block_packets R params (block_data params payload (unat b)) (repair_count_of params))"
      "pl = rq_serialize R pk" "rq_deserialize R pl = pk" by auto
    let ?data = "block_data params payload (unat b)" and ?pls = "received_payloads kh d (unat b) fs"
    let ?dec = "rq_decoder_new R (block_cfg R params ?data)"
    have within: "set (map (rq_deserialize R) ?pls) \<subseteq> set (block_packets R params ?data (repair_count_of params))"
      using received_within [OF ok enc st, of "unat b"] by (simp add: received_packets_def)
    have rec: "raptorq_recovers R params ?data" by (rule session_block(5) [OF ok pk(1,2)])
    have "pd_blocks ?d ! unat b = foldl (block_take R) (Pending ?dec) ?pls"
      using pk(1,2) session_maps(6) [OF ok] initial_block [OF ok pk(1)] by (simp add: receive_block)
    moreover have "foldl (block_take R) (Pending ?dec) ?pls = Done ?data \<or>
      (foldl (block_take R) (Pending ?dec) ?pls =
         Pending (foldl (rq_add_new_packet R) ?dec (map (rq_deserialize R) ?pls)) \<and>
       (?pls \<noteq> [] \<longrightarrow> rq_get_result R (foldl (rq_add_new_packet R) ?dec (map (rq_deserialize R) ?pls)) = None))"
      using rec within by (intro block_fold) (auto simp: raptorq_recovers_def Let_def)
    moreover have "\<not> rq_deserialize_panics R pl"
      "rq_take_panics R (foldl (rq_add_new_packet R) ?dec (map (rq_deserialize R) ?pls)) (rq_deserialize R pl) = None"
      using takes [OF pk(1,2)] pk(3-5) within unfolding raptorq_takes_def Let_def by auto
    ultimately show ?thesis by (auto simp: block_panics_def)
  qed
  from accept_run_quiet [of kh ?d f R, OF this] snoc.IH [OF st] show ?case
    by (simp add: receive_run_append)
qed simp

lemma finish_collect_done:
  "finish_collect k (map Done blocks) = Inr blocks"
  by (induction blocks arbitrary: k) auto

definition sources_received ::
  "('cfg, 'enc, 'pkt, 'dec) raptorq \<Rightarrow> (bytes \<Rightarrow> bytes \<Rightarrow> bytes) \<Rightarrow> SessionParams \<Rightarrow> bytes \<Rightarrow>
   'dec PipelineDecoder \<Rightarrow> bytes list \<Rightarrow> bool" where
  "sources_received R kh params payload d fs \<longleftrightarrow>
     (\<forall>i < unat (sp_block_count params). block_data params payload i \<noteq> [] \<longrightarrow>
        set (block_packets R params (block_data params payload i) 0) \<subseteq>
        set (received_packets R kh d i fs))"

lemma delivered:
  assumes ok: "session_ok R kh sid key params payload p d"
    and dig: "blake3_digest h payload = sp_payload_digest params"
    and enc: "encode_to_bytes R kh p payload = Inr frames"
    and st: "session_stream R kh d frames fs"
    and src: "sources_received R kh params payload d fs"
  shows "decoder_finish h (receive R kh d fs) = Inr payload"
proof -
  let ?n = "unat (sp_block_count params)" and ?c = "chunk_params_of params"
  note m = session_maps [OF ok]
  have blk: "pd_blocks (receive R kh d fs) ! i = Done (block_data params payload i)" if i: "i < ?n" for i
  proof (cases "block_data params payload i = []")
    case True
    have "foldl (block_take R) (Done []) pls = Done []" for pls by (induction pls) auto
    with True show ?thesis using i m(6) initial_block [OF ok i] by (simp add: receive_block)
  next
    case False
    note within = received_within [OF ok enc st, of i]
    have "set (block_packets R params (block_data params payload i) 0) \<subseteq>
        set (received_packets R kh d i fs)"
      using src i False by (simp add: sources_received_def)
    with within False show ?thesis
      using i m(6) initial_block [OF ok i] block_recovered [OF session_block(5) [OF ok i False]]
      by (simp add: receive_block received_packets_def)
  qed
  have len: "length payload = unat (cp_payload_size ?c)"
    using ok by (simp add: session_ok_def chunk_params_of_def)
  have pb: "length (payload_blocks ?c payload) = ?n"
    using payload_blocks_props(1) [OF _ len] m(1) by (simp add: map_for_def chunk_params_of_def)
  have "pd_blocks (receive R kh d fs) = map Done (payload_blocks ?c payload)"
    using blk m(6) pb by (intro nth_equalityI) (auto simp: block_data_def)
  moreover have "payload_fits (pd_chunk_map d) payload"
    using m(5) map_for_blocks [OF m(5)] len by (simp add: payload_fits_def)
  then have "reassemble (pd_chunk_map d) (payload_blocks ?c payload) = Inr payload"
    using chunks.reasm_parts map_for_blocks [OF m(5)] by fastforce
  moreover have "pd_params d = params"
    using ok decoder_new_fields(2) by (auto simp: session_ok_def)
  ultimately show ?thesis
    using dig by (simp add: decoder_finish_def finish_collect_done)
qed

lemma all_frames_suffice:
  assumes ok: "session_ok R kh sid key params payload p d"
    and enc: "encode_to_bytes R kh p payload = Inr frames" and all: "set frames \<subseteq> set fs"
  shows "sources_received R kh params payload d fs"
  unfolding sources_received_def
proof (intro allI impI subsetI)
  fix i q
  let ?data = "block_data params payload i"
  assume i: "i < unat (sp_block_count params)" and ne: "?data \<noteq> []"
    and q: "q \<in> set (block_packets R params ?data 0)"
  note rec = session_block(5) [OF ok i ne]
  have qp: "q \<in> set (block_packets R params ?data (repair_count_of params))"
    using rec q by (auto simp: raptorq_recovers_def Let_def)
  then have "q \<in> snd ` set (enumerate 0 (block_packets R params ?data (repair_count_of params)))"
    by (metis list.set_map map_snd_enumerate)
  then obtain j where j: "(j, q) \<in> set (enumerate 0 (block_packets R params ?data (repair_count_of params)))"
    by force
  let ?g = "symbol_frame R kh sid key (of_nat i) j q"
  have "?g \<in> set (block_frames R kh sid key params payload i)"
    using j ne by (force simp: block_frames_def Let_def)
  then have "frame_into_vec ?g \<in> set frames"
    using enc i by (auto simp: encode_session [OF ok] set_interleave intro!: imageI bexI [of _ i])
  then have f: "frame_into_vec ?g \<in> set fs" using all by blast
  note l = recovers_lengths [OF rec session_maps(7) [OF ok] qp]
  have u: "unat (of_nat i :: u32) = i" using session_block(1,2) [OF ok i] by simp
  have d: "pd_session_id d = sid" "pd_session_key d = key"
    using ok decoder_new_fields(1,3) [of R sid params key d] by (auto simp: session_ok_def)
  have "admitted kh d (frame_into_vec ?g) = Inr (of_nat i, of_nat j, rq_serialize R q)"
    unfolding d using ok i u l session_maps(6) [OF ok]
    by (intro admits_symbol_frame) (auto simp: session_ok_def)
  with f u have "rq_serialize R q \<in> set (received_payloads kh d i fs)"
    unfolding received_payloads_iff by blast
  then show "q \<in> set (received_packets R kh d i fs)"
    using l(3) by (force simp: received_packets_def)
qed

section \<open>An instance\<close>

lemma whole_block_code_recovers:
  assumes "data \<noteq> []" and "length data \<le> unat (sp_symbol_size p)"
  shows "raptorq_recovers whole_block_code p data"
proof -
  have "foldl (\<lambda>_ q. Some q) None ps = Some data" if "set ps \<subseteq> {data}" "ps \<noteq> []" for ps
    using that by (induction ps rule: rev_induct) auto
  then have "foldl (\<lambda>_ q. Some q) None ps = None \<or> foldl (\<lambda>_ q. Some q) None ps = Some data"
    if "set ps \<subseteq> {data}" for ps using that by (cases "ps = []") auto
  moreover have "foldl (\<lambda>_ q. Some q) None ps = Some data" if "set ps \<subseteq> {data}" "data \<in> set ps" for ps
    using that by (induction ps rule: rev_induct) auto
  ultimately show ?thesis
    using assms
    by (simp add: raptorq_recovers_def block_packets_def block_cfg_def whole_block_code_def Let_def)
qed

lemma whole_block_code_takes: "raptorq_takes whole_block_code p data"
  by (simp add: raptorq_takes_def whole_block_code_def block_packets_def)

lemma small_session_ok:
  assumes "length sid = 16" and "length payload \<le> 64" and "keyed_hash_32 kh"
  shows "\<exists>p d. session_ok whole_block_code kh sid key (small_session h payload) payload p d"
proof -
  let ?p = "small_session h payload"
  obtain d where d: "decoder_new whole_block_code sid ?p key = Inr d"
    using small_session_decoder [OF assms(2)] by blast
  obtain p where p: "pipeline_new sid ?p key = Inr p"
    using small_session_chunks [OF assms(2), of h] small_session_valid [of h payload]
    by (auto simp: pipeline_new_def)
  have sz: "length payload = unat (sp_payload_size ?p)"
    using assms(2) by (simp add: small_session_def unat_of_nat)
  have "raptorq_recovers whole_block_code ?p data"
    if "data \<in> set (payload_blocks (chunk_params_of ?p) payload)" "data \<noteq> []" for data
  proof (rule whole_block_code_recovers [OF that(2)])
    from that(1) have "length data \<le> length payload"
      by (auto simp: payload_blocks_def Let_def)
    with assms(2) show "length data \<le> unat (sp_symbol_size ?p)" by (simp add: small_session_def)
  qed
  with d p sz assms show ?thesis by (auto simp: session_ok_def)
qed

section \<open>Properties\<close>

text \<open>C2: the transfer is loss-tolerant and order-independent. From any stream of the sender's
  frames, reordered, repeated, with repair frames missing and with arbitrary byte strings the
  receiver rejects in between, the receiver that got every source packet of every block delivers
  exactly the payload.\<close>

theorem transfer_delivers:
  assumes "session_ok R kh sid key params payload p d"
    and "blake3_digest h payload = sp_payload_digest params"
  shows "\<exists>frames. encode_to_bytes R kh p payload = Inr frames \<and>
     (\<forall>fs. session_stream R kh d frames fs \<and> sources_received R kh params payload d fs \<longrightarrow>
        decoder_finish h (receive R kh d fs) = Inr payload)"
  using encode_session [OF assms(1)] delivered [OF assms] by blast

theorem transfer_delivers_witness:
  "\<exists>p d frames. encode_to_bytes whole_block_code (\<lambda>k m. replicate 32 0) p [1, 2, 3] = Inr frames \<and>
     decoder_new whole_block_code (replicate 16 7) (small_session (\<lambda>m. replicate 32 0) [1, 2, 3])
       (replicate 32 5) = Inr d \<and>
     decoder_finish (\<lambda>m. replicate 32 0)
       (receive whole_block_code (\<lambda>k m. replicate 32 0) d ([9, 9] # rev frames)) = Inr [1, 2, 3]"
proof -
  let ?h = "\<lambda>m. replicate 32 0 :: bytes" and ?kh = "\<lambda>k m. replicate 32 0 :: bytes"
  let ?p = "small_session ?h [1, 2, 3]"
  obtain p d where ok: "session_ok whole_block_code ?kh (replicate 16 7) (replicate 32 5) ?p [1, 2, 3] p d"
    using small_session_ok [of "replicate 16 7" "[1, 2, 3]" ?kh] by (fastforce simp: keyed_hash_32_def)
  have dig: "blake3_digest ?h [1, 2, 3] = sp_payload_digest ?p"
    by (simp add: blake3_digest_def small_session_def)
  from transfer_delivers [OF ok dig] obtain frames where
    enc: "encode_to_bytes whole_block_code ?kh p [1, 2, 3] = Inr frames"
    and del: "\<And>fs. session_stream whole_block_code ?kh d frames fs \<Longrightarrow>
      sources_received whole_block_code ?kh ?p [1, 2, 3] d fs \<Longrightarrow>
      decoder_finish ?h (receive whole_block_code ?kh d fs) = Inr [1, 2, 3]"
    by blast
  have "\<not> is_ok (fst (decoder_accept whole_block_code ?kh d [9, 9]))"
    by (simp add: decoder_accept_def frame_from_bytes_def frame_header_from_bytes_def
        FRAME_HEADER_SIZE_def)
  then have "session_stream whole_block_code ?kh d frames ([9, 9] # rev frames)"
    by (simp add: session_stream_def)
  moreover have "sources_received whole_block_code ?kh ?p [1, 2, 3] d ([9, 9] # rev frames)"
    by (rule all_frames_suffice [OF ok enc]) auto
  ultimately show ?thesis using enc del ok unfolding session_ok_def by blast
qed

text \<open>Every frame the sender emits, received at least once in any order, delivers the payload.\<close>

theorem transfer_all_frames:
  assumes "session_ok R kh sid key params payload p d"
    and "blake3_digest h payload = sp_payload_digest params"
    and "encode_to_bytes R kh p payload = Inr frames" and "set fs = set frames"
  shows "decoder_finish h (receive R kh d fs) = Inr payload"
  using delivered [OF assms(1-3)] all_frames_suffice [OF assms(1,3)] assms(4)
  by (simp add: session_stream_def)

text \<open>A payload is only handed out if its digest is the one the session committed to.\<close>

theorem finish_verified:
  assumes "decoder_finish h d = Inr payload"
  shows "blake3_digest h payload = sp_payload_digest (pd_params d) \<and> is_complete d"
proof -
  have "finish_collect i bs = Inr blocks \<Longrightarrow> list_all is_done bs" for i bs blocks
    by (induction i bs arbitrary: blocks rule: finish_collect.induct) auto
  with assms show ?thesis by (auto simp: decoder_finish_def is_complete_def split: if_splits)
qed

end
