(* ===== verification/Qr.thy ===== *)
theory Qr
  imports Frame
begin

text \<open>
  QR encoding of \<open>core/dhow-codec/src/qr.rs\<close>. The encoder is the external crate \<open>qrcodegen\<close>:
  \<open>enc data ecc version\<close> stands for \<open>QrCode::encode_segments_advanced\<close> on one byte segment with
  the version fixed, no mask chosen and boosting off, \<open>encb data ecc\<close> for \<open>QrCode::encode_binary\<close>
  (both \<^const>\<open>None\<close> for \<open>Err\<close>), and \<open>gsize\<close>, \<open>gmod\<close> for the size and the modules of a code.
  A \<open>char\<close> is its code point.
\<close>

section \<open>The code\<close>

datatype Ecc = Low | Medium | Quartile | High

datatype QrError = DataTooLong nat u8 Ecc | InvalidVersion u8

definition to_ascii_uppercase :: "nat \<Rightarrow> nat" where
  "to_ascii_uppercase c = (if 97 \<le> c \<and> c \<le> 122 then c - 32 else c)"

definition from_letter :: "nat \<Rightarrow> Ecc option" where
  "from_letter c =
     (let u = to_ascii_uppercase c in
      if u = 76 then Some Low else if u = 77 then Some Medium
      else if u = 81 then Some Quartile else if u = 72 then Some High else None)"

fun letter :: "Ecc \<Rightarrow> nat" where
  "letter Low = 76"
| "letter Medium = 77"
| "letter Quartile = 81"
| "letter High = 72"

definition MIN_VERSION :: u8 where "MIN_VERSION = 1"
definition MAX_VERSION :: u8 where "MAX_VERSION = 40"

definition fits :: "(bytes \<Rightarrow> Ecc \<Rightarrow> u8 \<Rightarrow> 'qr option) \<Rightarrow> nat \<Rightarrow> u8 \<Rightarrow> Ecc \<Rightarrow> bool" where
  "fits enc len version ecc = (enc (replicate len 0) ecc version \<noteq> None)"

function capacity_search ::
  "(bytes \<Rightarrow> Ecc \<Rightarrow> u8 \<Rightarrow> 'qr option) \<Rightarrow> u8 \<Rightarrow> Ecc \<Rightarrow> nat \<Rightarrow> nat \<Rightarrow> nat" where
  "capacity_search enc version ecc low high =
     (if low < high then
        (let mid = low + div_ceil_usize (high - low) 2 in
         if fits enc mid version ecc then capacity_search enc version ecc mid high
         else capacity_search enc version ecc low (mid - 1))
      else low)"
  by pat_completeness auto

termination
proof (relation "measure (\<lambda>(enc, version, ecc, low, high). high - low)", goal_cases)
  case 1
  show ?case by simp
next
  case (2 enc version ecc low high mid)
  then show ?case using mid_bounds [of low high] by simp
next
  case (3 enc version ecc low high mid)
  then show ?case using mid_bounds [of low high] by simp
qed

declare capacity_search.simps [simp del]

definition capacity :: "(bytes \<Rightarrow> Ecc \<Rightarrow> u8 \<Rightarrow> 'qr option) \<Rightarrow> u8 \<Rightarrow> Ecc \<Rightarrow> QrError + nat" where
  "capacity enc version ecc =
     (if \<not> (MIN_VERSION \<le> version \<and> version \<le> MAX_VERSION) then Inl (InvalidVersion version)
      else Inr (capacity_search enc version ecc 0 4096))"

definition FRAME_OVERHEAD :: nat where "FRAME_OVERHEAD = FRAME_HEADER_SIZE + 4"

definition max_symbol_size ::
  "(bytes \<Rightarrow> Ecc \<Rightarrow> u8 \<Rightarrow> 'qr option) \<Rightarrow> u8 \<Rightarrow> Ecc \<Rightarrow> QrError + u32 option" where
  "max_symbol_size enc version ecc =
     res_bind (capacity enc version ecc) (\<lambda>cap.
       if cap \<le> FRAME_OVERHEAD then Inr None else Inr (Some (of_nat (cap - FRAME_OVERHEAD))))"

definition smallest_version_for ::
  "(bytes \<Rightarrow> Ecc \<Rightarrow> u8 \<Rightarrow> 'qr option) \<Rightarrow> nat \<Rightarrow> Ecc \<Rightarrow> u8 option" where
  "smallest_version_for enc len ecc =
     find (\<lambda>v. case capacity enc v ecc of Inr c \<Rightarrow> len \<le> c | Inl e \<Rightarrow> False)
       (map of_nat [unat MIN_VERSION..<Suc (unat MAX_VERSION)])"

record 'qr QrCodeEncoder =
  qc_inner :: 'qr
  qc_ecc :: Ecc

definition qr_encode_with ::
  "(bytes \<Rightarrow> Ecc \<Rightarrow> 'qr option) \<Rightarrow> bytes \<Rightarrow> Ecc \<Rightarrow> QrError + 'qr QrCodeEncoder" where
  "qr_encode_with encb data ecc =
     (case encb data ecc of
        None \<Rightarrow> Inl (DataTooLong (length data) MAX_VERSION ecc)
      | Some q \<Rightarrow> Inr \<lparr>qc_inner = q, qc_ecc = ecc\<rparr>)"

definition qr_encode ::
  "(bytes \<Rightarrow> Ecc \<Rightarrow> 'qr option) \<Rightarrow> bytes \<Rightarrow> QrError + 'qr QrCodeEncoder" where
  "qr_encode encb data = qr_encode_with encb data Medium"

definition qr_encode_at ::
  "(bytes \<Rightarrow> Ecc \<Rightarrow> u8 \<Rightarrow> 'qr option) \<Rightarrow> bytes \<Rightarrow> u8 \<Rightarrow> Ecc \<Rightarrow> QrError + 'qr QrCodeEncoder" where
  "qr_encode_at enc data version ecc =
     (if \<not> (MIN_VERSION \<le> version \<and> version \<le> MAX_VERSION) then Inl (InvalidVersion version)
      else res_bind (capacity enc version ecc) (\<lambda>cap.
        if length data > cap then Inl (DataTooLong (length data) version ecc)
        else (case enc data ecc version of
            None \<Rightarrow> Inl (DataTooLong (length data) version ecc)
          | Some q \<Rightarrow> Inr \<lparr>qc_inner = q, qc_ecc = ecc\<rparr>)))"

definition to_modules :: "('qr \<Rightarrow> nat) \<Rightarrow> ('qr \<Rightarrow> nat \<Rightarrow> nat \<Rightarrow> bool) \<Rightarrow> 'qr QrCodeEncoder \<Rightarrow> bytes" where
  "to_modules gsize gmod q =
     (let n = gsize (qc_inner q) in
      concat (map (\<lambda>y. map (\<lambda>x. if gmod (qc_inner q) x y then 1 else 0) [0..<n]) [0..<n]))"

definition to_terminal :: "('qr \<Rightarrow> nat) \<Rightarrow> ('qr \<Rightarrow> nat \<Rightarrow> nat \<Rightarrow> bool) \<Rightarrow> 'qr QrCodeEncoder \<Rightarrow> nat list" where
  "to_terminal gsize gmod q =
     (let n = gsize (qc_inner q) in
      concat (map (\<lambda>y. concat (map (\<lambda>x. if gmod (qc_inner q) x y then [0x2588, 0x2588] else [32, 32])
        [0..<n]) @ [10]) [0..<n]))"

section \<open>Lemmas\<close>

text \<open>What is relied on of the encoder: a byte segment is accepted depending on its length only,
  shorter ones whenever longer ones are, and none of more than 4096 bytes (the largest QR code holds
  2953).\<close>

definition qr_byte_mode :: "(bytes \<Rightarrow> Ecc \<Rightarrow> u8 \<Rightarrow> 'qr option) \<Rightarrow> bool" where
  "qr_byte_mode enc \<longleftrightarrow>
     (\<forall>data ecc v. enc data ecc v = None \<longleftrightarrow> enc (replicate (length data) 0) ecc v = None) \<and>
     (\<forall>m n ecc v. m \<le> n \<longrightarrow> enc (replicate n 0) ecc v \<noteq> None \<longrightarrow> enc (replicate m 0) ecc v \<noteq> None) \<and>
     (\<forall>ecc v. enc [] ecc v \<noteq> None) \<and> (\<forall>n ecc v. 4096 < n \<longrightarrow> enc (replicate n 0) ecc v = None)"

lemma capacity_search_max:
  assumes "\<And>m n. m \<le> n \<Longrightarrow> fits enc n v e \<Longrightarrow> fits enc m v e"
    and "fits enc low v e" and "\<And>n. high < n \<Longrightarrow> \<not> fits enc n v e" and "low \<le> high"
  shows "fits enc n v e \<longleftrightarrow> n \<le> capacity_search enc v e low high"
  using assms
proof (induction enc v e low high rule: capacity_search.induct)
  case (1 enc v e low high)
  let ?mid = "low + div_ceil_usize (high - low) 2"
  note mono = "1.prems"(1)
  show ?case
  proof (cases "low < high")
    case False
    then have eq: "low = high" using "1.prems"(4) by simp
    have "fits enc n v e \<longleftrightarrow> n \<le> high"
      using mono [of n high] "1.prems"(2,3) eq by (meson not_le)
    then show ?thesis using eq by (simp add: capacity_search.simps)
  next
    case True
    note mb = mid_bounds [OF True]
    show ?thesis
    proof (cases "fits enc ?mid v e")
      case fit: True
      have "fits enc n v e \<longleftrightarrow> n \<le> capacity_search enc v e ?mid high"
        by (rule "1.IH"(1) [OF True refl fit]) (use mono fit "1.prems"(3) mb(2) in blast)+
      then show ?thesis using True fit by (simp add: capacity_search.simps [of enc v e low high] Let_def)
    next
      case nofit: False
      have above: "\<not> fits enc k v e" if "?mid - 1 < k" for k
      proof -
        have "?mid \<le> k" using that by linarith
        with nofit mono show ?thesis by blast
      qed
      have "fits enc n v e \<longleftrightarrow> n \<le> capacity_search enc v e low (?mid - 1)"
        by (rule "1.IH"(2) [OF True refl nofit]) (use mono "1.prems"(2) above mb(1) in auto)
      then show ?thesis using True nofit by (simp add: capacity_search.simps [of enc v e low high] Let_def)
    qed
  qed
qed

lemma capacity_exact:
  assumes "qr_byte_mode enc" and "capacity enc v e = Inr c"
  shows "enc data e v \<noteq> None \<longleftrightarrow> length data \<le> c"
proof -
  have c: "c = capacity_search enc v e 0 4096"
    using assms(2) by (auto simp: capacity_def split: if_splits)
  have "fits enc n v e \<longleftrightarrow> n \<le> c" for n
    unfolding c using assms(1) by (intro capacity_search_max) (auto simp: qr_byte_mode_def fits_def)
  then show ?thesis
    using assms(1) by (metis fits_def qr_byte_mode_def)
qed

lemma encode_at_within:
  assumes "qr_byte_mode enc" and "max_symbol_size enc v e = Inr (Some n)"
    and "length data \<le> FRAME_OVERHEAD + unat n"
  shows "is_ok (qr_encode_at enc data v e)"
proof -
  from assms(2) obtain c where c: "capacity enc v e = Inr c" "50 < c" "n = of_nat (c - 50)"
    by (auto simp: max_symbol_size_def FRAME_OVERHEAD_def FRAME_HEADER_SIZE_def split: if_splits)
  have "unat n \<le> c - 50" by (simp add: c(3) unat_of_nat)
  then have len: "length data \<le> c"
    using assms(3) c(2) by (simp add: FRAME_OVERHEAD_def FRAME_HEADER_SIZE_def)
  then obtain q where "enc data e v = Some q"
    using capacity_exact [OF assms(1) c(1)] by blast
  moreover have "MIN_VERSION \<le> v \<and> v \<le> MAX_VERSION"
    using c(1) by (auto simp: capacity_def split: if_splits)
  ultimately show ?thesis using c(1) len by (simp add: qr_encode_at_def)
qed

section \<open>Properties\<close>

text \<open>C35: the binary search ends and finds the encoder's exact limit: at a valid version, a byte
  string is encodable if and only if it is no longer than \<open>capacity\<close>.\<close>

theorem qr_capacity_exact:
  assumes "qr_byte_mode enc" and "MIN_VERSION \<le> v" and "v \<le> MAX_VERSION"
  shows "\<exists>c. capacity enc v e = Inr c \<and> (\<forall>data. enc data e v \<noteq> None \<longleftrightarrow> length data \<le> c)"
  using capacity_exact [OF assms(1), of v e] assms(2,3) by (simp add: capacity_def)

text \<open>The encoder of the witnesses accepts up to one hundred bytes per version.\<close>

definition hundred_per_version :: "bytes \<Rightarrow> Ecc \<Rightarrow> u8 \<Rightarrow> bytes option" where
  "hundred_per_version data ecc v = (if length data \<le> min 4096 (100 * unat v) then Some data else None)"

lemma hundred_per_version_ok: "qr_byte_mode hundred_per_version"
  by (auto simp: qr_byte_mode_def hundred_per_version_def)

theorem qr_capacity_exact_witness:
  "\<exists>c. capacity hundred_per_version 3 Medium = Inr c \<and>
     (\<forall>data. hundred_per_version data Medium 3 \<noteq> None \<longleftrightarrow> length data \<le> c)"
  by (rule qr_capacity_exact [OF hundred_per_version_ok])
    (simp_all add: MIN_VERSION_def MAX_VERSION_def)

text \<open>A frame carrying a symbol of at most \<open>max_symbol_size\<close> bytes always fits one QR code of
  that version and level, and \<open>encode_at\<close> succeeds on it.\<close>

theorem max_symbol_size_fits:
  assumes "qr_byte_mode enc" and "max_symbol_size enc v e = Inr (Some n)"
    and "length sym_bytes \<le> unat n" and "length pid = 4" and "length hdr = FRAME_HEADER_SIZE"
  shows "\<exists>q. qr_encode_at enc (hdr @ pid @ sym_bytes) v e = Inr \<lparr>qc_inner = q, qc_ecc = e\<rparr>"
proof -
  have "is_ok (qr_encode_at enc (hdr @ pid @ sym_bytes) v e)"
    using assms(3-5) by (intro encode_at_within [OF assms(1,2)]) (simp add: FRAME_OVERHEAD_def)
  then show ?thesis
    by (auto simp: is_ok_iff qr_encode_at_def split: if_splits option.splits)
qed

text \<open>The module grid handed to the renderer has one byte per module, row by row, one for dark.\<close>

theorem to_modules_row_major:
  assumes "x < gsize (qc_inner q)" and "y < gsize (qc_inner q)"
  shows "to_modules gsize gmod q ! (y * gsize (qc_inner q) + x) =
     (if gmod (qc_inner q) x y then 1 else 0)"
proof -
  let ?n = "gsize (qc_inner q)" and ?k = "y * gsize (qc_inner q) + x"
  have row: "concat (map r [0..<m]) ! (y * ?n + x) = r y ! x"
    if "\<And>i. length (r i) = ?n" "y < m" for r :: "nat \<Rightarrow> bytes" and m
    using that
  proof (induction m)
    case (Suc m)
    have "length (concat (map r [0..<m])) = m * ?n"
      using Suc.prems(1) by (induction m) auto
    moreover have "y * ?n + x < m * ?n" if "y < m"
    proof -
      have "Suc y * ?n \<le> m * ?n" using that by (intro mult_le_mono1) simp
      with assms(1) show ?thesis by simp
    qed
    ultimately show ?case using Suc by (cases "y = m") (auto simp: nth_append)
  qed simp
  show ?thesis
    using row [of "\<lambda>y. map (\<lambda>x. if gmod (qc_inner q) x y then 1 else 0) [0..<?n]" ?n] assms
    by (simp add: to_modules_def Let_def)
qed

end
