(* ===== verification/Kdf_Aead.thy ===== *)
theory Kdf_Aead
  imports Frame
begin

text \<open>
  Key derivation and payload encryption: \<open>core/dhow-crypt/src/kdf.rs\<close> and
  \<open>core/dhow-crypt/src/aead.rs\<close>.

  BLAKE3's keyed hash is the parameter \<open>kh\<close>; the operating system's randomness is the value
  \<open>getrandom::fill\<close> produced (\<^const>\<open>None\<close> when it failed); XChaCha20-Poly1305 is the parameter
  record \<open>aead\<close>. What is erased, and what is not, is in \<open>Secret_Memory\<close>.
\<close>

section \<open>HKDF over BLAKE3\<close>

datatype AeadError =
    EncryptionFailed detail
  | DecryptionFailed detail
  | InvalidNonce detail
  | KeyDerivationFailed detail

definition SALT_LEN :: nat where "SALT_LEN = 32"
definition MAX_OKM_LEN :: nat where "MAX_OKM_LEN = 255 * 32"

text \<open>The byte strings \<open>b"dhow v1 payload encryption key"\<close> and \<open>b"dhow v1 frame session key"\<close>.\<close>

definition ascii :: "string \<Rightarrow> bytes" where
  "ascii cs = map (\<lambda>c. of_nat (of_char c)) cs"

definition INFO_PAYLOAD_KEY :: bytes where "INFO_PAYLOAD_KEY = ascii ''dhow v1 payload encryption key''"
definition INFO_SESSION_KEY :: bytes where "INFO_SESSION_KEY = ascii ''dhow v1 frame session key''"

definition salt_generate :: "bytes option \<Rightarrow> AeadError + bytes" where
  "salt_generate rnd =
     (case rnd of None \<Rightarrow> Inl (KeyDerivationFailed (Detail ''system randomness unavailable: {e}'' []))
      | Some bytes \<Rightarrow> Inr bytes)"

definition hkdf_extract :: "(bytes \<Rightarrow> bytes \<Rightarrow> bytes) \<Rightarrow> bytes \<Rightarrow> bytes \<Rightarrow> bytes" where
  "hkdf_extract kh salt ikm = kh salt ikm"

text \<open>The loop over \<open>counter in 1u8..=255\<close>, with its \<open>break\<close>.\<close>

fun hkdf_expand_loop ::
  "(bytes \<Rightarrow> bytes \<Rightarrow> bytes) \<Rightarrow> bytes \<Rightarrow> bytes \<Rightarrow> nat \<Rightarrow> u8 list \<Rightarrow> bytes \<Rightarrow> bytes \<Rightarrow> bytes" where
  "hkdf_expand_loop kh prk info out_len [] okm previous = okm"
| "hkdf_expand_loop kh prk info out_len (counter # counters) okm previous =
     (if length okm \<ge> out_len then okm
      else
        (let block = kh prk (previous @ info @ [counter]);
             n = min (out_len - length okm) (length block)
         in hkdf_expand_loop kh prk info out_len counters (okm @ take n block) block))"

definition hkdf_expand ::
  "(bytes \<Rightarrow> bytes \<Rightarrow> bytes) \<Rightarrow> bytes \<Rightarrow> bytes \<Rightarrow> nat \<Rightarrow> AeadError + bytes" where
  "hkdf_expand kh prk info out_len =
     (if out_len > MAX_OKM_LEN
        then Inl (KeyDerivationFailed (Detail ''requested {out_len} bytes, maximum is {MAX_OKM_LEN}''
               [out_len, MAX_OKM_LEN]))
      else Inr (hkdf_expand_loop kh prk info out_len (map of_nat [1..<256]) [] []))"

definition kdf_derive ::
  "(bytes \<Rightarrow> bytes \<Rightarrow> bytes) \<Rightarrow> bytes \<Rightarrow> bytes \<Rightarrow> bytes \<Rightarrow> nat \<Rightarrow> AeadError + bytes" where
  "kdf_derive kh salt ikm info out_len = hkdf_expand kh (hkdf_extract kh salt ikm) info out_len"

definition derive_key ::
  "(bytes \<Rightarrow> bytes \<Rightarrow> bytes) \<Rightarrow> bytes \<Rightarrow> bytes \<Rightarrow> bytes \<Rightarrow> AeadError + bytes" where
  "derive_key kh salt ikm info =
     res_bind (kdf_derive kh salt ikm info 32) (\<lambda>bytes. Inr bytes)"

section \<open>Payload encryption\<close>

definition NONCE_LEN :: nat where "NONCE_LEN = 24"
definition TAG_LEN :: nat where "TAG_LEN = 16"

definition nonce_generate :: "bytes option \<Rightarrow> AeadError + bytes" where
  "nonce_generate rnd =
     (case rnd of None \<Rightarrow> Inl (InvalidNonce (Detail ''system randomness unavailable: {e}'' []))
      | Some bytes \<Rightarrow> Inr bytes)"

record TransferKeys =
  tk_payload_key :: bytes
  tk_session_key :: bytes

definition transfer_keys_derive ::
  "(bytes \<Rightarrow> bytes \<Rightarrow> bytes) \<Rightarrow> bytes \<Rightarrow> bytes \<Rightarrow> AeadError + TransferKeys" where
  "transfer_keys_derive kh operator salt =
     res_bind (derive_key kh salt operator INFO_PAYLOAD_KEY) (\<lambda>payload_key.
       res_bind (derive_key kh salt operator INFO_SESSION_KEY) (\<lambda>session_key.
         Inr \<lparr>tk_payload_key = payload_key, tk_session_key = session_key\<rparr>))"

record TransferParameters =
  tp_salt :: bytes
  tp_nonce :: bytes

definition transfer_parameters_generate ::
  "bytes option \<Rightarrow> bytes option \<Rightarrow> AeadError + TransferParameters" where
  "transfer_parameters_generate rnd1 rnd2 =
     res_bind (salt_generate rnd1) (\<lambda>salt.
       res_bind (nonce_generate rnd2) (\<lambda>nonce. Inr \<lparr>tp_salt = salt, tp_nonce = nonce\<rparr>))"

text \<open>The cipher: key, nonce, associated data, then the text.\<close>

record aead =
  ae_encrypt :: "bytes \<Rightarrow> bytes \<Rightarrow> bytes \<Rightarrow> bytes \<Rightarrow> bytes option"
  ae_decrypt :: "bytes \<Rightarrow> bytes \<Rightarrow> bytes \<Rightarrow> bytes \<Rightarrow> bytes option"
  ae_decrypt_in_place :: "bytes \<Rightarrow> bytes \<Rightarrow> bytes \<Rightarrow> bytes \<Rightarrow> bytes option"

text \<open>\<open>new_from_slice\<close> accepts exactly keys of 32 bytes.\<close>

definition cipher_key_ok :: "bytes \<Rightarrow> bool" where
  "cipher_key_ok key \<longleftrightarrow> length key = 32"

definition encrypt_payload ::
  "aead \<Rightarrow> TransferKeys \<Rightarrow> bytes \<Rightarrow> bytes \<Rightarrow> bytes \<Rightarrow> AeadError + bytes" where
  "encrypt_payload A keys nonce session_id plaintext =
     (if \<not> cipher_key_ok (tk_payload_key keys)
        then Inl (EncryptionFailed (Detail ''payload key is not a valid XChaCha20-Poly1305 key'' []))
      else (case ae_encrypt A (tk_payload_key keys) nonce session_id plaintext of
          None \<Rightarrow> Inl (EncryptionFailed (Detail ''AEAD encryption failed'' []))
        | Some ct \<Rightarrow> Inr ct))"

definition decrypt_payload_in_place ::
  "aead \<Rightarrow> TransferKeys \<Rightarrow> bytes \<Rightarrow> bytes \<Rightarrow> bytes \<Rightarrow> AeadError + bytes" where
  "decrypt_payload_in_place A keys nonce session_id buffer =
     (if length buffer < TAG_LEN
        then Inl (DecryptionFailed (Detail ''ciphertext is shorter than the {TAG_LEN}-byte tag'' [TAG_LEN]))
      else if \<not> cipher_key_ok (tk_payload_key keys)
        then Inl (DecryptionFailed (Detail ''payload key is not a valid XChaCha20-Poly1305 key'' []))
      else (case ae_decrypt_in_place A (tk_payload_key keys) nonce session_id buffer of
          None \<Rightarrow> Inl (DecryptionFailed (Detail ''authentication failed'' []))
        | Some buffer' \<Rightarrow> Inr buffer'))"

definition decrypt_payload ::
  "aead \<Rightarrow> TransferKeys \<Rightarrow> bytes \<Rightarrow> bytes \<Rightarrow> bytes \<Rightarrow> AeadError + bytes" where
  "decrypt_payload A keys nonce session_id ciphertext =
     (if length ciphertext < TAG_LEN
        then Inl (DecryptionFailed (Detail ''ciphertext is shorter than the {TAG_LEN}-byte tag'' [TAG_LEN]))
      else if \<not> cipher_key_ok (tk_payload_key keys)
        then Inl (DecryptionFailed (Detail ''payload key is not a valid XChaCha20-Poly1305 key'' []))
      else (case ae_decrypt A (tk_payload_key keys) nonce session_id ciphertext of
          None \<Rightarrow> Inl (DecryptionFailed (Detail ''authentication failed'' []))
        | Some plaintext \<Rightarrow> Inr plaintext))"

definition ciphertext_len :: "nat \<Rightarrow> nat" where
  "ciphertext_len plaintext_len = plaintext_len + TAG_LEN"

section \<open>The specification of HKDF-Expand\<close>

text \<open>RFC 5869: \<open>T(0)\<close> is empty, \<open>T(i)\<close> is the keyed hash of \<open>T(i-1)\<close>, the info string and the
  counter.\<close>

primrec hkdf_T :: "(bytes \<Rightarrow> bytes \<Rightarrow> bytes) \<Rightarrow> bytes \<Rightarrow> bytes \<Rightarrow> nat \<Rightarrow> bytes" where
  "hkdf_T kh prk info 0 = []"
| "hkdf_T kh prk info (Suc i) = kh prk (hkdf_T kh prk info i @ info @ [of_nat (Suc i)])"

lemma length_concat_T:
  "keyed_hash_32 kh \<Longrightarrow> length (concat (map (hkdf_T kh prk info) [Suc i..<Suc i + n])) = 32 * n"
proof (induction n)
  case (Suc n)
  have "length (hkdf_T kh prk info (Suc i + n)) = 32"
    using Suc.prems by (simp add: keyed_hash_32_def)
  with Suc show ?case by simp
qed simp

lemma hkdf_expand_loop_eq:
  assumes "keyed_hash_32 kh" and "length okm \<le> out_len"
  shows "hkdf_expand_loop kh prk info out_len (map of_nat [Suc i..<Suc i + n]) okm (hkdf_T kh prk info i) =
    okm @ take (out_len - length okm) (concat (map (hkdf_T kh prk info) [Suc i..<Suc i + n]))"
  using assms(2)
proof (induction n arbitrary: i okm)
  case 0
  show ?case by simp
next
  case (Suc n)
  have u: "[Suc i..<Suc i + Suc n] = Suc i # [Suc (Suc i)..<Suc (Suc i) + n]"
    by (simp add: upt_conv_Cons del: upt_Suc)
  define b where "b = hkdf_T kh prk info (Suc i)"
  define cs where "cs = map (of_nat :: nat \<Rightarrow> u8) [Suc (Suc i)..<Suc (Suc i) + n]"
  define rest where "rest = concat (map (hkdf_T kh prk info) [Suc (Suc i)..<Suc (Suc i) + n])"
  have blen: "length b = 32" using assms(1) by (simp add: b_def keyed_hash_32_def)
  have kb: "kh prk (hkdf_T kh prk info i @ info @ [of_nat (Suc i)]) = b" by (simp add: b_def)
  have IH: "hkdf_expand_loop kh prk info out_len cs okm' b = okm' @ take (out_len - length okm') rest"
    if "length okm' \<le> out_len" for okm'
    using Suc.IH [OF that, of "Suc i"] by (simp only: b_def cs_def rest_def)
  have "hkdf_expand_loop kh prk info out_len (of_nat (Suc i) # cs) okm (hkdf_T kh prk info i) =
      okm @ take (out_len - length okm) (b @ rest)"
  proof (cases "length okm \<ge> out_len")
    case True
    then show ?thesis by simp
  next
    case False
    let ?okm' = "okm @ take (min (out_len - length okm) 32) b"
    have "hkdf_expand_loop kh prk info out_len (of_nat (Suc i) # cs) okm (hkdf_T kh prk info i) =
        hkdf_expand_loop kh prk info out_len cs ?okm' b"
      using False unfolding hkdf_expand_loop.simps kb by (simp add: Let_def blen)
    also have "\<dots> = ?okm' @ take (out_len - length ?okm') rest"
      using False blen by (intro IH) simp
    also have "\<dots> = okm @ take (out_len - length okm) (b @ rest)"
      using False blen by (cases "out_len - length okm \<le> 32") (simp_all add: min_def)
    finally show ?thesis .
  qed
  then show ?case unfolding u by (simp only: b_def cs_def rest_def list.map concat.simps)
qed

lemma hkdf_expand_eq:
  assumes "keyed_hash_32 kh" and "out_len \<le> 8160"
  shows "hkdf_expand kh prk info out_len =
    Inr (take out_len (concat (map (hkdf_T kh prk info) [1..<256])))"
  using hkdf_expand_loop_eq [OF assms(1), of "[]" out_len prk info 0 255] assms(2)
  by (simp add: hkdf_expand_def MAX_OKM_LEN_def del: upt_rec_numeral upt_Suc)

lemma derive_key_eq:
  assumes "keyed_hash_32 kh"
  shows "derive_key kh salt ikm info = Inr (kh (kh salt ikm) (info @ [1]))"
proof -
  have "[1..<256] = (1::nat) # [Suc 1..<256]" by (rule upt_conv_Cons) simp
  then show ?thesis
    using hkdf_expand_eq [OF assms, of 32] assms
    by (simp add: derive_key_def kdf_derive_def hkdf_extract_def keyed_hash_32_def
        del: upt_rec_numeral upt_Suc)
qed

text \<open>What is relied on of the cipher: decryption undoes encryption under the same key, nonce and
  associated data, the tag has 16 bytes, and the in-place form is the same function.\<close>

definition aead_correct :: "aead \<Rightarrow> bool" where
  "aead_correct A \<longleftrightarrow>
     (\<forall>k n a m c. ae_encrypt A k n a m = Some c \<longrightarrow>
        length c = length m + 16 \<and> ae_decrypt A k n a c = Some m) \<and>
     ae_decrypt_in_place A = ae_decrypt A"

lemma aead_correctD:
  assumes "aead_correct A"
  shows "ae_encrypt A k n a m = Some c \<Longrightarrow> length c = length m + 16 \<and> ae_decrypt A k n a c = Some m"
    and "ae_decrypt_in_place A = ae_decrypt A"
  using assms unfolding aead_correct_def by blast+

lemma decrypt_encrypt:
  assumes "aead_correct A" and "encrypt_payload A keys nonce sid m = Inr c"
  shows "length c = length m + 16" "decrypt_payload A keys nonce sid c = Inr m"
proof -
  from assms(2) have k: "cipher_key_ok (tk_payload_key keys)"
    and e: "ae_encrypt A (tk_payload_key keys) nonce sid m = Some c"
    by (auto simp: encrypt_payload_def split: if_splits option.splits)
  from aead_correctD(1) [OF assms(1) e] k
  show "length c = length m + 16" "decrypt_payload A keys nonce sid c = Inr m"
    by (simp_all add: decrypt_payload_def TAG_LEN_def)
qed

lemma decrypt_in_place_eq:
  "aead_correct A \<Longrightarrow> decrypt_payload_in_place A keys nonce sid buf = decrypt_payload A keys nonce sid buf"
  by (simp add: decrypt_payload_def decrypt_payload_in_place_def aead_correctD(2))

section \<open>Properties\<close>

text \<open>C30: the expand loop computes RFC 5869: the first \<open>out_len\<close> bytes of \<open>T(1) T(2) ...\<close>, exactly as
  many as asked for, up to the limit of 255 blocks, and an error above it.\<close>

theorem hkdf_expand_rfc5869:
  assumes "keyed_hash_32 kh"
  shows "if out_len \<le> 255 * 32
     then hkdf_expand kh prk info out_len =
            Inr (take out_len (concat (map (hkdf_T kh prk info) [1..<256]))) \<and>
          length (take out_len (concat (map (hkdf_T kh prk info) [1..<256]))) = out_len
     else \<not> is_ok (hkdf_expand kh prk info out_len)"
proof (cases "out_len \<le> 8160")
  case True
  have "length (concat (map (hkdf_T kh prk info) [1..<256])) = 8160"
    using length_concat_T [OF assms, of prk info 0 255] by (simp del: upt_rec_numeral upt_Suc)
  then show ?thesis using hkdf_expand_eq [OF assms True] True by (simp del: upt_rec_numeral upt_Suc)
next
  case False
  then show ?thesis by (simp add: hkdf_expand_def MAX_OKM_LEN_def)
qed

theorem hkdf_expand_rfc5869_witness:
  "hkdf_expand (\<lambda>k m. replicate 32 (of_nat (length m))) [] [7] 33 =
     Inr (take 33 (concat (map (hkdf_T (\<lambda>k m. replicate 32 (of_nat (length m))) [] [7]) [1..<256])))"
proof -
  have "keyed_hash_32 (\<lambda>k m. replicate 32 (of_nat (length m)))" by (simp add: keyed_hash_32_def)
  from hkdf_expand_rfc5869 [OF this, of 33 "[]" "[7]"] show ?thesis
    by (simp del: upt_rec_numeral upt_Suc)
qed

text \<open>The two keys of a transfer are keyed hashes, under the extracted key, of two different
  messages: neither info string's derivation is a prefix of or equal to the other's.\<close>

theorem transfer_keys_separated:
  assumes "keyed_hash_32 kh"
  shows "\<exists>m1 m2. m1 \<noteq> m2 \<and> transfer_keys_derive kh operator salt =
     Inr \<lparr>tk_payload_key = kh (kh salt operator) m1, tk_session_key = kh (kh salt operator) m2\<rparr>"
proof -
  have "INFO_PAYLOAD_KEY @ [1] \<noteq> INFO_SESSION_KEY @ [1]"
    by (simp add: INFO_PAYLOAD_KEY_def INFO_SESSION_KEY_def ascii_def)
  moreover have "transfer_keys_derive kh operator salt =
      Inr \<lparr>tk_payload_key = kh (kh salt operator) (INFO_PAYLOAD_KEY @ [1]),
           tk_session_key = kh (kh salt operator) (INFO_SESSION_KEY @ [1])\<rparr>"
    by (simp add: transfer_keys_derive_def derive_key_eq [OF assms])
  ultimately show ?thesis by blast
qed

text \<open>Decryption with the session it was encrypted for returns the plaintext, the ciphertext is
  exactly \<open>ciphertext_len\<close> bytes, and the in-place form agrees with the borrowing one on every input.\<close>

theorem payload_encryption_roundtrip:
  assumes "aead_correct A" and "encrypt_payload A keys nonce session_id plaintext = Inr ct"
  shows "decrypt_payload A keys nonce session_id ct = Inr plaintext \<and>
     decrypt_payload_in_place A keys nonce session_id ct = Inr plaintext \<and>
     length ct = ciphertext_len (length plaintext)"
  using decrypt_encrypt [OF assms] decrypt_in_place_eq [OF assms(1)]
  by (simp add: ciphertext_len_def TAG_LEN_def)

text \<open>The cipher of the witnesses appends a tag made of the key, nonce and data lengths.\<close>

definition tagging_cipher :: aead where
  "tagging_cipher =
     (let tag = \<lambda>k n a m. replicate 16 (of_nat (length k + length n + length a));
          dec = \<lambda>k n a c. (if 16 \<le> length c \<and> drop (length c - 16) c = tag k n a (take (length c - 16) c)
                          then Some (take (length c - 16) c) else None)
      in \<lparr>ae_encrypt = \<lambda>k n a m. Some (m @ tag k n a m), ae_decrypt = dec, ae_decrypt_in_place = dec\<rparr>)"

lemma tagging_cipher_correct: "aead_correct tagging_cipher"
  by (simp add: aead_correct_def tagging_cipher_def Let_def)

end
