(* ===== verification/Key_Files.thy ===== *)
theory Key_Files
  imports Session_Header
begin

text \<open>
  Key generation, storage and loading: \<open>core/dhow-crypt/src/key.rs\<close>.

  Ed25519 is the parameter record \<open>ed25519\<close>, BLAKE3 the parameter \<open>h\<close>. The file system is modelled
  as the source uses it on Unix: a map from paths to mode and contents, on which \<open>open\<close> with
  \<open>create\<close>/\<open>truncate\<close>/\<open>mode\<close>, \<open>write_all\<close>, \<open>set_permissions\<close>, \<open>metadata\<close> and \<open>read\<close> act; which of
  the calls the operating system lets succeed is the parameter \<open>os\<close>, and \<open>umask\<close> the process mask.
  Erasure and constant-time comparison are in \<open>Secret_Memory\<close>.
\<close>

section \<open>The code\<close>

datatype KeyError =
    GenerationFailed detail
  | KeyInvalidMagic bytes bytes
  | KeyUnsupportedVersion u8
  | KeyTruncated nat nat
  | InsecurePermissions u32
  | InvalidKey detail
  | ZeroizationFailed

record ('sk, 'vk) ed25519 =
  ed_from_bytes :: "bytes \<Rightarrow> 'sk"
  ed_to_bytes :: "'sk \<Rightarrow> bytes"
  ed_verifying_key :: "'sk \<Rightarrow> 'vk"
  ed_sign :: "'sk \<Rightarrow> bytes \<Rightarrow> bytes"
  ed_vk_from_bytes :: "bytes \<Rightarrow> 'vk option"
  ed_vk_to_bytes :: "'vk \<Rightarrow> bytes"
  ed_verify :: "'vk \<Rightarrow> bytes \<Rightarrow> bytes \<Rightarrow> bool"

definition KEY_MAGIC :: bytes where "KEY_MAGIC = [0x44, 0x48, 0x4B, 0x59]"
definition KEY_VERSION :: u8 where "KEY_VERSION = 1"
definition KEY_MATERIAL_LEN :: nat where "KEY_MATERIAL_LEN = 32"
definition KEY_FILE_SIZE :: nat where "KEY_FILE_SIZE = 72"
definition CHECKSUM_OFFSET :: nat where "CHECKSUM_OFFSET = 40"
definition FORBIDDEN_MODE_BITS :: u32 where "FORBIDDEN_MODE_BITS = 0x3F"

datatype KeyKind = KindIdentity | KindOperator

fun key_kind_u8 :: "KeyKind \<Rightarrow> u8" where
  "key_kind_u8 KindIdentity = 1"
| "key_kind_u8 KindOperator = 2"

definition key_kind_from_u8 :: "u8 \<Rightarrow> KeyError + KeyKind" where
  "key_kind_from_u8 value =
     (if value = 1 then Inr KindIdentity
      else if value = 2 then Inr KindOperator
      else Inl (InvalidKey (Detail ''unknown key kind {value}'' [unat value])))"

definition random_bytes :: "bytes option \<Rightarrow> KeyError + bytes" where
  "random_bytes rnd =
     (case rnd of None \<Rightarrow> Inl (GenerationFailed (Detail ''system randomness unavailable: {e}'' []))
      | Some bytes \<Rightarrow> Inr bytes)"

record OperatorKey =
  ok_bytes :: bytes

definition operator_generate :: "bytes option \<Rightarrow> KeyError + OperatorKey" where
  "operator_generate rnd = res_bind (random_bytes rnd) (\<lambda>bytes. Inr \<lparr>ok_bytes = bytes\<rparr>)"

record 'sk IdentityKey =
  ik_signing :: 'sk

definition identity_from_seed :: "('sk, 'vk) ed25519 \<Rightarrow> bytes \<Rightarrow> 'sk IdentityKey" where
  "identity_from_seed E seed = \<lparr>ik_signing = ed_from_bytes E seed\<rparr>"

definition identity_generate :: "('sk, 'vk) ed25519 \<Rightarrow> bytes option \<Rightarrow> KeyError + 'sk IdentityKey" where
  "identity_generate E rnd =
     res_bind (random_bytes rnd) (\<lambda>seed. Inr \<lparr>ik_signing = ed_from_bytes E seed\<rparr>)"

record 'vk PublicIdentity =
  pi_verifying :: 'vk

definition identity_public :: "('sk, 'vk) ed25519 \<Rightarrow> 'sk IdentityKey \<Rightarrow> 'vk PublicIdentity" where
  "identity_public E k = \<lparr>pi_verifying = ed_verifying_key E (ik_signing k)\<rparr>"

definition identity_sign :: "('sk, 'vk) ed25519 \<Rightarrow> 'sk IdentityKey \<Rightarrow> bytes \<Rightarrow> bytes" where
  "identity_sign E k message = ed_sign E (ik_signing k) message"

definition expose_seed :: "('sk, 'vk) ed25519 \<Rightarrow> 'sk IdentityKey \<Rightarrow> bytes" where
  "expose_seed E k = ed_to_bytes E (ik_signing k)"

definition public_from_bytes :: "('sk, 'vk) ed25519 \<Rightarrow> bytes \<Rightarrow> KeyError + 'vk PublicIdentity" where
  "public_from_bytes E bytes =
     (case ed_vk_from_bytes E bytes of
        Some v \<Rightarrow> Inr \<lparr>pi_verifying = v\<rparr>
      | None \<Rightarrow> Inl (InvalidKey (Detail ''not a valid Ed25519 public key: {e}'' [])))"

definition public_to_bytes :: "('sk, 'vk) ed25519 \<Rightarrow> 'vk PublicIdentity \<Rightarrow> bytes" where
  "public_to_bytes E p = ed_vk_to_bytes E (pi_verifying p)"

definition public_verify :: "('sk, 'vk) ed25519 \<Rightarrow> 'vk PublicIdentity \<Rightarrow> bytes \<Rightarrow> bytes \<Rightarrow> bool" where
  "public_verify E p message signature = ed_verify E (pi_verifying p) message signature"

text \<open>\<open>format!("{b:02x}")\<close>.\<close>

definition hex_digit :: "nat \<Rightarrow> char" where
  "hex_digit n = ''0123456789abcdef'' ! n"

definition hex_byte :: "u8 \<Rightarrow> string" where
  "hex_byte b = [hex_digit (unat b div 16), hex_digit (unat b mod 16)]"

fun join_colon :: "string list \<Rightarrow> string" where
  "join_colon [] = ''''"
| "join_colon [x] = x"
| "join_colon (x # xs) = x @ '':'' @ join_colon xs"

definition fingerprint :: "(bytes \<Rightarrow> bytes) \<Rightarrow> ('sk, 'vk) ed25519 \<Rightarrow> 'vk PublicIdentity \<Rightarrow> string" where
  "fingerprint h E p = join_colon (map hex_byte (take 8 (h (public_to_bytes E p))))"

definition encode_key_file :: "(bytes \<Rightarrow> bytes) \<Rightarrow> KeyKind \<Rightarrow> bytes \<Rightarrow> bytes" where
  "encode_key_file h kind material =
     (let buf = KEY_MAGIC @ [KEY_VERSION] @ [key_kind_u8 kind] @ replicate 2 0 @ material
      in buf @ h buf)"

definition decode_key_file :: "(bytes \<Rightarrow> bytes) \<Rightarrow> bytes \<Rightarrow> KeyError + KeyKind \<times> bytes" where
  "decode_key_file h bytes =
     (if length bytes \<noteq> KEY_FILE_SIZE then Inl (KeyTruncated KEY_FILE_SIZE (length bytes))
      else if slice 0 4 bytes \<noteq> KEY_MAGIC then Inl (KeyInvalidMagic KEY_MAGIC (slice 0 4 bytes))
      else if bytes ! 4 \<noteq> KEY_VERSION then Inl (KeyUnsupportedVersion (bytes ! 4))
      else res_bind (key_kind_from_u8 (bytes ! 5)) (\<lambda>kind.
        if slice 6 8 bytes \<noteq> replicate 2 0
          then Inl (InvalidKey (Detail ''reserved field must be zero'' []))
        else if h (take CHECKSUM_OFFSET bytes) \<noteq> drop CHECKSUM_OFFSET bytes
          then Inl (InvalidKey (Detail ''key file checksum mismatch'' []))
        else Inr (kind, slice 8 CHECKSUM_OFFSET bytes)))"

section \<open>The file system\<close>

type_synonym path = string
type_synonym files = "path \<Rightarrow> (u32 \<times> bytes) option"

record os =
  os_open :: "path \<Rightarrow> bool"
  os_write :: "path \<Rightarrow> bool"
  os_chmod :: "path \<Rightarrow> bool"
  os_stat :: "path \<Rightarrow> bool"
  os_read :: "path \<Rightarrow> bool"

text \<open>Opening with \<open>create\<close>, \<open>truncate\<close> and \<open>mode\<close>: an existing file keeps its mode, a new one gets the
  requested bits that the mask leaves.\<close>

definition fs_open :: "u32 \<Rightarrow> u32 \<Rightarrow> path \<Rightarrow> files \<Rightarrow> files" where
  "fs_open umask mode p F =
     F(p \<mapsto> ((case F p of Some (m, _) \<Rightarrow> m | None \<Rightarrow> mode AND NOT umask), []))"

definition fs_write :: "path \<Rightarrow> bytes \<Rightarrow> files \<Rightarrow> files" where
  "fs_write p bytes F = (case F p of Some (m, _) \<Rightarrow> F(p \<mapsto> (m, bytes)) | None \<Rightarrow> F)"

definition fs_chmod :: "u32 \<Rightarrow> path \<Rightarrow> files \<Rightarrow> files" where
  "fs_chmod mode p F = (case F p of Some (_, c) \<Rightarrow> F(p \<mapsto> (mode, c)) | None \<Rightarrow> F)"

text \<open>\<open>write_owner_only\<close> returns its result and the states of the file system it passes through, in
  order; the last is the final one.\<close>

definition write_owner_only ::
  "os \<Rightarrow> u32 \<Rightarrow> path \<Rightarrow> bytes \<Rightarrow> files \<Rightarrow> (KeyError + unit) \<times> files list" where
  "write_owner_only S umask p bytes F =
     (if \<not> os_open S p then (Inl (GenerationFailed (Detail ''cannot create key file: {e}'' [])), [F])
      else
        (let F1 = fs_open umask 0x180 p F in
         if \<not> os_write S p
           then (Inl (GenerationFailed (Detail ''cannot write key file: {e}'' [])), [F, F1])
         else
           (let F2 = fs_write p bytes F1 in
            if \<not> os_chmod S p
              then (Inl (GenerationFailed (Detail ''cannot set key file permissions: {e}'' [])), [F, F1, F2])
            else (Inr (), [F, F1, F2, fs_chmod 0x180 p F2]))))"

definition check_permissions :: "os \<Rightarrow> path \<Rightarrow> files \<Rightarrow> KeyError + unit" where
  "check_permissions S p F =
     (case (if os_stat S p then F p else None) of
        None \<Rightarrow> Inl (InvalidKey (Detail ''cannot stat key file: {e}'' []))
      | Some (m, _) \<Rightarrow>
          (let mode = m AND 0x1FF in
           if mode AND FORBIDDEN_MODE_BITS \<noteq> 0 then Inl (InsecurePermissions mode) else Inr ()))"

datatype 'sk SecretKey = SkIdentity "'sk IdentityKey" | SkOperator OperatorKey

definition save_identity ::
  "(bytes \<Rightarrow> bytes) \<Rightarrow> ('sk, 'vk) ed25519 \<Rightarrow> os \<Rightarrow> u32 \<Rightarrow> path \<Rightarrow> 'sk IdentityKey \<Rightarrow> files \<Rightarrow>
   (KeyError + unit) \<times> files list" where
  "save_identity h E S umask p key F =
     write_owner_only S umask p (encode_key_file h KindIdentity (expose_seed E key)) F"

definition save_operator ::
  "(bytes \<Rightarrow> bytes) \<Rightarrow> os \<Rightarrow> u32 \<Rightarrow> path \<Rightarrow> OperatorKey \<Rightarrow> files \<Rightarrow> (KeyError + unit) \<times> files list" where
  "save_operator h S umask p key F =
     write_owner_only S umask p (encode_key_file h KindOperator (ok_bytes key)) F"

definition fs_read :: "os \<Rightarrow> path \<Rightarrow> files \<Rightarrow> bytes option" where
  "fs_read S p F = (if os_read S p then map_option snd (F p) else None)"

definition load_secret ::
  "(bytes \<Rightarrow> bytes) \<Rightarrow> ('sk, 'vk) ed25519 \<Rightarrow> os \<Rightarrow> path \<Rightarrow> files \<Rightarrow> KeyError + 'sk SecretKey" where
  "load_secret h E S p F =
     res_bind (check_permissions S p F) (\<lambda>_.
       case fs_read S p F of
         None \<Rightarrow> Inl (InvalidKey (Detail ''cannot read key file: {e}'' []))
       | Some bytes \<Rightarrow>
           res_bind (decode_key_file h bytes) (\<lambda>(kind, material).
             Inr (case kind of
                KindIdentity \<Rightarrow> SkIdentity (identity_from_seed E material)
              | KindOperator \<Rightarrow> SkOperator \<lparr>ok_bytes = material\<rparr>)))"

definition load_identity ::
  "(bytes \<Rightarrow> bytes) \<Rightarrow> ('sk, 'vk) ed25519 \<Rightarrow> os \<Rightarrow> path \<Rightarrow> files \<Rightarrow> KeyError + 'sk IdentityKey" where
  "load_identity h E S p F =
     res_bind (load_secret h E S p F) (\<lambda>s. case s of
         SkIdentity k \<Rightarrow> Inr k
       | SkOperator _ \<Rightarrow> Inl (InvalidKey (Detail ''expected an identity key, found an operator key'' [])))"

definition load_operator ::
  "(bytes \<Rightarrow> bytes) \<Rightarrow> ('sk, 'vk) ed25519 \<Rightarrow> os \<Rightarrow> path \<Rightarrow> files \<Rightarrow> KeyError + OperatorKey" where
  "load_operator h E S p F =
     res_bind (load_secret h E S p F) (\<lambda>s. case s of
         SkOperator k \<Rightarrow> Inr k
       | SkIdentity _ \<Rightarrow> Inl (InvalidKey (Detail ''expected an operator key, found an identity key'' [])))"

definition save_public ::
  "('sk, 'vk) ed25519 \<Rightarrow> os \<Rightarrow> u32 \<Rightarrow> path \<Rightarrow> 'vk PublicIdentity \<Rightarrow> files \<Rightarrow> (KeyError + unit) \<times> files" where
  "save_public E S umask p pk F =
     (if \<not> os_open S p
        then (Inl (GenerationFailed (Detail ''cannot write public key file: {e}'' [])), F)
      else
        (let F1 = fs_open umask 0x1B6 p F in
         if \<not> os_write S p
           then (Inl (GenerationFailed (Detail ''cannot write public key file: {e}'' [])), F1)
         else (Inr (), fs_write p (public_to_bytes E pk) F1)))"

definition load_public ::
  "('sk, 'vk) ed25519 \<Rightarrow> os \<Rightarrow> path \<Rightarrow> files \<Rightarrow> KeyError + 'vk PublicIdentity" where
  "load_public E S p F =
     (case fs_read S p F of
        None \<Rightarrow> Inl (InvalidKey (Detail ''cannot read public key file: {e}'' []))
      | Some bytes \<Rightarrow>
          if length bytes \<noteq> 32 then Inl (KeyTruncated 32 (length bytes))
          else public_from_bytes E bytes)"

section \<open>Lemmas\<close>

lemma key_kind_roundtrip [simp]: "key_kind_from_u8 (key_kind_u8 k) = Inr k"
  by (cases k) (simp_all add: key_kind_from_u8_def)

lemma key_kind_sound: "key_kind_from_u8 v = Inr k \<Longrightarrow> key_kind_u8 k = v"
  by (auto simp: key_kind_from_u8_def split: if_splits)

lemma KEY_MAGIC_length [simp]: "length KEY_MAGIC = 4"
  by (simp add: KEY_MAGIC_def)

lemma decode_key_file_iff:
  assumes "hash_32 h"
  shows "decode_key_file h bs = Inr (kind, material) \<longleftrightarrow>
    length material = 32 \<and> bs = encode_key_file h kind material"
proof
  let ?buf = "KEY_MAGIC @ [KEY_VERSION] @ [key_kind_u8 kind] @ replicate 2 0 @ material"
  assume a: "length material = 32 \<and> bs = encode_key_file h kind material"
  then have bs: "bs = ?buf @ h ?buf" by (simp add: encode_key_file_def Let_def)
  have l: "length ?buf = 40" "length (h ?buf) = 32" using a assms by (simp_all add: hash_32_def)
  have t: "take 40 bs = ?buf" "drop 40 bs = h ?buf" unfolding bs using l by simp_all
  have f: "length bs = 72" "slice 0 4 bs = KEY_MAGIC" "bs ! 4 = KEY_VERSION" "bs ! 5 = key_kind_u8 kind"
    "slice 6 8 bs = replicate 2 0" "slice 8 40 bs = material"
    unfolding bs using a l by (simp_all add: wire_simps nth_append)
  show "decode_key_file h bs = Inr (kind, material)"
    unfolding decode_key_file_def using f t by (simp add: KEY_FILE_SIZE_def CHECKSUM_OFFSET_def)
next
  assume ok: "decode_key_file h bs = Inr (kind, material)"
  then have len: "length bs = 72" and f: "KEY_MAGIC = slice 0 4 bs" "[KEY_VERSION] = slice 4 5 bs"
    "[key_kind_u8 kind] = slice 5 6 bs" "replicate 2 0 = slice 6 8 bs" "material = slice 8 40 bs"
    and cs: "h (take 40 bs) = drop 40 bs"
    by (auto simp: decode_key_file_def KEY_FILE_SIZE_def CHECKSUM_OFFSET_def
        intro!: single_field dest!: key_kind_sound split: if_splits)
  have buf: "KEY_MAGIC @ [KEY_VERSION] @ [key_kind_u8 kind] @ replicate 2 0 @ material = slice 0 40 bs"
    unfolding f by (simp add: slice_join slice_join_append)
  have "encode_key_file h kind material = slice 0 40 bs @ h (slice 0 40 bs)"
    unfolding encode_key_file_def buf Let_def ..
  also have "\<dots> = bs" using cs by (simp add: slice_0_take)
  finally show "length material = 32 \<and> bs = encode_key_file h kind material"
    using len f(5) by simp
qed

definition os_allows :: "os \<Rightarrow> path \<Rightarrow> bool" where
  "os_allows S p \<longleftrightarrow> os_open S p \<and> os_write S p \<and> os_chmod S p \<and> os_stat S p \<and> os_read S p"

lemma write_owner_only_ok:
  assumes "os_allows S p"
  shows "fst (write_owner_only S umask p bytes F) = Inr ()"
    and "last (snd (write_owner_only S umask p bytes F)) p = Some (0x180, bytes)"
  using assms
  by (simp_all add: write_owner_only_def os_allows_def fs_open_def fs_write_def fs_chmod_def Let_def)

lemma owner_only_readable:
  assumes "os_allows S p" and "F p = Some (0x180, bytes)"
  shows "check_permissions S p F = Inr ()" "fs_read S p F = Some bytes"
  using assms by (simp_all add: check_permissions_def os_allows_def fs_read_def FORBIDDEN_MODE_BITS_def)

section \<open>Properties\<close>

text \<open>A file is a key file if and only if it is the encoding of a 32-byte secret: exactly 72
  bytes, header and reserved field as specified, checksum over all of it.\<close>

theorem key_file_accepts_iff:
  assumes "hash_32 h"
  shows "decode_key_file h bs = Inr (kind, material) \<longleftrightarrow>
    length material = 32 \<and> bs = encode_key_file h kind material"
  by (rule decode_key_file_iff [OF assms])

text \<open>C31: a saved operator key is loaded back unchanged from whatever the path held before, its file
  ends with mode 0600, and asking for an identity key there is an error.\<close>

theorem operator_key_save_load:
  assumes "hash_32 h" and "os_allows S p" and "length (ok_bytes key) = 32"
  shows "let (r, states) = save_operator h S umask p key F in
     r = Inr () \<and> map_option fst (last states p) = Some 0x180 \<and>
     load_operator h E S p (last states) = Inr key \<and> \<not> is_ok (load_identity h E S p (last states))"
proof -
  let ?b = "encode_key_file h KindOperator (ok_bytes key)"
  let ?F = "last (snd (write_owner_only S umask p ?b F))"
  note w = write_owner_only_ok [OF assms(2), of umask ?b F]
  note rd = owner_only_readable [of S p ?F, OF assms(2) w(2)]
  have "decode_key_file h ?b = Inr (KindOperator, ok_bytes key)"
    using decode_key_file_iff [OF assms(1)] assms(3) by simp
  then have "load_secret h E S p ?F = Inr (SkOperator key)"
    using rd by (simp add: load_secret_def)
  with w show ?thesis
    by (auto simp: save_operator_def load_operator_def load_identity_def split: prod.split)
qed

definition permissive_os :: os where
  "permissive_os = \<lparr>os_open = \<lambda>_. True, os_write = \<lambda>_. True, os_chmod = \<lambda>_. True,
     os_stat = \<lambda>_. True, os_read = \<lambda>_. True\<rparr>"

definition seed_only_ed25519 :: "(bytes, bytes) ed25519" where
  "seed_only_ed25519 = \<lparr>ed_from_bytes = \<lambda>s. s, ed_to_bytes = \<lambda>s. s, ed_verifying_key = \<lambda>s. s,
     ed_sign = \<lambda>s m. replicate 64 (of_nat (length m)), ed_vk_from_bytes = Some, ed_vk_to_bytes = \<lambda>v. v,
     ed_verify = \<lambda>v m s. s = replicate 64 (of_nat (length m))\<rparr>"

theorem operator_key_save_load_witness:
  "\<exists>F. load_operator (\<lambda>m. replicate 32 9) seed_only_ed25519 permissive_os ''k'' F =
     Inr \<lparr>ok_bytes = replicate 32 7\<rparr>"
proof -
  have "os_allows permissive_os ''k''" by (simp add: os_allows_def permissive_os_def)
  from operator_key_save_load [of "\<lambda>m. replicate 32 9", OF _ this, of "\<lparr>ok_bytes = replicate 32 7\<rparr>"
      0 "\<lambda>_. None" seed_only_ed25519]
  show ?thesis by (auto simp: hash_32_def split: prod.splits)
qed

text \<open>A key file that group or others may access is refused before its contents are read, whatever
  they are, with the offending mode.\<close>

theorem permissive_key_refused:
  assumes "os_stat S p" and "F p = Some (mode, contents)" and "mode AND 0x3F \<noteq> 0"
  shows "load_secret h E S p F = Inl (InsecurePermissions (mode AND 0x1FF))"
proof -
  have "(mode AND 0x1FF) AND 0x3F = mode AND 0x3F" by (simp add: and.assoc)
  with assms show ?thesis
    by (simp add: load_secret_def check_permissions_def FORBIDDEN_MODE_BITS_def Let_def)
qed

text \<open>C32: saving over an existing file passes through a state in which the complete new secret is
  under the old file's mode: the mode requested at creation does not apply to a file that exists, and
  is only set after the write.\<close>

theorem overwritten_key_window:
  assumes "os_allows S p" and "F p = Some (mode, old)"
  shows "\<exists>G \<in> set (snd (save_operator h S umask p key F)).
     G p = Some (mode, encode_key_file h KindOperator (ok_bytes key))"
  using assms
  by (simp add: save_operator_def write_owner_only_def os_allows_def fs_open_def fs_write_def Let_def)

theorem overwritten_key_window_witness:
  "\<exists>G \<in> set (snd (save_operator (\<lambda>m. replicate 32 9) permissive_os 0 ''k''
       \<lparr>ok_bytes = replicate 32 7\<rparr> [''k'' \<mapsto> (0x1A4, [])])).
     G ''k'' = Some (0x1A4, encode_key_file (\<lambda>m. replicate 32 9) KindOperator (replicate 32 7))"
proof -
  have "os_allows permissive_os ''k''" by (simp add: os_allows_def permissive_os_def)
  then show ?thesis
    using overwritten_key_window [where S = permissive_os and p = "''k''" and umask = 0 and
        h = "\<lambda>m. replicate 32 9" and F = "[''k'' \<mapsto> (0x1A4, [])]" and
        key = "\<lparr>ok_bytes = replicate 32 7\<rparr>"]
    by simp
qed

end
