(* ===== verification/Crypt_Manifest.thy ===== *)
theory Crypt_Manifest
  imports Manifest_Codec Key_Files
begin

text \<open>
  Manifest signing and receiver-side verification: \<open>core/dhow-crypt/src/manifest.rs\<close>. Ed25519 is the
  parameter record of \<open>Key_Files\<close>; a signature is its 64 bytes.
\<close>

section \<open>The code\<close>

datatype CryptManifestError =
    CmInvalidMagic bytes
  | CmUnsupportedVersion u8
  | CmSignatureVerificationFailed
  | CmCrcMismatch
  | CmTruncated nat nat
  | CmPathTraversal bytes
  | CmFileNameTooLong nat
  | CmFileSizeTooLarge u64 u64
  | CmInvalidBlockCount u32
  | CmSessionMismatch
  | CmMalformed detail

fun convert_codec_error :: "ManifestError \<Rightarrow> CryptManifestError" where
  "convert_codec_error (ManifestInvalidMagic got) = CmInvalidMagic got"
| "convert_codec_error (ManifestUnsupportedVersion version) = CmUnsupportedVersion version"
| "convert_codec_error SignatureVerificationFailed = CmSignatureVerificationFailed"
| "convert_codec_error ManifestCrcMismatch = CmCrcMismatch"
| "convert_codec_error (ManifestTruncated expected actual) = CmTruncated expected actual"
| "convert_codec_error (PathTraversal name) = CmPathTraversal name"
| "convert_codec_error (FileNameTooLong len) = CmFileNameTooLong len"
| "convert_codec_error (FileSizeTooLarge sz mx) = CmFileSizeTooLarge sz mx"
| "convert_codec_error (InvalidFileCount n) = CmInvalidBlockCount n"
| "convert_codec_error ManifestSessionMismatch = CmSessionMismatch"
| "convert_codec_error (Malformed details) = CmMalformed details"

record Policy =
  po_max_total_size :: u64
  po_max_file_size :: u64
  po_max_file_count :: u32

definition policy_default :: Policy where
  "policy_default =
     \<lparr>po_max_total_size = 64 * 1024 * 1024 * 1024, po_max_file_size = 16 * 1024 * 1024 * 1024,
      po_max_file_count = MAX_FILE_COUNT\<rparr>"

record 'vk VerifiedManifest =
  vm_manifest :: Manifest
  vm_signer :: "'vk PublicIdentity"

text \<open>\<open>bytes[start..start + 64].copy_from_slice(..)\<close>.\<close>

definition sign_manifest :: "('sk, 'vk) ed25519 \<Rightarrow> 'sk IdentityKey \<Rightarrow> Manifest \<Rightarrow> bytes" where
  "sign_manifest E identity manifest =
     (let signature = identity_sign E identity (signing_bytes manifest);
          bytes = manifest_to_vec manifest
      in take SIGNATURE_OFFSET bytes @ signature @ drop (SIGNATURE_OFFSET + SIGNATURE_LEN) bytes)"

definition cm_parse :: "bytes \<Rightarrow> CryptManifestError + Manifest" where
  "cm_parse bytes = map_err convert_codec_error (manifest_from_bytes bytes)"

definition verify_signature ::
  "('sk, 'vk) ed25519 \<Rightarrow> 'vk PublicIdentity \<Rightarrow> bytes \<Rightarrow> CryptManifestError + Manifest" where
  "verify_signature E expected_signer bytes =
     res_bind (cm_parse bytes) (\<lambda>manifest.
       res_bind (map_err convert_codec_error (signing_bytes_of bytes)) (\<lambda>signing.
         if \<not> public_verify E expected_signer signing (mh_signature (mf_header manifest))
           then Inl CmSignatureVerificationFailed
         else Inr manifest))"

text \<open>\<open>e.to_string()\<close> of a \<open>SessionError\<close>.\<close>

fun session_error_string :: "SessionError \<Rightarrow> detail" where
  "session_error_string NotInitialized = Detail ''session not initialized'' []"
| "session_error_string InvalidSessionId = Detail ''session ID is all zeros'' []"
| "session_error_string (InvalidParameters (Detail t args)) =
     Detail (''invalid session parameters: '' @ t) args"
| "session_error_string DigestMismatch = Detail ''payload digest mismatch'' []"

fun check_entries :: "Policy \<Rightarrow> u64 \<Rightarrow> FileEntry list \<Rightarrow> CryptManifestError + u64" where
  "check_entries policy summed [] = Inr summed"
| "check_entries policy summed (entry # entries) =
     res_bind (map_err convert_codec_error (validate_name (fe_name entry))) (\<lambda>_.
       if fe_size entry > po_max_file_size policy
         then Inl (CmFileSizeTooLarge (fe_size entry) (po_max_file_size policy))
       else (case checked_add summed (fe_size entry) of
           None \<Rightarrow> Inl (CmFileSizeTooLarge 0xFFFFFFFFFFFFFFFF (po_max_total_size policy))
         | Some summed' \<Rightarrow> check_entries policy summed' entries))"

definition check_policy :: "Manifest \<Rightarrow> Policy \<Rightarrow> CryptManifestError + unit" where
  "check_policy manifest policy =
     (let header = mf_header manifest in
      res_bind (map_err (\<lambda>e. CmMalformed (session_error_string e))
          (session_params_validate (mh_params header))) (\<lambda>_.
        if mh_file_count header > po_max_file_count policy
          then Inl (CmInvalidBlockCount (mh_file_count header))
        else if length (mf_entries manifest) \<noteq> unat (mh_file_count header)
          then Inl (CmInvalidBlockCount (mh_file_count header))
        else if mh_total_size header > po_max_total_size policy
          then Inl (CmFileSizeTooLarge (mh_total_size header) (po_max_total_size policy))
        else res_bind (check_entries policy 0 (mf_entries manifest)) (\<lambda>summed.
          if summed \<noteq> mh_total_size header
            then Inl (CmFileSizeTooLarge summed (mh_total_size header))
          else Inr ())))"

definition verify_manifest_with ::
  "('sk, 'vk) ed25519 \<Rightarrow> 'vk PublicIdentity \<Rightarrow> bytes \<Rightarrow> bytes option \<Rightarrow> Policy \<Rightarrow>
   CryptManifestError + 'vk VerifiedManifest" where
  "verify_manifest_with E expected_signer bytes session_id policy =
     res_bind (verify_signature E expected_signer bytes) (\<lambda>manifest.
       if (case session_id of Some expected \<Rightarrow> mh_session_id (mf_header manifest) \<noteq> expected
           | None \<Rightarrow> False)
         then Inl CmSessionMismatch
       else res_bind (check_policy manifest policy) (\<lambda>_.
         Inr \<lparr>vm_manifest = manifest, vm_signer = expected_signer\<rparr>))"

definition verify_manifest ::
  "('sk, 'vk) ed25519 \<Rightarrow> 'vk PublicIdentity \<Rightarrow> bytes \<Rightarrow> bytes \<Rightarrow> Policy \<Rightarrow>
   CryptManifestError + 'vk VerifiedManifest" where
  "verify_manifest E expected_signer bytes session_id policy =
     verify_manifest_with E expected_signer bytes (Some session_id) policy"

section \<open>Lemmas\<close>

text \<open>What is relied on of Ed25519: signatures have 64 bytes and verify under the signer's public
  half.\<close>

definition ed25519_signs :: "('sk, 'vk) ed25519 \<Rightarrow> bool" where
  "ed25519_signs E \<longleftrightarrow> (\<forall>sk m. length (ed_sign E sk m) = 64 \<and>
     ed_verify E (ed_verifying_key E sk) m (ed_sign E sk m))"

lemma sign_manifest_to_vec:
  assumes "ed25519_signs E" and "manifest_header_wf (mf_header m)"
  shows "sign_manifest E k m = manifest_to_vec (m\<lparr>mf_header := set_signature (mf_header m)
     (identity_sign E k (signing_bytes m))\<rparr>)"
proof -
  let ?h = "mf_header m"
  have l: "length (mh_session_id ?h) = 16" "length (mh_salt ?h) = 32" "length (mh_nonce ?h) = 24"
    "length (mh_signature ?h) = 64" "session_params_wf (mh_params ?h)"
    using assms(2) unfolding manifest_header_wf_def by blast+
  show ?thesis
    by (simp add: sign_manifest_def manifest_to_vec_def manifest_header_to_vec_def set_signature_def
        manifest_sizes SIGNATURE_LEN_def length_crc_covered [OF l(1-3,5)] l(4) Let_def)
qed

lemma sign_manifest_eq:
  assumes "ed25519_signs E" and "manifest_wf m"
  shows "sign_manifest E k m = manifest_to_vec (m\<lparr>mf_header := set_signature (mf_header m)
     (identity_sign E k (signing_bytes m))\<rparr>)"
  using assms by (simp add: sign_manifest_to_vec manifest_wf_def)

lemma signing_bytes_set_signature:
  assumes "manifest_wf m" and "length sig = 64"
  shows "signing_bytes (m\<lparr>mf_header := set_signature (mf_header m) sig\<rparr>) = signing_bytes m"
proof -
  let ?m = "m\<lparr>mf_header := set_signature (mf_header m) sig\<rparr>"
  have w: "manifest_header_wf (mf_header m)" "manifest_header_wf (mf_header ?m)"
    using assms manifest_wf_set_signature [OF assms] by (simp_all add: manifest_wf_def)
  show ?thesis
    unfolding signing_bytes_def zero_signature_to_vec [OF w(1)] zero_signature_to_vec [OF w(2)]
    by (simp add: set_signature_twice)
qed

lemma verify_signature_iff:
  "verify_signature E pk bs = Inr m \<longleftrightarrow> manifest_wf m \<and> bs = manifest_to_vec m \<and>
     public_verify E pk (signing_bytes m) (mh_signature (mf_header m))"
proof -
  have "signing_bytes_of bs = Inr (signing_bytes m)" if "manifest_from_bytes bs = Inr m" for m
  proof -
    from that have wf: "manifest_header_wf (mf_header m)" and bs: "bs = manifest_to_vec m"
      by (auto simp: manifest_parse_iff manifest_wf_def)
    have "MANIFEST_HEADER_SIZE \<le> length bs"
      using bs mhdr.length_to_vec [OF wf] by (simp add: manifest_to_vec_def)
    with bs show ?thesis by (simp add: signing_bytes_of_def signing_bytes_def)
  qed
  then show ?thesis
    by (auto simp: verify_signature_def cm_parse_def manifest_parse_iff split: if_splits)
qed

lemma check_entries_sound:
  "check_entries policy s es = Inr t \<Longrightarrow>
   unat t = unat s + sum_list (map (\<lambda>e. unat (fe_size e)) es) \<and>
   (\<forall>e \<in> set es. validate_name (fe_name e) = Inr () \<and> fe_size e \<le> po_max_file_size policy)"
  by (induction policy s es rule: check_entries.induct)
    (auto simp: checked_add_Some_iff split: if_splits option.splits)

lemma check_policy_sound:
  assumes "check_policy m policy = Inr ()"
  shows "unat (mh_total_size (mf_header m)) = sum_list (map (\<lambda>e. unat (fe_size e)) (mf_entries m)) \<and>
    mh_total_size (mf_header m) \<le> po_max_total_size policy \<and>
    length (mf_entries m) = unat (mh_file_count (mf_header m)) \<and>
    mh_file_count (mf_header m) \<le> po_max_file_count policy \<and>
    (\<forall>e \<in> set (mf_entries m). validate_name (fe_name e) = Inr () \<and>
       fe_size e \<le> po_max_file_size policy) \<and>
    session_params_validate (mh_params (mf_header m)) = Inr ()"
  using assms
  by (auto simp: check_policy_def Let_def not_less word_le_nat_alt dest: check_entries_sound
      split: if_splits)

section \<open>Properties\<close>

text \<open>A manifest signed by an identity verifies under its public half, and the verifier gets the
  signed manifest with the signature filled in.\<close>

theorem sign_then_verify:
  assumes "ed25519_signs E" and "manifest_wf m"
  shows "verify_signature E (identity_public E k) (sign_manifest E k m) =
     Inr (m\<lparr>mf_header := set_signature (mf_header m) (identity_sign E k (signing_bytes m))\<rparr>)"
proof -
  let ?sig = "identity_sign E k (signing_bytes m)"
  have l: "length ?sig = 64" using assms(1) by (simp add: identity_sign_def ed25519_signs_def)
  have v: "public_verify E (identity_public E k) (signing_bytes m) ?sig"
    using assms(1) by (simp add: public_verify_def identity_public_def identity_sign_def ed25519_signs_def)
  show ?thesis
    unfolding verify_signature_iff
    using manifest_wf_set_signature [OF assms(2) l] sign_manifest_eq [OF assms]
      signing_bytes_set_signature [OF assms(2) l] v
    by (simp add: set_signature_def)
qed

lemma seed_only_signs: "ed25519_signs seed_only_ed25519"
  by (simp add: ed25519_signs_def seed_only_ed25519_def)

lemma one_file_manifest_wf: "manifest_wf one_file_manifest"
  using one_file_manifest_ok by (simp add: manifest_parse_iff)

text \<open>C21: what a receiver gets from \<open>verify_manifest\<close> is authenticated and within policy: the signature
  over the whole manifest verifies under the expected signer, the session is the one asked for, the
  declared total is the exact sum of the file sizes (no wrap-around) and within the limit, the number of files
  is the declared one and within the limit, every file is within its limit and safely named, and the coding parameters are consistent.\<close>

theorem verify_manifest_sound:
  assumes "verify_manifest E signer bytes session_id policy = Inr v"
  shows "let m = vm_manifest v in
     bytes = manifest_to_vec m \<and> vm_signer v = signer \<and> mh_session_id (mf_header m) = session_id \<and>
     public_verify E signer (signing_bytes m) (mh_signature (mf_header m)) \<and>
     unat (mh_total_size (mf_header m)) = sum_list (map (\<lambda>e. unat (fe_size e)) (mf_entries m)) \<and>
     mh_total_size (mf_header m) \<le> po_max_total_size policy \<and>
     length (mf_entries m) = unat (mh_file_count (mf_header m)) \<and>
     mh_file_count (mf_header m) \<le> po_max_file_count policy \<and>
     (\<forall>e \<in> set (mf_entries m). name_ok (fe_name e) \<and> fe_size e \<le> po_max_file_size policy) \<and>
     session_params_validate (mh_params (mf_header m)) = Inr ()"
proof -
  from assms obtain m where m: "verify_signature E signer bytes = Inr m"
    and s: "mh_session_id (mf_header m) = session_id" and p: "check_policy m policy = Inr ()"
    and v: "v = \<lparr>vm_manifest = m, vm_signer = signer\<rparr>"
    by (auto simp: verify_manifest_def verify_manifest_with_def split: if_splits)
  have "name_ok (fe_name e)" if "e \<in> set (mf_entries m)" for e
    using m that by (auto simp: verify_signature_iff manifest_wf_def list_all_iff file_entry_wf_def)
  with m s check_policy_sound [OF p] show ?thesis
    by (simp add: v Let_def verify_signature_iff)
qed

theorem verify_manifest_sound_witness:
  "\<exists>v. verify_manifest seed_only_ed25519 \<lparr>pi_verifying = [1]\<rparr>
       (sign_manifest seed_only_ed25519 \<lparr>ik_signing = [1]\<rparr> one_file_manifest)
       (replicate 16 1) policy_default = Inr v \<and>
     unat (mh_total_size (mf_header (vm_manifest v))) =
       sum_list (map (\<lambda>e. unat (fe_size e)) (mf_entries (vm_manifest v)))"
proof -
  let ?E = seed_only_ed25519 and ?k = "\<lparr>ik_signing = [1]\<rparr>" and ?m = one_file_manifest
  let ?s = "?m\<lparr>mf_header := set_signature (mf_header ?m) (identity_sign ?E ?k (signing_bytes ?m))\<rparr>"
  have pk: "identity_public ?E ?k = \<lparr>pi_verifying = [1]\<rparr>"
    by (simp add: identity_public_def seed_only_ed25519_def)
  have l: "length (identity_sign ?E ?k (signing_bytes ?m)) = 64"
    by (simp add: identity_sign_def seed_only_ed25519_def)
  have v: "verify_signature ?E \<lparr>pi_verifying = [1]\<rparr> (sign_manifest ?E ?k ?m) = Inr ?s"
    unfolding verify_signature_iff
    using manifest_wf_set_signature [OF one_file_manifest_wf l]
      sign_manifest_eq [OF seed_only_signs one_file_manifest_wf]
      signing_bytes_set_signature [OF one_file_manifest_wf l]
    by (simp add: set_signature_def public_verify_def identity_sign_def seed_only_ed25519_def)
  have "validate_name [0x61, 0x2F, 0x62] = Inr ()" by code_simp
  then have "check_policy ?s policy_default = Inr ()"
    by (simp add: check_policy_def one_file_manifest_def manifest_build_def manifest_header_new_def
        set_signature_def session_params_validate_def policy_default_def MAX_FILE_COUNT_def
        file_entry_with_mode_def checked_add_def Let_def)
  moreover have "mh_session_id (mf_header ?s) = replicate 16 1"
    by (simp add: one_file_manifest_def manifest_build_def manifest_header_new_def set_signature_def Let_def)
  ultimately have ok: "verify_manifest ?E \<lparr>pi_verifying = [1]\<rparr> (sign_manifest ?E ?k ?m) (replicate 16 1)
      policy_default = Inr \<lparr>vm_manifest = ?s, vm_signer = \<lparr>pi_verifying = [1]\<rparr>\<rparr>"
    using v by (simp add: verify_manifest_def verify_manifest_with_def)
  from verify_manifest_sound [OF ok] ok show ?thesis by (auto simp: Let_def)
qed



end
