(* ===== verification/Panics.thy ===== *)
theory Panics
  imports Dhow_Prelude "HOL-Library.Monad_Syntax"
begin

text \<open>
  Rust computations that may panic. A run is \<^term>\<open>Some v\<close> when it returns \<open>v\<close> and \<^const>\<open>None\<close> when it
  panics; sequencing is the option monad's \<open>do\<close>, and \<open>try_run\<close> is the \<open>?\<close> operator of a function that
  returns a \<open>Result\<close>. The panicking operations of the source are here: indexing and slicing out
  of range, \<open>try_into().unwrap()\<close> and \<open>copy_from_slice\<close> on a slice of another length, \<open>assert!\<close>,
  \<open>debug_assert!\<close>, \<open>expect\<close>, and integer arithmetic that overflows. The flag \<open>checks\<close> says whether the
  build has debug assertions and overflow checks; without them sums and differences wrap.

  The lemmas collected in \<open>run_simps\<close> turn an operation whose condition holds into the total one of
  the prelude; they carry the proofs that parsers do not panic.
\<close>

type_synonym 'a run = "'a option"

named_theorems run_simps \<open>operations that do not panic where their condition holds\<close>

section \<open>Assertions\<close>

definition assert_that :: "bool \<Rightarrow> unit run" where
  "assert_that b = (if b then Some () else None)"

definition debug_assert :: "bool \<Rightarrow> bool \<Rightarrow> unit run" where
  "debug_assert checks b = (if checks then assert_that b else Some ())"

fun expect :: "'e + 'a \<Rightarrow> 'a run" where
  "expect (Inl e) = None"
| "expect (Inr a) = Some a"

lemma assert_that_True [run_simps, simp]: "b \<Longrightarrow> assert_that b = Some ()"
  by (simp add: assert_that_def)

lemma assert_that_eq_Some [simp]: "assert_that b = Some u \<longleftrightarrow> b"
  by (simp add: assert_that_def)

lemma debug_assert_True [run_simps, simp]: "b \<Longrightarrow> debug_assert checks b = Some ()"
  by (simp add: debug_assert_def)

lemma assert_then_iff: "Option.bind (assert_that b) f = Some v \<longleftrightarrow> b \<and> f () = Some v"
  by (simp add: assert_that_def)

section \<open>Results\<close>

fun try_run :: "('e + 'a) run \<Rightarrow> ('a \<Rightarrow> ('e + 'b) run) \<Rightarrow> ('e + 'b) run" where
  "try_run None f = None"
| "try_run (Some (Inl e)) f = Some (Inl e)"
| "try_run (Some (Inr a)) f = f a"

lemma try_run_total: "(\<And>a. r = Inr a \<Longrightarrow> f a = Some (g a)) \<Longrightarrow> try_run (Some r) f = Some (res_bind r g)"
  by (cases r) auto

lemma try_run_map_err [simp]:
  "try_run (Some (map_err e r)) f = (case r of Inl x \<Rightarrow> Some (Inl (e x)) | Inr a \<Rightarrow> f a)"
  by (cases r) auto

section \<open>Indexing and slicing\<close>

definition byte_at :: "nat \<Rightarrow> 'a list \<Rightarrow> 'a run" where
  "byte_at i xs = (if i < length xs then Some (xs ! i) else None)"

fun bytes_at :: "nat list \<Rightarrow> 'a list \<Rightarrow> 'a list run" where
  "bytes_at [] xs = Some []"
| "bytes_at (i # is) xs = do { x \<leftarrow> byte_at i xs; rest \<leftarrow> bytes_at is xs; Some (x # rest) }"

definition range_at :: "nat \<Rightarrow> nat \<Rightarrow> 'a list \<Rightarrow> 'a list run" where
  "range_at a b xs = (if a \<le> b \<and> b \<le> length xs then Some (slice a b xs) else None)"

definition tail_at :: "nat \<Rightarrow> 'a list \<Rightarrow> 'a list run" where
  "tail_at a xs = (if a \<le> length xs then Some (drop a xs) else None)"

text \<open>\<open>xs[a..b].try_into().unwrap()\<close> to an array of \<open>n\<close> elements, and \<open>copy_from_slice\<close> into one.\<close>

definition array_at :: "nat \<Rightarrow> nat \<Rightarrow> nat \<Rightarrow> 'a list \<Rightarrow> 'a list run" where
  "array_at n a b xs = do { s \<leftarrow> range_at a b xs; assert_that (length s = n); Some s }"

lemma byte_at_within [run_simps]: "i < length xs \<Longrightarrow> byte_at i xs = Some (xs ! i)"
  by (simp add: byte_at_def)

lemma range_at_within [run_simps]: "a \<le> b \<Longrightarrow> b \<le> length xs \<Longrightarrow> range_at a b xs = Some (slice a b xs)"
  by (simp add: range_at_def)

lemma tail_at_within [run_simps]: "a \<le> length xs \<Longrightarrow> tail_at a xs = Some (drop a xs)"
  by (simp add: tail_at_def)

lemma array_at_within [run_simps]:
  "b \<le> length xs \<Longrightarrow> a \<le> b \<Longrightarrow> b - a = n \<Longrightarrow> array_at n a b xs = Some (slice a b xs)"
  by (simp add: array_at_def range_at_def)

lemma bytes_at_upt: "b \<le> length xs \<Longrightarrow> bytes_at [a..<b] xs = Some (slice a b xs)"
proof (induction "b - a" arbitrary: a)
  case 0
  then show ?case by (simp add: slice_def)
next
  case (Suc n)
  then have "a < b" "a < length xs" by simp_all
  moreover have "bytes_at [Suc a..<b] xs = Some (slice (Suc a) b xs)" using Suc by simp
  moreover have "slice a b xs = xs ! a # slice (Suc a) b xs"
    using \<open>a < b\<close> \<open>a < length xs\<close>
    by (simp add: slice_def Cons_nth_drop_Suc [symmetric] take_Cons' Suc_diff_Suc)
  ultimately show ?case by (simp add: upt_conv_Cons byte_at_within)
qed

lemma bytes_at_2 [run_simps]:
  "b = a + 1 \<Longrightarrow> b < length xs \<Longrightarrow> bytes_at [a, b] xs = Some (slice a (a + 2) xs)"
  using bytes_at_upt [of "a + 2" xs a] by (simp add: upt_rec)

lemma bytes_at_4 [run_simps]:
  "b = a + 1 \<Longrightarrow> c = a + 2 \<Longrightarrow> d = a + 3 \<Longrightarrow> d < length xs \<Longrightarrow>
   bytes_at [a, b, c, d] xs = Some (slice a (a + 4) xs)"
  using bytes_at_upt [of "a + 4" xs a] by (simp add: upt_rec numeral_eq_Suc)

declare bytes_at.simps [simp del]

section \<open>Arithmetic\<close>

definition sub_usize :: "bool \<Rightarrow> nat \<Rightarrow> nat \<Rightarrow> nat run" where
  "sub_usize checks a b =
     (if b \<le> a then Some (a - b) else if checks then None else Some (2 ^ 64 + a - b))"

lemma sub_usize_within [run_simps]: "b \<le> a \<Longrightarrow> sub_usize checks a b = Some (a - b)"
  by (simp add: sub_usize_def)

text \<open>\<open>Iterator::sum\<close>.\<close>

fun sum_words :: "bool \<Rightarrow> 'a::len word \<Rightarrow> 'a word list \<Rightarrow> 'a word run" where
  "sum_words checks acc [] = Some acc"
| "sum_words checks acc (x # xs) =
     (if checks \<and> checked_add acc x = None then None else sum_words checks (acc + x) xs)"

lemma sum_words_wraps: "sum_words False acc xs = Some (acc + of_nat (sum_list (map unat xs)))"
  by (induction xs arbitrary: acc) (simp_all add: add.assoc)

lemma sum_words_exact:
  "unat acc + sum_list (map unat xs) < 2 ^ LENGTH('a) \<Longrightarrow>
   \<exists>t. sum_words checks (acc :: 'a::len word) xs = Some t \<and> unat t = unat acc + sum_list (map unat xs)"
proof (induction xs arbitrary: acc)
  case Nil
  then show ?case by simp
next
  case (Cons x xs)
  then have "unat acc + unat x < 2 ^ LENGTH('a)" by simp
  then have u: "unat (acc + x) = unat acc + unat x" by (simp add: unat_add_lem)
  with Cons.prems Cons.IH [of "acc + x"] \<open>unat acc + unat x < _\<close> show ?case
    by (simp add: checked_add_def add.assoc)
qed

lemma sum_words_overflows:
  "2 ^ LENGTH('a) \<le> unat acc + sum_list (map unat xs) \<Longrightarrow> sum_words True (acc :: 'a::len word) xs = None"
proof (induction xs arbitrary: acc)
  case Nil
  then show ?case using unsigned_less [of acc, where ?'a = nat] by simp
next
  case (Cons x xs)
  show ?case
  proof (cases "unat acc + unat x < 2 ^ LENGTH('a)")
    case True
    then have "unat (acc + x) = unat acc + unat x" by (simp add: unat_add_lem)
    with Cons show ?thesis by (simp add: add.assoc)
  next
    case False
    then show ?thesis by (simp add: checked_add_def)
  qed
qed

section \<open>Loops\<close>

text \<open>A \<open>for\<close> loop whose body asserts, and \<open>iter().map(..).collect()\<close> with a body that may panic.\<close>

fun for_run :: "('a \<Rightarrow> unit run) \<Rightarrow> 'a list \<Rightarrow> unit run" where
  "for_run f [] = Some ()"
| "for_run f (x # xs) = do { f x; for_run f xs }"

fun collect_run :: "('a \<Rightarrow> 'b run) \<Rightarrow> 'a list \<Rightarrow> 'b list run" where
  "collect_run f [] = Some []"
| "collect_run f (x # xs) = do { y \<leftarrow> f x; ys \<leftarrow> collect_run f xs; Some (y # ys) }"

lemma for_run_ok: "(\<And>x. x \<in> set xs \<Longrightarrow> f x = Some ()) \<Longrightarrow> for_run f xs = Some ()"
  by (induction xs) simp_all

lemma collect_run_ok: "(\<And>x. x \<in> set xs \<Longrightarrow> f x = Some (g x)) \<Longrightarrow> collect_run f xs = Some (map g xs)"
  by (induction xs) simp_all

text \<open>\<open>slice::chunks\<close>, which panics on a chunk size of zero.\<close>

function chunks_of :: "nat \<Rightarrow> 'a list \<Rightarrow> 'a list list" where
  "chunks_of n xs = (if n = 0 \<or> xs = [] then [] else take n xs # chunks_of n (drop n xs))"
  by pat_completeness auto
termination by (relation "measure (\<lambda>(n, xs). length xs)") auto

declare chunks_of.simps [simp del]

definition chunks :: "nat \<Rightarrow> 'a list \<Rightarrow> 'a list list run" where
  "chunks n xs = (if n = 0 then None else Some (chunks_of n xs))"

lemma concat_chunks: "0 < n \<Longrightarrow> concat (chunks_of n xs) = xs"
proof (induction n xs rule: chunks_of.induct)
  case (1 n xs)
  then show ?case by (subst chunks_of.simps) auto
qed

end
