(* ===== verification/Parser_Runs.thy ===== *)
theory Parser_Runs
  imports Panics Frame Resume Crypt_Manifest
begin

text \<open>
  The parsers once more, with every operation of the source that can panic (\<open>frame.rs\<close>, \<open>session.rs\<close>,
  \<open>resume.rs\<close>, \<open>manifest.rs\<close> of both crates, \<open>key.rs\<close>): each index, range, array conversion, sum of words
  and difference is performed where the code performs it. Sums of \<open>usize\<close> offsets and lengths are plain sums of
  naturals: each is a length or an offset in the input plus at most \<open>2 ^ 32\<close>, which cannot overflow
  the 64 bits of a \<open>usize\<close>, as no slice is longer than \<open>2 ^ 63\<close> bytes. The lemmas in \<open>parser_runs\<close> show that on
  every input the run returns what the total parser of the component's own theory computes. The one
  exception is the \<open>u32\<close> sum of the bits of a resume bitmap, which overflows for a bitmap of
  \<open>2 ^ 29\<close> bytes of ones: with overflow checks that parser panics, on inputs of half a gibibyte and more only.
\<close>

named_theorems parser_runs \<open>a parser returns what its total counterpart computes\<close>

section \<open>Frames\<close>

definition frame_header_to_vec_run :: "bool \<Rightarrow> FrameHeader \<Rightarrow> bytes run" where
  "frame_header_to_vec_run checks h = do {
     debug_assert checks (length (frame_header_to_vec h) = FRAME_HEADER_SIZE);
     Some (frame_header_to_vec h)
   }"

definition frame_header_from_bytes_run :: "bytes \<Rightarrow> (FrameError + FrameHeader) run" where
  "frame_header_from_bytes_run bytes =
     (if length bytes < FRAME_HEADER_SIZE then Some (Inl (HeaderTooShort (length bytes)))
      else do {
        magic \<leftarrow> array_at 4 0 4 bytes;
        if magic \<noteq> MAGIC then Some (Inl (FrameInvalidMagic magic)) else do {
        version \<leftarrow> byte_at 4 bytes;
        if version \<noteq> VERSION then Some (Inl (FrameUnsupportedVersion version)) else do {
        type_byte \<leftarrow> byte_at 5 bytes;
        try_run (Some (frame_type_try_from type_byte)) (\<lambda>frame_type. do {
        reserved_bytes \<leftarrow> bytes_at [6, 7] bytes;
        let reserved = u16_from_le_bytes reserved_bytes;
        if reserved \<noteq> 0 then Some (Inl (ReservedFieldNonZero reserved)) else do {
        session_id \<leftarrow> array_at 16 8 24 bytes;
        truncated_mac \<leftarrow> array_at 8 24 32 bytes;
        block_index \<leftarrow> bytes_at [32, 33, 34, 35] bytes;
        symbol_index \<leftarrow> bytes_at [36, 37, 38, 39] bytes;
        payload_length \<leftarrow> bytes_at [40, 41] bytes;
        crc \<leftarrow> bytes_at [42, 43, 44, 45] bytes;
        Some (Inr
          \<lparr>fh_magic = magic, fh_version = version, fh_frame_type = frame_type, fh_reserved = reserved,
           fh_session_id = session_id, fh_truncated_mac = truncated_mac,
           fh_block_index = u32_from_le_bytes block_index,
           fh_symbol_index = u32_from_le_bytes symbol_index,
           fh_payload_length = u16_from_le_bytes payload_length,
           fh_crc32c = u32_from_le_bytes crc\<rparr>)
        }})}}})"

definition frame_from_bytes_run ::
  "(bytes \<Rightarrow> bytes \<Rightarrow> bytes) \<Rightarrow> bytes \<Rightarrow> bytes \<Rightarrow> (FrameError + Frame) run" where
  "frame_from_bytes_run kh bytes session_key =
     try_run (frame_header_from_bytes_run bytes) (\<lambda>header.
       if fh_truncated_mac header \<noteq> compute_mac kh header session_key then Some (Inl MacVerificationFailed)
       else
         (let fin = FRAME_HEADER_SIZE + unat (fh_payload_length header) in
          if length bytes < fin then Some (Inl (FrameTruncated fin (length bytes)))
          else do {
            payload \<leftarrow> range_at FRAME_HEADER_SIZE fin bytes;
            let actual_crc = crc32c_digest payload;
            if actual_crc \<noteq> fh_crc32c header
              then Some (Inl (FrameCrcMismatch (fh_crc32c header) actual_crc))
            else Some (Inr \<lparr>fr_header = header, fr_payload = payload\<rparr>)
          }))"

lemma frame_header_to_vec_run_total [parser_runs]:
  "frame_header_wf h \<Longrightarrow> frame_header_to_vec_run checks h = Some (frame_header_to_vec h)"
  by (simp add: frame_header_to_vec_run_def fhdr.length_to_vec)

lemma frame_header_run_total [parser_runs]:
  "frame_header_from_bytes_run bytes = Some (frame_header_from_bytes bytes)"
proof (cases "length bytes < FRAME_HEADER_SIZE")
  case False
  then show ?thesis
    by (cases "frame_type_try_from (bytes ! 5)")
      (simp_all add: frame_header_from_bytes_run_def frame_header_from_bytes_def FRAME_HEADER_SIZE_def
        run_simps Let_def)
qed (simp add: frame_header_from_bytes_run_def frame_header_from_bytes_def)

lemma frame_run_total [parser_runs]:
  "frame_from_bytes_run kh bytes key = Some (frame_from_bytes kh bytes key)"
  unfolding frame_from_bytes_run_def frame_from_bytes_def frame_header_run_total
  by (rule try_run_total) (simp add: run_simps Let_def)

section \<open>Session headers\<close>

definition session_header_to_vec_run :: "bool \<Rightarrow> SessionHeader \<Rightarrow> bytes run" where
  "session_header_to_vec_run checks h = do {
     debug_assert checks (length (session_header_to_vec h) = SESSION_HEADER_SIZE);
     Some (session_header_to_vec h)
   }"

definition session_header_from_bytes_run :: "bytes \<Rightarrow> (SessionError + SessionHeader) run" where
  "session_header_from_bytes_run bytes =
     (if length bytes < SESSION_HEADER_SIZE
        then Some (Inl (InvalidParameters (Detail ''header too short: {} bytes (minimum {})''
               [length bytes, SESSION_HEADER_SIZE])))
      else do {
        magic \<leftarrow> array_at 4 0 4 bytes;
        if magic \<noteq> SESSION_MAGIC
          then Some (Inl (InvalidParameters (Detail ''invalid magic: expected DSES, got {:?}'' (map unat magic))))
        else do {
        version \<leftarrow> byte_at 4 bytes;
        if version \<noteq> SESSION_VERSION
          then Some (Inl (InvalidParameters (Detail ''unsupported version: {}'' [unat version])))
        else do {
        reserved1 \<leftarrow> array_at 3 5 8 bytes;
        if reserved1 \<noteq> replicate 3 0
          then Some (Inl (InvalidParameters (Detail ''reserved field must be zero'' [])))
        else do {
        session_id \<leftarrow> array_at 16 8 24 bytes;
        payload_size \<leftarrow> array_at 8 24 32 bytes;
        block_count \<leftarrow> array_at 4 32 36 bytes;
        symbol_size \<leftarrow> array_at 4 36 40 bytes;
        source_symbols_per_block \<leftarrow> array_at 4 40 44 bytes;
        total_symbols_per_block \<leftarrow> array_at 4 44 48 bytes;
        z \<leftarrow> array_at 4 48 52 bytes;
        n \<leftarrow> array_at 4 52 56 bytes;
        psi_low \<leftarrow> byte_at 56 bytes;
        psi_high \<leftarrow> byte_at 57 bytes;
        payload_digest \<leftarrow> array_at 32 58 90 bytes;
        reserved2 \<leftarrow> array_at 32 90 122 bytes;
        if reserved2 \<noteq> replicate 32 0
          then Some (Inl (InvalidParameters (Detail ''reserved field 2 must be zero'' [])))
        else do {
        crc_bytes \<leftarrow> array_at 4 122 126 bytes;
        covered \<leftarrow> range_at 4 122 bytes;
        let crc = u32_from_le_bytes crc_bytes;
        let expected_crc = crc32c_digest covered;
        if crc \<noteq> expected_crc
          then Some (Inl (InvalidParameters (Detail ''CRC32C mismatch: expected {:#010x}, got {:#010x}''
                 [unat expected_crc, unat crc])))
        else Some (Inr
          \<lparr>sh_magic = magic, sh_version = version, sh_reserved1 = reserved1, sh_session_id = session_id,
           sh_params =
             \<lparr>sp_payload_size = u64_from_le_bytes payload_size,
              sp_block_count = u32_from_le_bytes block_count,
              sp_symbol_size = u32_from_le_bytes symbol_size,
              sp_source_symbols_per_block = u32_from_le_bytes source_symbols_per_block,
              sp_total_symbols_per_block = u32_from_le_bytes total_symbols_per_block,
              sp_raptorq = \<lparr>rq_z = u32_from_le_bytes z, rq_n = u32_from_le_bytes n,
                            rq_psi = u16_from_le_bytes [psi_low, psi_high]\<rparr>,
              sp_payload_digest = payload_digest\<rparr>,
           sh_reserved2 = reserved2, sh_crc32c = crc\<rparr>)
        }}}}})"

lemma session_header_to_vec_run_total [parser_runs]:
  "session_header_wf h \<Longrightarrow> session_header_to_vec_run checks h = Some (session_header_to_vec h)"
  by (simp add: session_header_to_vec_run_def shdr.length_to_vec)

lemma session_header_run_total [parser_runs]:
  "session_header_from_bytes_run bytes = Some (session_header_from_bytes bytes)"
proof (cases "length bytes < SESSION_HEADER_SIZE")
  case False
  then show ?thesis
    by (simp add: session_header_from_bytes_run_def session_header_from_bytes_def SESSION_HEADER_SIZE_def
        run_simps Let_def)
qed (simp add: session_header_from_bytes_run_def session_header_from_bytes_def)

section \<open>Resume files\<close>

definition block_entry_from_bytes_run :: "bool \<Rightarrow> bytes \<Rightarrow> (ResumeError + BlockEntry \<times> nat) run" where
  "block_entry_from_bytes_run checks bytes =
     (if length bytes < BLOCK_ENTRY_HEADER_SIZE
        then Some (Inl (ResumeTruncated BLOCK_ENTRY_HEADER_SIZE (length bytes)))
      else do {
        index_bytes \<leftarrow> array_at 4 0 4 bytes;
        count_bytes \<leftarrow> array_at 4 4 8 bytes;
        held_bytes \<leftarrow> array_at 4 8 12 bytes;
        let block_index = u32_from_le_bytes index_bytes;
        let symbol_count = u32_from_le_bytes count_bytes;
        let symbols_held = u32_from_le_bytes held_bytes;
        if symbols_held > symbol_count then Some (Inl (InvalidSymbolCount symbols_held)) else do {
        let fin = BLOCK_ENTRY_HEADER_SIZE + div_ceil_usize (unat symbol_count) 8;
        if length bytes < fin then Some (Inl (ResumeTruncated fin (length bytes))) else do {
        symbol_bitmap \<leftarrow> range_at BLOCK_ENTRY_HEADER_SIZE fin bytes;
        held \<leftarrow> sum_words checks 0 (map (\<lambda>b. of_nat (count_ones b)) symbol_bitmap);
        let used = unat (symbol_count mod 8);
        if held \<noteq> symbols_held then Some (Inl (HeldCountMismatch symbols_held held))
        else if symbol_bitmap \<noteq> [] \<and> used \<noteq> 0 \<and> drop_bit used (last symbol_bitmap) \<noteq> 0
          then Some (Inl (InvalidSymbolCount symbol_count))
        else Some (Inr
          (\<lparr>be_block_index = block_index, be_symbol_count = symbol_count, be_symbols_held = symbols_held,
            be_symbol_bitmap = symbol_bitmap\<rparr>, fin))
        }}})"

definition resume_header_to_vec_run :: "bool \<Rightarrow> ResumeHeader \<Rightarrow> bytes run" where
  "resume_header_to_vec_run checks r = do {
     debug_assert checks (length (resume_header_to_vec r) = RESUME_HEADER_SIZE);
     Some (resume_header_to_vec r)
   }"

definition resume_header_from_bytes_run :: "(bytes \<Rightarrow> bytes) \<Rightarrow> bytes \<Rightarrow> (ResumeError + ResumeHeader) run" where
  "resume_header_from_bytes_run h bytes =
     (if length bytes < RESUME_HEADER_SIZE
        then Some (Inl (ResumeTruncated RESUME_HEADER_SIZE (length bytes)))
      else do {
        magic \<leftarrow> array_at 4 0 4 bytes;
        if magic \<noteq> RESUME_MAGIC then Some (Inl (ResumeInvalidMagic magic)) else do {
        version \<leftarrow> byte_at 4 bytes;
        if version \<noteq> RESUME_VERSION then Some (Inl (ResumeUnsupportedVersion version)) else do {
        reserved1 \<leftarrow> array_at 3 5 8 bytes;
        if reserved1 \<noteq> replicate 3 0 then Some (Inl (ReservedNotZero 5)) else do {
        session_id \<leftarrow> array_at 16 8 24 bytes;
        block_count \<leftarrow> array_at 4 24 28 bytes;
        journal_bytes \<leftarrow> array_at 8 28 36 bytes;
        journal_digest \<leftarrow> array_at 32 36 68 bytes;
        reserved2 \<leftarrow> array_at 24 68 92 bytes;
        if reserved2 \<noteq> replicate 24 0 then Some (Inl (ReservedNotZero 68)) else do {
        crc_bytes \<leftarrow> array_at 4 92 96 bytes;
        integrity_digest \<leftarrow> array_at 32 96 128 bytes;
        crc_cover \<leftarrow> range_at 0 CRC_COVER_BYTES bytes;
        if u32_from_le_bytes crc_bytes \<noteq> crc32c_digest crc_cover then Some (Inl IntegrityCheckFailed)
        else do {
        integrity_cover \<leftarrow> range_at 0 INTEGRITY_COVER_BYTES bytes;
        if integrity_digest \<noteq> blake3_digest h integrity_cover then Some (Inl IntegrityCheckFailed)
        else Some (Inr
          \<lparr>rh_magic = magic, rh_version = version, rh_reserved1 = reserved1, rh_session_id = session_id,
           rh_block_count = u32_from_le_bytes block_count,
           rh_journal_bytes = u64_from_le_bytes journal_bytes,
           rh_journal_digest = journal_digest, rh_reserved2 = reserved2,
           rh_crc32c = u32_from_le_bytes crc_bytes, rh_integrity_digest = integrity_digest\<rparr>)
        }}}}}})"

fun resume_entries_loop_run ::
  "bool \<Rightarrow> nat \<Rightarrow> nat \<Rightarrow> bytes \<Rightarrow> nat \<Rightarrow> BlockEntry list \<Rightarrow> (ResumeError + BlockEntry list \<times> nat) run" where
  "resume_entries_loop_run checks 0 index bytes offset entries = Some (Inr (entries, offset))"
| "resume_entries_loop_run checks (Suc n) index bytes offset entries = do {
     rest \<leftarrow> tail_at offset bytes;
     try_run (block_entry_from_bytes_run checks rest) (\<lambda>(entry, consumed).
       if unat (be_block_index entry) \<noteq> index
         then Some (Inl (ResumeBlockIndexOutOfRange (be_block_index entry)))
       else resume_entries_loop_run checks n (Suc index) bytes (offset + consumed) (entries @ [entry]))
   }"

definition resume_file_from_bytes_run ::
  "bool \<Rightarrow> (bytes \<Rightarrow> bytes) \<Rightarrow> bytes \<Rightarrow> (ResumeError + ResumeFile) run" where
  "resume_file_from_bytes_run checks h bytes =
     try_run (resume_header_from_bytes_run h bytes) (\<lambda>header.
       try_run (resume_entries_loop_run checks (unat (rh_block_count header)) 0 bytes RESUME_HEADER_SIZE [])
         (\<lambda>(entries, offset).
           if offset \<noteq> length bytes then do {
             extra \<leftarrow> sub_usize checks (length bytes) offset;
             Some (Inl (ResumeTrailingBytes extra))
           }
           else Some (Inr \<lparr>rf_header = header, rf_entries = entries\<rparr>)))"

definition resume_file_to_vec_run :: "bool \<Rightarrow> ResumeFile \<Rightarrow> bytes run" where
  "resume_file_to_vec_run checks f = do {
     header \<leftarrow> resume_header_to_vec_run checks (rf_header f);
     Some (header @ concat (map block_entry_to_vec (rf_entries f)))
   }"

lemma resume_header_run_total [parser_runs]:
  "resume_header_from_bytes_run h bytes = Some (resume_header_from_bytes h bytes)"
proof (cases "length bytes < RESUME_HEADER_SIZE")
  case False
  then show ?thesis
    by (simp add: resume_header_from_bytes_run_def resume_header_from_bytes_def RESUME_HEADER_SIZE_def
        CRC_COVER_BYTES_def INTEGRITY_COVER_BYTES_def run_simps Let_def)
qed (simp add: resume_header_from_bytes_run_def resume_header_from_bytes_def)

lemma resume_file_to_vec_run_total [parser_runs]:
  "resume_file_wf h f \<Longrightarrow> resume_file_to_vec_run checks f = Some (resume_file_to_vec f)"
  using rhdr.length_to_vec [of h "rf_header f"]
  by (simp add: resume_file_to_vec_run_def resume_header_to_vec_run_def resume_file_to_vec_def resume_file_wf_def)

text \<open>The sum of the bits of a bitmap is exact while it is below \<open>2 ^ 32\<close>, which only a bitmap of
  \<open>2 ^ 29\<close> bytes can reach.\<close>

lemma count_ones_le: "count_ones b \<le> 8"
  using length_filter_le [of "bit b" "[0..<8]"] by (simp add: count_ones_def)

lemma popcount_le: "popcount bm \<le> 8 * length bm"
proof (induction bm)
  case (Cons b bm)
  then show ?case using count_ones_le [of b] by (simp add: popcount_def)
qed (simp add: popcount_def)

lemma sum_bits_unat: "sum_list (map unat (map (\<lambda>b. of_nat (count_ones b) :: u32) bm)) = popcount bm"
proof -
  have "unat (of_nat (count_ones b) :: u32) = count_ones b" for b
    using count_ones_le [of b] by (intro unat_of_nat_lt) simp
  then show ?thesis by (simp add: popcount_def comp_def)
qed

lemma sum_bits_total:
  assumes "\<not> checks \<or> popcount bm < 2 ^ 32"
  shows "sum_words checks 0 (map (\<lambda>b. of_nat (count_ones b)) bm) = Some (of_nat (popcount bm) :: u32)"
proof (cases checks)
  case True
  with assms sum_words_exact [of 0 "map (\<lambda>b. of_nat (count_ones b) :: u32) bm" checks]
  obtain t where "sum_words checks 0 (map (\<lambda>b. of_nat (count_ones b) :: u32) bm) = Some t"
      "unat t = popcount bm"
    unfolding sum_bits_unat by auto
  then show ?thesis by (metis of_nat_unat_id)
next
  case False
  then show ?thesis using sum_words_wraps [of 0 "map (\<lambda>b. of_nat (count_ones b) :: u32) bm"]
    unfolding sum_bits_unat by simp
qed

lemma sum_bits_overflow:
  "2 ^ 32 \<le> popcount bm \<Longrightarrow> sum_words True 0 (map (\<lambda>b. of_nat (count_ones b) :: u32) bm) = None"
  using sum_words_overflows [of 0 "map (\<lambda>b. of_nat (count_ones b) :: u32) bm"] unfolding sum_bits_unat by simp

lemma block_entry_run_total:
  assumes "\<not> checks \<or> length bytes < 2 ^ 29 + 12"
  shows "block_entry_from_bytes_run checks bytes = Some (block_entry_from_bytes bytes)"
proof (cases "length bytes < BLOCK_ENTRY_HEADER_SIZE")
  case False
  have "\<not> checks \<or> popcount (slice 12 fin bytes) < 2 ^ 32" if "fin \<le> length bytes" for fin
    using assms popcount_le [of "slice 12 fin bytes"] that by auto
  moreover have "12 \<le> length bytes" using False by (simp add: BLOCK_ENTRY_HEADER_SIZE_def)
  ultimately show ?thesis
    by (simp add: block_entry_from_bytes_run_def block_entry_from_bytes_def BLOCK_ENTRY_HEADER_SIZE_def
        run_simps sum_bits_total Let_def)
qed (simp add: block_entry_from_bytes_run_def block_entry_from_bytes_def)

lemma resume_entries_loop_offset:
  "resume_entries_loop n i bs off acc = Inr (es, off') \<Longrightarrow> off \<le> length bs \<Longrightarrow> off' \<le> length bs"
proof (induction n i bs off acc rule: resume_entries_loop.induct)
  case (2 n i bs off acc)
  from 2(2) obtain e k where e: "block_entry_from_bytes (drop off bs) = Inr (e, k)"
      "\<not> unat (be_block_index e) \<noteq> i" "resume_entries_loop n (Suc i) bs (off + k) (acc @ [e]) = Inr (es, off')"
    by (auto split: if_splits)
  moreover have "off + k \<le> length bs" using bentry.sound [OF e(1)] 2(3) by auto
  ultimately show ?case using 2(1) by blast
qed simp

lemma resume_entries_loop_run_total:
  assumes "\<not> checks \<or> length bs < 2 ^ 29 + 140" and "128 \<le> off" and "off \<le> length bs"
  shows "resume_entries_loop_run checks n i bs off acc = Some (resume_entries_loop n i bs off acc)"
  using assms
proof (induction n i bs off acc rule: resume_entries_loop.induct)
  case (2 n i bs off acc)
  have "\<not> checks \<or> length (drop off bs) < 2 ^ 29 + 12" using 2 by auto
  note entry = block_entry_run_total [OF this]
  show ?case
    unfolding resume_entries_loop_run.simps resume_entries_loop.simps tail_at_within [OF 2(4)] Option.bind.bind_lunit
      entry
  proof (rule try_run_total)
    fix a assume a: "block_entry_from_bytes (drop off bs) = Inr a"
    obtain e k where ek: "a = (e, k)" by fastforce
    with a have "off + k \<le> length bs" using bentry.sound 2(4) by fastforce
    then show "(case a of (e, k) \<Rightarrow> if unat (be_block_index e) \<noteq> i
          then Some (Inl (ResumeBlockIndexOutOfRange (be_block_index e)))
          else resume_entries_loop_run checks n (Suc i) bs (off + k) (acc @ [e])) =
        Some (case a of (e, k) \<Rightarrow> if unat (be_block_index e) \<noteq> i
          then Inl (ResumeBlockIndexOutOfRange (be_block_index e))
          else resume_entries_loop n (Suc i) bs (off + k) (acc @ [e]))"
      using 2(1) [of e k] 2(2,3) by (auto simp: ek)
  qed
qed simp

lemma resume_run_total:
  assumes "\<not> checks \<or> length bytes < 2 ^ 29 + 140"
  shows "resume_file_from_bytes_run checks h bytes = Some (resume_file_from_bytes h bytes)"
  unfolding resume_file_from_bytes_run_def resume_file_from_bytes_def resume_header_run_total
proof (rule try_run_total)
  fix hdr assume "resume_header_from_bytes h bytes = Inr hdr"
  then have l: "128 \<le> length bytes" using rhdr.sound by (fastforce simp: RESUME_HEADER_SIZE_def)
  note loop = resume_entries_loop_run_total [OF assms _ l [folded RESUME_HEADER_SIZE_def]]
  show "try_run (resume_entries_loop_run checks (unat (rh_block_count hdr)) 0 bytes RESUME_HEADER_SIZE [])
      (\<lambda>(es, off). if off \<noteq> length bytes then do {
           extra \<leftarrow> sub_usize checks (length bytes) off; Some (Inl (ResumeTrailingBytes extra)) }
         else Some (Inr \<lparr>rf_header = hdr, rf_entries = es\<rparr>)) =
    Some (res_bind (resume_entries_loop (unat (rh_block_count hdr)) 0 bytes RESUME_HEADER_SIZE [])
      (\<lambda>(es, off). if off \<noteq> length bytes then Inl (ResumeTrailingBytes (length bytes - off))
         else Inr \<lparr>rf_header = hdr, rf_entries = es\<rparr>))"
    using l by (subst loop)
      (auto simp: RESUME_HEADER_SIZE_def run_simps intro!: try_run_total dest!: resume_entries_loop_offset)
qed

section \<open>Manifests\<close>

definition file_entry_from_bytes_run :: "bytes \<Rightarrow> (ManifestError + FileEntry \<times> nat) run" where
  "file_entry_from_bytes_run bytes =
     (if length bytes < 2 then Some (Inl (ManifestTruncated 2 (length bytes)))
      else do {
        low \<leftarrow> byte_at 0 bytes;
        high \<leftarrow> byte_at 1 bytes;
        let name_len = unat (u16_from_le_bytes [low, high]);
        if name_len > MAX_NAME_LEN then Some (Inl (FileNameTooLong name_len)) else do {
        let total_entry_len = ENTRY_FIXED_LEN + name_len;
        if length bytes < total_entry_len
          then Some (Inl (ManifestTruncated total_entry_len (length bytes)))
        else do {
        name \<leftarrow> range_at 2 (2 + name_len) bytes;
        if \<not> utf8_valid name
          then Some (Inl (Malformed (Detail ''file name contains invalid UTF-8'' [])))
        else try_run (Some (validate_name name)) (\<lambda>_. do {
        size_bytes \<leftarrow> array_at 8 (2 + name_len) (10 + name_len) bytes;
        digest \<leftarrow> array_at 32 (10 + name_len) (42 + name_len) bytes;
        flags \<leftarrow> byte_at (42 + name_len) bytes;
        if flags AND NOT ENTRY_FLAG_KNOWN \<noteq> 0
          then Some (Inl (Malformed (Detail ''file entry {name} sets undefined flag bits {flags:#04x}''
                 (map unat name @ [unat flags]))))
        else Some (Inr
          (\<lparr>fe_name = name, fe_size = u64_from_le_bytes size_bytes, fe_digest = digest,
            fe_executable = (flags AND ENTRY_FLAG_EXECUTABLE \<noteq> 0)\<rparr>, total_entry_len))
        })}}})"

definition manifest_header_from_bytes_run :: "bytes \<Rightarrow> (ManifestError + ManifestHeader) run" where
  "manifest_header_from_bytes_run bytes =
     (if length bytes < 5 then Some (Inl (ManifestTruncated MANIFEST_HEADER_SIZE (length bytes)))
      else do {
        magic \<leftarrow> array_at 4 0 4 bytes;
        if magic \<noteq> MANIFEST_MAGIC then Some (Inl (ManifestInvalidMagic magic)) else do {
        version \<leftarrow> byte_at 4 bytes;
        if version \<noteq> MANIFEST_VERSION then Some (Inl (ManifestUnsupportedVersion version))
        else if length bytes < MANIFEST_HEADER_SIZE
          then Some (Inl (ManifestTruncated MANIFEST_HEADER_SIZE (length bytes)))
        else do {
        reserved1 \<leftarrow> range_at 5 8 bytes;
        if reserved1 \<noteq> replicate 3 0
          then Some (Inl (Malformed (Detail ''reserved bytes at offset 5 must be zero'' [])))
        else do {
        session_id \<leftarrow> array_at 16 8 24 bytes;
        file_count \<leftarrow> array_at 4 24 28 bytes;
        total_size \<leftarrow> array_at 8 28 36 bytes;
        payload_digest \<leftarrow> array_at 32 36 68 bytes;
        salt \<leftarrow> array_at 32 68 100 bytes;
        nonce \<leftarrow> array_at 24 100 124 bytes;
        payload_size \<leftarrow> array_at 8 124 132 bytes;
        block_count \<leftarrow> array_at 4 132 136 bytes;
        symbol_size \<leftarrow> array_at 4 136 140 bytes;
        source_symbols_per_block \<leftarrow> array_at 4 140 144 bytes;
        total_symbols_per_block \<leftarrow> array_at 4 144 148 bytes;
        z \<leftarrow> array_at 4 148 152 bytes;
        n \<leftarrow> array_at 4 152 156 bytes;
        psi \<leftarrow> array_at 2 156 158 bytes;
        reserved2 \<leftarrow> range_at 158 160 bytes;
        if reserved2 \<noteq> replicate 2 0
          then Some (Inl (Malformed (Detail ''reserved bytes at offset 158 must be zero'' [])))
        else do {
        crc_bytes \<leftarrow> array_at 4 CRC_OFFSET (CRC_OFFSET + 4) bytes;
        signature \<leftarrow> array_at 64 SIGNATURE_OFFSET MANIFEST_HEADER_SIZE bytes;
        covered \<leftarrow> range_at 0 CRC_OFFSET bytes;
        if u32_from_le_bytes crc_bytes \<noteq> crc32c_digest covered then Some (Inl ManifestCrcMismatch)
        else Some (Inr
          \<lparr>mh_magic = magic, mh_version = version, mh_session_id = session_id,
           mh_file_count = u32_from_le_bytes file_count, mh_total_size = u64_from_le_bytes total_size,
           mh_salt = salt, mh_nonce = nonce,
           mh_params =
             \<lparr>sp_payload_size = u64_from_le_bytes payload_size,
              sp_block_count = u32_from_le_bytes block_count,
              sp_symbol_size = u32_from_le_bytes symbol_size,
              sp_source_symbols_per_block = u32_from_le_bytes source_symbols_per_block,
              sp_total_symbols_per_block = u32_from_le_bytes total_symbols_per_block,
              sp_raptorq = \<lparr>rq_z = u32_from_le_bytes z, rq_n = u32_from_le_bytes n,
                            rq_psi = u16_from_le_bytes psi\<rparr>,
              sp_payload_digest = payload_digest\<rparr>,
           mh_crc32c = u32_from_le_bytes crc_bytes, mh_signature = signature\<rparr>)
        }}}}})"

fun manifest_entries_loop_run ::
  "nat \<Rightarrow> bytes \<Rightarrow> nat \<Rightarrow> FileEntry list \<Rightarrow> (ManifestError + FileEntry list \<times> nat) run" where
  "manifest_entries_loop_run 0 bytes offset entries = Some (Inr (entries, offset))"
| "manifest_entries_loop_run (Suc n) bytes offset entries =
     (if offset \<ge> length bytes then Some (Inl (ManifestTruncated (length bytes + 1) (length bytes)))
      else do {
        rest \<leftarrow> tail_at offset bytes;
        try_run (file_entry_from_bytes_run rest) (\<lambda>(entry, consumed).
          manifest_entries_loop_run n bytes (offset + consumed) (entries @ [entry]))
      })"

definition manifest_from_bytes_run :: "bool \<Rightarrow> bytes \<Rightarrow> (ManifestError + Manifest) run" where
  "manifest_from_bytes_run checks bytes =
     try_run (manifest_header_from_bytes_run bytes) (\<lambda>header.
       if mh_file_count header > MAX_FILE_COUNT then Some (Inl (InvalidFileCount (mh_file_count header)))
       else
         try_run (manifest_entries_loop_run (unat (mh_file_count header)) bytes MANIFEST_HEADER_SIZE [])
           (\<lambda>(entries, offset).
             if offset \<noteq> length bytes then do {
               extra \<leftarrow> sub_usize checks (length bytes) offset;
               Some (Inl (Malformed (Detail ''{} trailing bytes after the last file entry'' [extra])))
             }
             else Some (Inr \<lparr>mf_header = header, mf_entries = entries\<rparr>)))"

definition manifest_to_vec_run :: "bool \<Rightarrow> Manifest \<Rightarrow> bytes run" where
  "manifest_to_vec_run checks m =
     (let h = mf_header m;
          covered = crc_covered_bytes (mh_session_id h) (mh_file_count h) (mh_total_size h) (mh_salt h)
            (mh_nonce h) (mh_params h)
      in do {
        debug_assert checks (length covered = CRC_OFFSET);
        debug_assert checks (length (manifest_header_to_vec h) = MANIFEST_HEADER_SIZE);
        Some (manifest_to_vec m)
      })"

definition zero_signature_run :: "bytes \<Rightarrow> bytes run" where
  "zero_signature_run bytes = do {
     range_at SIGNATURE_OFFSET MANIFEST_HEADER_SIZE bytes;
     Some (zero_signature bytes)
   }"

definition signing_bytes_run :: "bool \<Rightarrow> Manifest \<Rightarrow> bytes run" where
  "signing_bytes_run checks m = do { bytes \<leftarrow> manifest_to_vec_run checks m; zero_signature_run bytes }"

definition signing_bytes_of_run :: "bytes \<Rightarrow> (ManifestError + bytes) run" where
  "signing_bytes_of_run bytes =
     (if length bytes < MANIFEST_HEADER_SIZE
        then Some (Inl (ManifestTruncated MANIFEST_HEADER_SIZE (length bytes)))
      else do { owned \<leftarrow> zero_signature_run bytes; Some (Inr owned) })"

definition verify_signature_run ::
  "bool \<Rightarrow> ('sk, 'vk) ed25519 \<Rightarrow> 'vk PublicIdentity \<Rightarrow> bytes \<Rightarrow> (CryptManifestError + Manifest) run" where
  "verify_signature_run checks E expected_signer bytes = do {
     parsed \<leftarrow> manifest_from_bytes_run checks bytes;
     try_run (Some (map_err convert_codec_error parsed)) (\<lambda>manifest. do {
       signing \<leftarrow> signing_bytes_of_run bytes;
       try_run (Some (map_err convert_codec_error signing)) (\<lambda>signing.
         if \<not> public_verify E expected_signer signing (mh_signature (mf_header manifest))
           then Some (Inl CmSignatureVerificationFailed)
         else Some (Inr manifest))
     })
   }"

definition verify_manifest_with_run ::
  "bool \<Rightarrow> ('sk, 'vk) ed25519 \<Rightarrow> 'vk PublicIdentity \<Rightarrow> bytes \<Rightarrow> bytes option \<Rightarrow> Policy \<Rightarrow>
   (CryptManifestError + 'vk VerifiedManifest) run" where
  "verify_manifest_with_run checks E expected_signer bytes session_id policy =
     try_run (verify_signature_run checks E expected_signer bytes) (\<lambda>manifest.
       if (case session_id of Some expected \<Rightarrow> mh_session_id (mf_header manifest) \<noteq> expected
           | None \<Rightarrow> False)
         then Some (Inl CmSessionMismatch)
       else try_run (Some (check_policy manifest policy)) (\<lambda>_.
         Some (Inr \<lparr>vm_manifest = manifest, vm_signer = expected_signer\<rparr>)))"

lemma file_entry_run_total [parser_runs]:
  "file_entry_from_bytes_run bytes = Some (file_entry_from_bytes bytes)"
proof (cases "length bytes < 2")
  case False
  then have "bytes \<noteq> []" by auto
  with False show ?thesis
    by (cases "validate_name (slice 2 (2 + unat (u16_from_le_bytes [bytes ! 0, bytes ! 1])) bytes)")
      (simp_all add: file_entry_from_bytes_run_def file_entry_from_bytes_def ENTRY_FIXED_LEN_def
        run_simps Let_def del: le_word.simps)
qed (simp add: file_entry_from_bytes_run_def file_entry_from_bytes_def)

lemma manifest_header_run_total [parser_runs]:
  "manifest_header_from_bytes_run bytes = Some (manifest_header_from_bytes bytes)"
proof (cases "length bytes < MANIFEST_HEADER_SIZE")
  case False
  then show ?thesis
    by (simp add: manifest_header_from_bytes_run_def manifest_header_from_bytes_def manifest_sizes
        run_simps Let_def)
qed (simp add: manifest_header_from_bytes_run_def manifest_header_from_bytes_def run_simps Let_def)

lemma manifest_entries_run_total:
  "manifest_entries_loop_run n bs off acc = Some (manifest_entries_loop n bs off acc)"
proof (induction n bs off acc rule: manifest_entries_loop.induct)
  case (2 n bs off acc)
  show ?case
  proof (cases "length bs \<le> off")
    case False
    then have "manifest_entries_loop_run (Suc n) bs off acc =
        try_run (Some (file_entry_from_bytes (drop off bs))) (\<lambda>(e, k).
          manifest_entries_loop_run n bs (off + k) (acc @ [e]))"
      by (simp add: run_simps file_entry_run_total)
    also have "\<dots> = Some (res_bind (file_entry_from_bytes (drop off bs)) (\<lambda>(e, k).
          manifest_entries_loop n bs (off + k) (acc @ [e])))"
      using 2 False by (intro try_run_total) auto
    finally show ?thesis using False by simp
  qed simp
qed simp

lemma manifest_run_total [parser_runs]: "manifest_from_bytes_run checks bytes = Some (manifest_from_bytes bytes)"
  unfolding manifest_from_bytes_run_def manifest_from_bytes_def manifest_header_run_total manifest_entries_run_total
proof (intro try_run_total)
  fix hdr assume "manifest_header_from_bytes bytes = Inr hdr"
  then have l: "MANIFEST_HEADER_SIZE \<le> length bytes" using mhdr.sound by blast
  have off: "off \<le> length bytes"
    if "manifest_entries_loop n bytes MANIFEST_HEADER_SIZE [] = Inr (es, off)" for n es off
  proof -
    from manifest_entries_loop_sound [OF that] obtain v r where
      "drop MANIFEST_HEADER_SIZE bytes = v @ r" "off = MANIFEST_HEADER_SIZE + length v"
      by auto
    then have "length bytes - MANIFEST_HEADER_SIZE = length v + length r"
      by (metis length_append length_drop)
    with l \<open>off = _\<close> show ?thesis by simp
  qed
  show "(if MAX_FILE_COUNT < mh_file_count hdr then Some (Inl (InvalidFileCount (mh_file_count hdr)))
      else try_run (Some (manifest_entries_loop (unat (mh_file_count hdr)) bytes MANIFEST_HEADER_SIZE []))
        (\<lambda>(es, off). if off \<noteq> length bytes then do {
             extra \<leftarrow> sub_usize checks (length bytes) off;
             Some (Inl (Malformed (Detail ''{} trailing bytes after the last file entry'' [extra]))) }
           else Some (Inr \<lparr>mf_header = hdr, mf_entries = es\<rparr>))) =
    Some (if MAX_FILE_COUNT < mh_file_count hdr then Inl (InvalidFileCount (mh_file_count hdr))
      else res_bind (manifest_entries_loop (unat (mh_file_count hdr)) bytes MANIFEST_HEADER_SIZE [])
        (\<lambda>(es, off). if off \<noteq> length bytes
           then Inl (Malformed (Detail ''{} trailing bytes after the last file entry'' [length bytes - off]))
           else Inr \<lparr>mf_header = hdr, mf_entries = es\<rparr>))"
    by (auto simp: run_simps intro!: try_run_total dest!: off)
qed

lemma manifest_to_vec_run_total [parser_runs]:
  "manifest_wf m \<Longrightarrow> manifest_to_vec_run checks m = Some (manifest_to_vec m)"
  using mhdr.length_to_vec [of "mf_header m"]
  by (simp add: manifest_to_vec_run_def manifest_wf_def manifest_header_wf_def length_crc_covered CRC_OFFSET_def Let_def)

lemma zero_signature_run_total [parser_runs]:
  "MANIFEST_HEADER_SIZE \<le> length bytes \<Longrightarrow> zero_signature_run bytes = Some (zero_signature bytes)"
  by (simp add: zero_signature_run_def manifest_sizes run_simps)

lemma signing_bytes_run_total [parser_runs]:
  "manifest_wf m \<Longrightarrow> signing_bytes_run checks m = Some (signing_bytes m)"
  using mhdr.length_to_vec [of "mf_header m"]
  by (simp add: signing_bytes_run_def signing_bytes_def parser_runs)
    (simp add: manifest_wf_def manifest_to_vec_def parser_runs)

lemma signing_bytes_of_run_total [parser_runs]: "signing_bytes_of_run bytes = Some (signing_bytes_of bytes)"
  by (simp add: signing_bytes_of_run_def signing_bytes_of_def parser_runs)

lemma verify_signature_run_total [parser_runs]:
  "verify_signature_run checks E signer bytes = Some (verify_signature E signer bytes)"
  unfolding verify_signature_run_def verify_signature_def cm_parse_def manifest_run_total signing_bytes_of_run_total
    Option.bind.bind_lunit
  by (intro try_run_total) simp

lemma verify_manifest_with_run_total [parser_runs]:
  "verify_manifest_with_run checks E signer bytes sid policy = Some (verify_manifest_with E signer bytes sid policy)"
  unfolding verify_manifest_with_run_def verify_manifest_with_def verify_signature_run_total
  by (intro try_run_total) (auto intro!: try_run_total)

section \<open>Key files\<close>

definition decode_key_file_run :: "(bytes \<Rightarrow> bytes) \<Rightarrow> bytes \<Rightarrow> (KeyError + KeyKind \<times> bytes) run" where
  "decode_key_file_run h bytes =
     (if length bytes \<noteq> KEY_FILE_SIZE then Some (Inl (KeyTruncated KEY_FILE_SIZE (length bytes)))
      else do {
        prefix \<leftarrow> range_at 0 4 bytes;
        let magic = (if length prefix = 4 then prefix else replicate 4 0);
        if magic \<noteq> KEY_MAGIC then Some (Inl (KeyInvalidMagic KEY_MAGIC magic)) else do {
        version \<leftarrow> byte_at 4 bytes;
        if version \<noteq> KEY_VERSION then Some (Inl (KeyUnsupportedVersion version)) else do {
        kind_byte \<leftarrow> byte_at 5 bytes;
        try_run (Some (key_kind_from_u8 kind_byte)) (\<lambda>kind. do {
        reserved \<leftarrow> range_at 6 8 bytes;
        if reserved \<noteq> replicate 2 0
          then Some (Inl (InvalidKey (Detail ''reserved field must be zero'' [])))
        else do {
        covered \<leftarrow> range_at 0 CHECKSUM_OFFSET bytes;
        found \<leftarrow> tail_at CHECKSUM_OFFSET bytes;
        if h covered \<noteq> found then Some (Inl (InvalidKey (Detail ''key file checksum mismatch'' [])))
        else do {
        material \<leftarrow> array_at KEY_MATERIAL_LEN 8 CHECKSUM_OFFSET bytes;
        Some (Inr (kind, material))
        }}})}}})"

lemma key_file_run_total [parser_runs]: "decode_key_file_run h bytes = Some (decode_key_file h bytes)"
proof (cases "length bytes = KEY_FILE_SIZE")
  case True
  then show ?thesis
    by (cases "key_kind_from_u8 (bytes ! 5)")
      (simp_all add: decode_key_file_run_def decode_key_file_def KEY_FILE_SIZE_def CHECKSUM_OFFSET_def
        KEY_MATERIAL_LEN_def run_simps Let_def slice_0_take)
qed (simp add: decode_key_file_run_def decode_key_file_def)

section \<open>What can panic\<close>

text \<open>The largest resume bitmap: the run of its entry overflows the sum.\<close>

definition full_entry :: "bytes \<Rightarrow> BlockEntry" where
  "full_entry bm =
     \<lparr>be_block_index = 0, be_symbol_count = 0xFFFFFFFF, be_symbols_held = 0, be_symbol_bitmap = bm\<rparr>"

lemma full_bitmap_panics:
  assumes "length bm = 2 ^ 29" and "popcount bm = 2 ^ 32" and "last bm = 255"
  shows "block_entry_from_bytes_run True (block_entry_to_vec (full_entry bm)) = None"
    and "block_entry_from_bytes (block_entry_to_vec (full_entry bm)) = Inl (InvalidSymbolCount 0xFFFFFFFF)"
proof -
  let ?bs = "le_bytes 4 (0 :: u32) @ le_bytes 4 (0xFFFFFFFF :: u32) @ le_bytes 4 (0 :: u32) @ bm"
  have l: "length ?bs = 12 + length bm" by simp
  have f: "slice 0 4 ?bs = le_bytes 4 (0 :: u32)" "slice 4 8 ?bs = le_bytes 4 (0xFFFFFFFF :: u32)"
      "slice 8 12 ?bs = le_bytes 4 (0 :: u32)" "slice 12 (12 + length bm) ?bs = bm"
    by (simp_all add: wire_simps)
  have c: "div_ceil_usize (unat (0xFFFFFFFF :: u32)) 8 = length bm"
    using assms(1) by (simp add: div_ceil_usize_def)
  have ne: "bm \<noteq> []" using assms(1) by auto
  have "sum_words True 0 (map (\<lambda>b. of_nat (count_ones b) :: u32) bm) = None"
    using assms(2) by (intro sum_bits_overflow) simp
  with l f c show "block_entry_from_bytes_run True (block_entry_to_vec (full_entry bm)) = None"
    by (simp add: block_entry_from_bytes_run_def block_entry_to_vec_def full_entry_def
        BLOCK_ENTRY_HEADER_SIZE_def run_simps Let_def del: le_bytes.simps)
  from l f c ne assms(2,3)
  show "block_entry_from_bytes (block_entry_to_vec (full_entry bm)) = Inl (InvalidSymbolCount 0xFFFFFFFF)"
    by (simp add: block_entry_from_bytes_def block_entry_to_vec_def full_entry_def
        BLOCK_ENTRY_HEADER_SIZE_def Let_def del: le_bytes.simps)
qed

lemma full_bitmap_exists: "0 < n \<Longrightarrow> \<exists>bm :: bytes. length bm = n \<and> popcount bm = 8 * n \<and> last bm = 255"
proof (intro exI conjI)
  have "count_ones 255 = 8" by code_simp
  then show "popcount (replicate n 255) = 8 * n" by (simp add: popcount_def sum_list_replicate)
qed simp_all

text \<open>C6: parsing never panics. On every byte string, with and without overflow checks, and with every
  index, range, array conversion, difference and sum of words an operation that can panic, the parsers of frames, session headers, manifests and key files and the verification of signed manifests
  return, and return what their total counterparts compute; so does the resume parser without
  overflow checks.\<close>

theorem parsers_never_panic:
  "frame_from_bytes_run kh bytes key = Some (frame_from_bytes kh bytes key) \<and>
   session_header_from_bytes_run bytes = Some (session_header_from_bytes bytes) \<and>
   file_entry_from_bytes_run bytes = Some (file_entry_from_bytes bytes) \<and>
   manifest_from_bytes_run checks bytes = Some (manifest_from_bytes bytes) \<and>
   verify_manifest_with_run checks E signer bytes sid policy =
     Some (verify_manifest_with E signer bytes sid policy) \<and>
   decode_key_file_run h bytes = Some (decode_key_file h bytes) \<and>
   resume_file_from_bytes_run False h bytes = Some (resume_file_from_bytes h bytes)"
  by (intro conjI parser_runs resume_run_total) simp

text \<open>C8: with overflow checks the resume parser panics on an input of \<open>2 ^ 29 + 140\<close> bytes, a file of
  one entry whose bitmap is all ones and which it refuses without the checks, and on no shorter
  input.\<close>

theorem resume_parser_overflow:
  assumes "hash_32 h"
  shows "(\<exists>huge. length huge = 2 ^ 29 + 140 \<and> resume_file_from_bytes_run True h huge = None \<and>
       resume_file_from_bytes_run False h huge = Some (Inl (InvalidSymbolCount 0xFFFFFFFF))) \<and>
     (length bytes < 2 ^ 29 + 140 \<longrightarrow>
       resume_file_from_bytes_run True h bytes = Some (resume_file_from_bytes h bytes))"
proof (intro conjI impI)
  from full_bitmap_exists [of "2 ^ 29"] obtain bm :: bytes where
    bm: "length bm = 2 ^ 29" "popcount bm = 2 ^ 32" "last bm = 255"
    by auto
  let ?hdr = "resume_header_new h (replicate 16 1) 0 (replicate 32 0) [full_entry bm]"
  let ?huge = "resume_header_to_vec ?hdr @ block_entry_to_vec (full_entry bm)"
  have wf: "resume_header_wf h ?hdr" by (rule resume_header_new_wf [OF assms]) simp_all
  have n: "rh_block_count ?hdr = 1" by (simp add: resume_header_new_def Let_def)
  have l: "length (resume_header_to_vec ?hdr) = RESUME_HEADER_SIZE" by (rule rhdr.length_to_vec [OF wf])
  have hd: "resume_header_from_bytes h ?huge = Inr ?hdr" by (rule rhdr.accepts [OF wf])
  have "resume_file_from_bytes h ?huge = Inl (InvalidSymbolCount 0xFFFFFFFF)"
    unfolding resume_file_from_bytes_def hd using full_bitmap_panics(2) [OF bm] l n by simp
  moreover have "resume_file_from_bytes_run True h ?huge = None"
    unfolding resume_file_from_bytes_run_def resume_header_run_total hd
    using full_bitmap_panics(1) [OF bm] l n by (simp add: tail_at_within)
  moreover have "length ?huge = 2 ^ 29 + 140"
    using l bm(1) by (simp add: RESUME_HEADER_SIZE_def block_entry_to_vec_def full_entry_def)
  ultimately show "\<exists>huge. length huge = 2 ^ 29 + 140 \<and> resume_file_from_bytes_run True h huge = None \<and>
       resume_file_from_bytes_run False h huge = Some (Inl (InvalidSymbolCount 0xFFFFFFFF))"
    using resume_run_total [of False ?huge h] by metis
qed (simp add: resume_run_total)

theorem resume_parser_overflow_witness:
  "(\<exists>huge. length huge = 2 ^ 29 + 140 \<and> resume_file_from_bytes_run True (\<lambda>_. replicate 32 7) huge = None) \<and>
   resume_file_from_bytes_run True (\<lambda>_. replicate 32 7) [] = Some (Inl (ResumeTruncated 128 0))"
proof -
  have "hash_32 (\<lambda>_. replicate 32 7)" by (simp add: hash_32_def)
  from resume_parser_overflow [OF this, of "[]"] show ?thesis
    by (auto simp: resume_file_from_bytes_def resume_header_from_bytes_def RESUME_HEADER_SIZE_def)
qed

end
