(* ===== verification/Ffi_Base.thy ===== *)
theory Ffi_Base
  imports Pipeline Qr Kdf_Aead Parser_Runs
begin

text \<open>
  The ground of the C interface, \<open>core/dhow-ffi/src\<close>: status codes and the last-error slot
  (\<open>error.rs\<close>), panic containment (\<open>guard.rs\<close>), and the memory conventions of \<open>handle.rs\<close>.

  A call acts on the state of the library as its caller sees it: the boxes behind the handles, the
  last-error slot of the thread, and the file system. It returns a value, panics, or is
  undefined behaviour: dereferencing a handle that is not live or of another type, or reading or
  writing a caller's buffer beyond its end. A handle is an address, null is \<open>0\<close>, and the
  allocator hands out addresses in order. A pointer into the caller's memory is \<^const>\<open>None\<close> for null
  and otherwise the contents from that address on; what a call writes there is part of its result.
\<close>

section \<open>Calls\<close>

datatype ('s, 'a) outcome = Returns 'a 's | Panics 's | Undefined

type_synonym ('s, 'a) call = "'s \<Rightarrow> ('s, 'a) outcome"

definition ret :: "'a \<Rightarrow> ('s, 'a) call" where
  "ret x = (\<lambda>s. Returns x s)"

definition undefined_behaviour :: "('s, 'a) call" where
  "undefined_behaviour = (\<lambda>s. Undefined)"

definition panic :: "('s, 'a) call" where
  "panic = (\<lambda>s. Panics s)"

definition call_bind :: "('s, 'a) call \<Rightarrow> ('a \<Rightarrow> ('s, 'b) call) \<Rightarrow> ('s, 'b) call" where
  "call_bind m f = (\<lambda>s. case m s of Returns x s' \<Rightarrow> f x s' | Panics s' \<Rightarrow> Panics s' | Undefined \<Rightarrow> Undefined)"

abbreviation call_then :: "('s, 'a) call \<Rightarrow> ('s, 'b) call \<Rightarrow> ('s, 'b) call" where
  "call_then m n \<equiv> call_bind m (\<lambda>_. n)"

text \<open>\<open>std::panic::catch_unwind\<close>.\<close>

definition catch_unwind :: "('s, 'a) call \<Rightarrow> ('s, 'a option) call" where
  "catch_unwind m = (\<lambda>s. case m s of Returns x s' \<Rightarrow> Returns (Some x) s'
     | Panics s' \<Rightarrow> Returns None s' | Undefined \<Rightarrow> Undefined)"

section \<open>Status codes and messages\<close>

type_synonym c_int = "32 word"

datatype DhowStatus =
    StOk
  | StNullArgument
  | StInvalidArgument
  | StBufferTooSmall
  | StInvalidParameters
  | StFrameRejected
  | StIncomplete
  | StVerificationFailed
  | StCryptoFailed
  | StKeyFailed
  | StInternal
  | StPanic
  | StResumeRejected

text \<open>\<open>status as c_int\<close>.\<close>

fun status_code :: "DhowStatus \<Rightarrow> c_int" where
  "status_code StOk = 0"
| "status_code StNullArgument = - 1"
| "status_code StInvalidArgument = - 2"
| "status_code StBufferTooSmall = - 3"
| "status_code StInvalidParameters = - 4"
| "status_code StFrameRejected = - 5"
| "status_code StIncomplete = - 6"
| "status_code StVerificationFailed = - 7"
| "status_code StCryptoFailed = - 8"
| "status_code StKeyFailed = - 9"
| "status_code StInternal = - 10"
| "status_code StPanic = - 11"
| "status_code StResumeRejected = - 12"

definition dhow_status_string :: "c_int \<Rightarrow> string" where
  "dhow_status_string status =
     (if status = 0 then ''ok''
      else if status = - 1 then ''null argument''
      else if status = - 2 then ''invalid argument''
      else if status = - 3 then ''buffer too small''
      else if status = - 4 then ''invalid session parameters''
      else if status = - 5 then ''frame rejected''
      else if status = - 6 then ''incomplete''
      else if status = - 7 then ''verification failed''
      else if status = - 8 then ''crypto operation failed''
      else if status = - 9 then ''key operation failed''
      else if status = - 10 then ''internal error''
      else if status = - 11 then ''panic caught at ABI boundary''
      else if status = - 12 then ''resume state rejected''
      else ''unknown status'')"

text \<open>A message is a text of the interface itself or the \<open>Display\<close> of an error of the crates below,
  which \<open>thiserror\<close> generates; the last two are such a display inside a text.\<close>

datatype message =
    Msg detail
  | MsgCodec CodecError
  | MsgKey KeyError
  | MsgAead AeadError
  | MsgResume ResumeError
  | MsgQr QrError
  | MsgManifest CryptManifestError
  | MsgNotParsedBack ManifestError
  | MsgFileEntry nat ManifestError

abbreviation text_message :: "string \<Rightarrow> message" where
  "text_message t \<equiv> Msg (Detail t [])"

section \<open>The library state\<close>

type_synonym addr = nat

record DhowSessionParams =
  dp_payload_size :: u64
  dp_block_count :: u32
  dp_symbol_size :: u32
  dp_source_symbols_per_block :: u32
  dp_total_symbols_per_block :: u32
  dp_payload_digest :: bytes

definition to_session_params :: "DhowSessionParams \<Rightarrow> SessionParams" where
  "to_session_params p =
     \<lparr>sp_payload_size = dp_payload_size p, sp_block_count = dp_block_count p,
      sp_symbol_size = dp_symbol_size p,
      sp_source_symbols_per_block = dp_source_symbols_per_block p,
      sp_total_symbols_per_block = dp_total_symbols_per_block p,
      sp_raptorq = \<lparr>rq_z = 1, rq_n = 1, rq_psi = 1\<rparr>,
      sp_payload_digest = dp_payload_digest p\<rparr>"

record DhowKey =
  dk_inner :: OperatorKey

record DhowEncoder =
  de_frames :: "bytes list"
  de_params :: DhowSessionParams

record 'dec DhowDecoder =
  dd_inner :: "'dec PipelineDecoder"

record DhowHasher =
  dh_inner :: Blake3Hasher

record 'sk DhowIdentity =
  di_inner :: "'sk IdentityKey"

record 'vk DhowPublicIdentity =
  du_inner :: "'vk PublicIdentity"

record DhowManifest =
  dm_manifest :: Manifest
  dm_bytes :: bytes

datatype ('sk, 'vk, 'dec) boxed =
    BoxKey DhowKey
  | BoxEncoder DhowEncoder
  | BoxDecoder "'dec DhowDecoder"
  | BoxHasher DhowHasher
  | BoxIdentity "'sk DhowIdentity"
  | BoxPublic "'vk DhowPublicIdentity"
  | BoxManifest DhowManifest

record ('sk, 'vk, 'dec) library =
  lib_heap :: "addr \<Rightarrow> ('sk, 'vk, 'dec) boxed option"
  lib_next :: addr
  lib_last_error :: message
  lib_files :: files

fun as_key :: "('sk, 'vk, 'dec) boxed \<Rightarrow> DhowKey option" where
  "as_key (BoxKey x) = Some x"
| "as_key _ = None"

fun as_encoder :: "('sk, 'vk, 'dec) boxed \<Rightarrow> DhowEncoder option" where
  "as_encoder (BoxEncoder x) = Some x"
| "as_encoder _ = None"

fun as_decoder :: "('sk, 'vk, 'dec) boxed \<Rightarrow> 'dec DhowDecoder option" where
  "as_decoder (BoxDecoder x) = Some x"
| "as_decoder _ = None"

fun as_hasher :: "('sk, 'vk, 'dec) boxed \<Rightarrow> DhowHasher option" where
  "as_hasher (BoxHasher x) = Some x"
| "as_hasher _ = None"

fun as_identity :: "('sk, 'vk, 'dec) boxed \<Rightarrow> 'sk DhowIdentity option" where
  "as_identity (BoxIdentity x) = Some x"
| "as_identity _ = None"

fun as_public :: "('sk, 'vk, 'dec) boxed \<Rightarrow> 'vk DhowPublicIdentity option" where
  "as_public (BoxPublic x) = Some x"
| "as_public _ = None"

fun as_manifest :: "('sk, 'vk, 'dec) boxed \<Rightarrow> DhowManifest option" where
  "as_manifest (BoxManifest x) = Some x"
| "as_manifest _ = None"

text \<open>\<open>Box::into_raw(Box::new(x))\<close>, \<open>&*p\<close>, a write through \<open>&mut *p\<close>, and \<open>drop(Box::from_raw(p))\<close>.\<close>

definition into_raw :: "('sk, 'vk, 'dec) boxed \<Rightarrow> (('sk, 'vk, 'dec) library, addr) call" where
  "into_raw b = (\<lambda>L. Returns (lib_next L)
     (L\<lparr>lib_heap := (lib_heap L)(lib_next L \<mapsto> b), lib_next := Suc (lib_next L)\<rparr>))"

definition deref ::
  "(('sk, 'vk, 'dec) boxed \<Rightarrow> 'a option) \<Rightarrow> addr \<Rightarrow> (('sk, 'vk, 'dec) library, 'a) call" where
  "deref sel p = (\<lambda>L. case Option.bind (lib_heap L p) sel of
     Some x \<Rightarrow> Returns x L | None \<Rightarrow> Undefined)"

definition assign :: "addr \<Rightarrow> ('sk, 'vk, 'dec) boxed \<Rightarrow> (('sk, 'vk, 'dec) library, unit) call" where
  "assign p b = (\<lambda>L. Returns () (L\<lparr>lib_heap := (lib_heap L)(p \<mapsto> b)\<rparr>))"

definition from_raw_drop ::
  "(('sk, 'vk, 'dec) boxed \<Rightarrow> 'a option) \<Rightarrow> addr \<Rightarrow> (('sk, 'vk, 'dec) library, unit) call" where
  "from_raw_drop sel p = (\<lambda>L. case Option.bind (lib_heap L p) sel of
     Some x \<Rightarrow> Returns () (L\<lparr>lib_heap := (lib_heap L)(p := None)\<rparr>) | None \<Rightarrow> Undefined)"

definition get_files :: "(('sk, 'vk, 'dec) library, files) call" where
  "get_files = (\<lambda>L. Returns (lib_files L) L)"

definition put_files :: "files \<Rightarrow> (('sk, 'vk, 'dec) library, unit) call" where
  "put_files F = (\<lambda>L. Returns () (L\<lparr>lib_files := F\<rparr>))"

section \<open>The last error\<close>

definition set_last_error :: "message \<Rightarrow> (('sk, 'vk, 'dec) library, unit) call" where
  "set_last_error m = (\<lambda>L. Returns () (L\<lparr>lib_last_error := m\<rparr>))"

definition clear_last_error :: "(('sk, 'vk, 'dec) library, unit) call" where
  "clear_last_error = set_last_error (text_message '''')"

definition fail :: "DhowStatus \<Rightarrow> message \<Rightarrow> (('sk, 'vk, 'dec) library, DhowStatus) call" where
  "fail status m = call_then (set_last_error m) (ret status)"

text \<open>A failed call that has output pointers leaves what they point to as it is.\<close>

definition fail_out :: "'o \<Rightarrow> DhowStatus \<Rightarrow> message \<Rightarrow> (('sk, 'vk, 'dec) library, DhowStatus \<times> 'o) call" where
  "fail_out out status m = call_bind (fail status m) (\<lambda>st. ret (st, out))"

text \<open>\<open>set_last_error(..); return std::ptr::null_mut()\<close>.\<close>

definition fail_ptr :: "message \<Rightarrow> (('sk, 'vk, 'dec) library, addr) call" where
  "fail_ptr m = call_then (set_last_error m) (ret 0)"

section \<open>Panic containment\<close>

definition PANIC_MESSAGE :: message where
  "PANIC_MESSAGE = text_message
     ''internal error: a panic was caught at the ABI boundary; this is a bug in dhow''"

definition guard_with ::
  "'r \<Rightarrow> (('sk, 'vk, 'dec) library, 'r) call \<Rightarrow> (('sk, 'vk, 'dec) library, 'r) call" where
  "guard_with on_panic body =
     call_bind (catch_unwind body) (\<lambda>r. case r of
       Some x \<Rightarrow> ret x
     | None \<Rightarrow> call_then (set_last_error PANIC_MESSAGE) (ret on_panic))"

definition guard :: "(('sk, 'vk, 'dec) library, DhowStatus) call \<Rightarrow> (('sk, 'vk, 'dec) library, DhowStatus) call" where
  "guard body = guard_with StPanic body"

text \<open>\<open>guard\<close> around a body with output pointers; no body panics once it has written through one.\<close>

definition guard_out ::
  "'o \<Rightarrow> (('sk, 'vk, 'dec) library, DhowStatus \<times> 'o) call \<Rightarrow> (('sk, 'vk, 'dec) library, DhowStatus \<times> 'o) call" where
  "guard_out out body = guard_with (StPanic, out) body"

definition guard_ptr :: "(('sk, 'vk, 'dec) library, addr) call \<Rightarrow> (('sk, 'vk, 'dec) library, addr) call" where
  "guard_ptr body = guard_with 0 body"

definition guard_unit :: "(('sk, 'vk, 'dec) library, unit) call \<Rightarrow> (('sk, 'vk, 'dec) library, unit) call" where
  "guard_unit body = guard_with () body"

definition guard_int :: "(('sk, 'vk, 'dec) library, c_int) call \<Rightarrow> (('sk, 'vk, 'dec) library, c_int) call" where
  "guard_int body = guard_with (status_code StPanic) body"

section \<open>Caller memory\<close>

definition slice_from :: "bytes option \<Rightarrow> nat \<Rightarrow> (('sk, 'vk, 'dec) library, bytes option) call" where
  "slice_from ptr len =
     (case ptr of
        None \<Rightarrow> ret None
      | Some mem \<Rightarrow> if len = 0 then ret (Some [])
          else if length mem < len then undefined_behaviour
          else ret (Some (take len mem)))"

text \<open>\<open>std::ptr::copy_nonoverlapping(data.as_ptr(), out, data.len())\<close>.\<close>

definition copy_to :: "bytes \<Rightarrow> bytes \<Rightarrow> (('sk, 'vk, 'dec) library, bytes) call" where
  "copy_to data mem =
     (if length mem < length data then undefined_behaviour
      else ret (data @ drop (length data) mem))"

definition write_out ::
  "bytes \<Rightarrow> bytes option \<Rightarrow> nat \<Rightarrow> nat option \<Rightarrow>
   (('sk, 'vk, 'dec) library, DhowStatus \<times> bytes option \<times> nat option) call" where
  "write_out data buf len written =
     (let written' = map_option (\<lambda>_. length data) written in
      case buf of
        None \<Rightarrow> ret (StOk, None, written')
      | Some mem \<Rightarrow>
          if len < length data
            then fail_out (Some mem, written') StBufferTooSmall
                   (Msg (Detail ''buffer of {len} bytes is too small; {} required'' [len, length data]))
          else call_bind (copy_to data mem) (\<lambda>mem'. ret (StOk, Some mem', written')))"

text \<open>\<open>CStr::from_ptr\<close>: the bytes before the first zero, which the caller guarantees to be there.\<close>

definition c_string :: "bytes \<Rightarrow> (('sk, 'vk, 'dec) library, bytes) call" where
  "c_string mem = (if 0 \<in> set mem then ret (takeWhile (\<lambda>b. b \<noteq> 0) mem) else undefined_behaviour)"

text \<open>A path is its bytes, read as characters.\<close>

definition path_of :: "bytes \<Rightarrow> path" where
  "path_of bs = map (\<lambda>b. char_of (unat b)) bs"

definition path_from :: "bytes option \<Rightarrow> (('sk, 'vk, 'dec) library, path option) call" where
  "path_from p =
     (case p of
        None \<Rightarrow> ret None
      | Some mem \<Rightarrow> call_bind (c_string mem) (\<lambda>s.
          ret (if utf8_valid s then Some (path_of s) else None)))"

text \<open>\<open>display m\<close> is the text of a message, whose \<open>needed\<close> bytes include the terminator.\<close>

definition dhow_last_error_message ::
  "(message \<Rightarrow> bytes) \<Rightarrow> bytes option \<Rightarrow> nat \<Rightarrow> (('sk, 'vk, 'dec) library, c_int \<times> bytes option) call" where
  "dhow_last_error_message display buf len =
     guard_with (status_code StPanic, buf) (\<lambda>L.
       (let bytes = display (lib_last_error L);
            needed = length bytes + 1
        in case buf of
             None \<Rightarrow> ret (of_nat needed, None) L
           | Some mem \<Rightarrow>
               if len < needed then ret (status_code StBufferTooSmall, Some mem) L
               else call_bind (copy_to (bytes @ [0]) mem) (\<lambda>mem'. ret (of_nat needed, Some mem')) L))"

definition DHOW_ABI_VERSION :: u32 where "DHOW_ABI_VERSION = 4"

definition dhow_abi_version :: u32 where
  "dhow_abi_version = DHOW_ABI_VERSION"

text \<open>The version is that of the workspace, \<open>core/Cargo.toml\<close>.\<close>

definition dhow_version_string :: string where
  "dhow_version_string = ''0.1.0''"

section \<open>Reasoning about calls\<close>

text \<open>Calls are evaluated with these equations.\<close>

lemma call_bind_apply [simp]:
  "call_bind m f s = (case m s of Returns x s' \<Rightarrow> f x s' | Panics s' \<Rightarrow> Panics s' | Undefined \<Rightarrow> Undefined)"
  by (simp add: call_bind_def)

lemma primitive_calls [simp]:
  "ret x s = Returns x s"
  "undefined_behaviour s = Undefined"
  "panic s = Panics s"
  "set_last_error m L = Returns () (L\<lparr>lib_last_error := m\<rparr>)"
  "assign p b L = Returns () (L\<lparr>lib_heap := (lib_heap L)(p \<mapsto> b)\<rparr>)"
  "get_files L = Returns (lib_files L) L"
  "put_files F L = Returns () (L\<lparr>lib_files := F\<rparr>)"
  by (simp_all add: ret_def undefined_behaviour_def panic_def set_last_error_def assign_def
      get_files_def put_files_def)

lemma failing_calls [simp]:
  "clear_last_error L = Returns () (L\<lparr>lib_last_error := text_message ''''\<rparr>)"
  "fail st m L = Returns st (L\<lparr>lib_last_error := m\<rparr>)"
  "fail_out out st m L = Returns (st, out) (L\<lparr>lib_last_error := m\<rparr>)"
  "fail_ptr m L = Returns 0 (L\<lparr>lib_last_error := m\<rparr>)"
  by (simp_all add: clear_last_error_def fail_def fail_out_def fail_ptr_def)

text \<open>Guards, live handles and whole buffers.\<close>

lemma guard_with_returns: "m L = Returns x L' \<Longrightarrow> guard_with r m L = Returns x L'"
  by (simp add: guard_with_def catch_unwind_def)

lemma guards_return:
  "m1 L = Returns st L' \<Longrightarrow> guard m1 L = Returns st L'"
  "m2 L = Returns (st, out') L' \<Longrightarrow> guard_out out m2 L = Returns (st, out') L'"
  "m3 L = Returns p L' \<Longrightarrow> guard_ptr m3 L = Returns p L'"
  by (simp_all add: guard_def guard_out_def guard_ptr_def guard_with_returns)

lemma guard_with_cases:
  assumes "guard_with r m L = Returns x L'"
  obtains "m L = Returns x L'" | "x = r"
  using assms by (cases "m L") (auto simp: guard_with_def catch_unwind_def)

lemma deref_live: "lib_heap L p = Some b \<Longrightarrow> sel b = Some x \<Longrightarrow> deref sel p L = Returns x L"
  by (simp add: deref_def)

lemma deref_returns: "deref sel p L = Returns x L' \<longleftrightarrow> L' = L \<and> (\<exists>b. lib_heap L p = Some b \<and> sel b = Some x)"
  by (auto simp: deref_def bind_eq_Some_conv split: option.splits)

lemma as_box_iff [simp]:
  "as_key b = Some k \<longleftrightarrow> b = BoxKey k"
  "as_encoder b = Some e \<longleftrightarrow> b = BoxEncoder e"
  "as_decoder b = Some d \<longleftrightarrow> b = BoxDecoder d"
  "as_identity b = Some i \<longleftrightarrow> b = BoxIdentity i"
  "as_public b = Some u \<longleftrightarrow> b = BoxPublic u"
  "as_manifest b = Some m \<longleftrightarrow> b = BoxManifest m"
  by (cases b; simp)+

lemma slice_from_whole [simp]: "length bs = n \<Longrightarrow> slice_from (Some bs) n L = Returns (Some bs) L"
  by (auto simp: slice_from_def)

lemma to_session_params_fields [simp]:
  "sp_payload_size (to_session_params p) = dp_payload_size p"
  "sp_payload_digest (to_session_params p) = dp_payload_digest p"
  by (simp_all add: to_session_params_def)

lemma write_out_fits:
  "length data \<le> len \<Longrightarrow> len \<le> length mem \<Longrightarrow> write_out data (Some mem) len written L =
     Returns (StOk, Some (data @ drop (length data) mem), map_option (\<lambda>_. length data) written) L"
  by (simp add: write_out_def copy_to_def)

end
