(* ===== verification/Ffi_Transfer.thy ===== *)
theory Ffi_Transfer
  imports Ffi_Base Optical_Transfer
begin

text \<open>
  The entry points of \<open>core/dhow-ffi/src/handle.rs\<close> for operator keys, encoders, decoders, digests
  and QR codes. \<open>S\<close>, \<open>umask\<close> and \<open>rnd\<close> stand for the operating system and its randomness, \<open>kh\<close> and \<open>h\<close>
  for BLAKE3, \<open>A\<close> for the cipher, \<open>R\<close> for RaptorQ and \<open>enc\<close>, \<open>encb\<close>, \<open>gsize\<close>, \<open>gmod\<close> for the QR encoder,
  as in the theories of the components called. The casts of counts to \<open>c_int\<close> truncate.
\<close>

section \<open>Operator keys\<close>

definition dhow_key_generate :: "bytes option \<Rightarrow> (('sk, 'vk, 'dec) library, addr) call" where
  "dhow_key_generate rnd =
     guard_ptr (call_then clear_last_error
       (case operator_generate rnd of
          Inr inner \<Rightarrow> into_raw (BoxKey \<lparr>dk_inner = inner\<rparr>)
        | Inl e \<Rightarrow> fail_ptr (MsgKey e)))"

definition dhow_key_load ::
  "(bytes \<Rightarrow> bytes) \<Rightarrow> ('sk, 'vk) ed25519 \<Rightarrow> os \<Rightarrow> bytes option \<Rightarrow> (('sk, 'vk, 'dec) library, addr) call" where
  "dhow_key_load h E S path =
     guard_ptr (call_then clear_last_error (call_bind (path_from path) (\<lambda>p.
       case p of
         None \<Rightarrow> fail_ptr (text_message ''key path was null or not valid UTF-8'')
       | Some p \<Rightarrow> call_bind get_files (\<lambda>F.
           case load_operator h E S p F of
             Inr inner \<Rightarrow> into_raw (BoxKey \<lparr>dk_inner = inner\<rparr>)
           | Inl e \<Rightarrow> fail_ptr (MsgKey e)))))"

definition dhow_key_save ::
  "(bytes \<Rightarrow> bytes) \<Rightarrow> os \<Rightarrow> u32 \<Rightarrow> addr \<Rightarrow> bytes option \<Rightarrow> (('sk, 'vk, 'dec) library, DhowStatus) call" where
  "dhow_key_save h S umask key path =
     guard (call_then clear_last_error
       (if key = 0 then fail StNullArgument (text_message ''key handle was null'')
        else call_bind (path_from path) (\<lambda>p.
          case p of
            None \<Rightarrow> fail StNullArgument (text_message ''key path was null or not UTF-8'')
          | Some p \<Rightarrow> call_bind (deref as_key key) (\<lambda>k. call_bind get_files (\<lambda>F.
              let (r, states) = save_operator h S umask p (dk_inner k) F in
              call_then (put_files (last states))
                (case r of
                   Inr _ \<Rightarrow> ret StOk
                 | Inl e \<Rightarrow> fail StKeyFailed (MsgKey e)))))))"

definition dhow_key_free :: "addr \<Rightarrow> (('sk, 'vk, 'dec) library, unit) call" where
  "dhow_key_free key = guard_unit (if key = 0 then ret () else from_raw_drop as_key key)"

section \<open>The encoder\<close>

definition dhow_encoder_new ::
  "('cfg, 'enc, 'pkt, 'dec) raptorq \<Rightarrow> (bytes \<Rightarrow> bytes \<Rightarrow> bytes) \<Rightarrow> (bytes \<Rightarrow> bytes) \<Rightarrow> aead \<Rightarrow>
   addr \<Rightarrow> bytes option \<Rightarrow> bytes option \<Rightarrow> bytes option \<Rightarrow> DhowSessionParams \<Rightarrow> bytes option \<Rightarrow> nat \<Rightarrow>
   (('sk, 'vk, 'dec) library, addr) call" where
  "dhow_encoder_new R kh h A key session_id salt nonce params_in payload payload_len =
     guard_ptr (call_then clear_last_error
       (if key = 0 then fail_ptr (text_message ''key handle was null'')
        else call_bind (slice_from session_id 16) (\<lambda>a. call_bind (slice_from salt 32) (\<lambda>b.
          call_bind (slice_from nonce 24) (\<lambda>c. call_bind (slice_from payload payload_len) (\<lambda>d.
          case (a, b, c, d) of
            (Some sid, Some salt_bytes, Some nonce_bytes, Some data) \<Rightarrow>
              call_bind (deref as_key key) (\<lambda>k.
                case transfer_keys_derive kh (ok_bytes (dk_inner k)) salt_bytes of
                  Inl e \<Rightarrow> fail_ptr (MsgAead e)
                | Inr keys \<Rightarrow>
                    (case encrypt_payload A keys nonce_bytes sid data of
                       Inl e \<Rightarrow> fail_ptr (MsgAead e)
                     | Inr ciphertext \<Rightarrow>
                         (let params = (to_session_params params_in)
                                \<lparr>sp_payload_size := of_nat (length ciphertext),
                                 sp_payload_digest := blake3_digest h ciphertext\<rparr>
                          in case pipeline_new sid params (tk_session_key keys) of
                               Inl e \<Rightarrow> fail_ptr (MsgCodec e)
                             | Inr pipeline \<Rightarrow>
                                 (let resolved = params_in
                                        \<lparr>dp_payload_size := sp_payload_size params,
                                         dp_payload_digest := sp_payload_digest params\<rparr>
                                  in case encode_to_bytes R kh pipeline ciphertext of
                                       Inr frames \<Rightarrow>
                                         into_raw (BoxEncoder \<lparr>de_frames = frames, de_params = resolved\<rparr>)
                                     | Inl e \<Rightarrow> fail_ptr (MsgCodec e)))))
          | _ \<Rightarrow> fail_ptr (text_message ''a required pointer argument was null'')))))))"

definition dhow_encoder_params ::
  "addr \<Rightarrow> DhowSessionParams option \<Rightarrow>
   (('sk, 'vk, 'dec) library, DhowStatus \<times> DhowSessionParams option) call" where
  "dhow_encoder_params encoder out =
     guard_out out (call_then clear_last_error
       (if encoder = 0 \<or> out = None then fail_out out StNullArgument (text_message ''a required pointer was null'')
        else call_bind (deref as_encoder encoder) (\<lambda>e. ret (StOk, Some (de_params e)))))"

definition dhow_encoder_frame_count :: "addr \<Rightarrow> (('sk, 'vk, 'dec) library, c_int) call" where
  "dhow_encoder_frame_count encoder =
     guard_int (if encoder = 0 then ret (status_code StNullArgument)
       else call_bind (deref as_encoder encoder) (\<lambda>e. ret (of_nat (length (de_frames e)))))"

definition dhow_encoder_frame ::
  "addr \<Rightarrow> nat \<Rightarrow> bytes option \<Rightarrow> nat \<Rightarrow> nat option \<Rightarrow>
   (('sk, 'vk, 'dec) library, DhowStatus \<times> bytes option \<times> nat option) call" where
  "dhow_encoder_frame encoder index buf len written =
     guard_out (buf, written) (call_then clear_last_error
       (if encoder = 0 then fail_out (buf, written) StNullArgument (text_message ''encoder handle was null'')
        else call_bind (deref as_encoder encoder) (\<lambda>e.
          if index \<ge> length (de_frames e)
            then fail_out (buf, written) StInvalidArgument
                   (Msg (Detail ''frame index {index} out of range; encoder holds {}''
                      [index, length (de_frames e)]))
          else write_out (de_frames e ! index) buf len written)))"

definition dhow_encoder_free :: "addr \<Rightarrow> (('sk, 'vk, 'dec) library, unit) call" where
  "dhow_encoder_free encoder = guard_unit (if encoder = 0 then ret () else from_raw_drop as_encoder encoder)"

section \<open>The decoder\<close>

definition dhow_decoder_new ::
  "('cfg, 'enc, 'pkt, 'dec) raptorq \<Rightarrow> (bytes \<Rightarrow> bytes \<Rightarrow> bytes) \<Rightarrow>
   addr \<Rightarrow> bytes option \<Rightarrow> bytes option \<Rightarrow> DhowSessionParams \<Rightarrow> (('sk, 'vk, 'dec) library, addr) call" where
  "dhow_decoder_new R kh key session_id salt params =
     guard_ptr (call_then clear_last_error
       (if key = 0 then fail_ptr (text_message ''key handle was null'')
        else call_bind (slice_from session_id 16) (\<lambda>a. call_bind (slice_from salt 32) (\<lambda>b.
          case (a, b) of
            (Some sid, Some salt_bytes) \<Rightarrow>
              call_bind (deref as_key key) (\<lambda>k.
                case transfer_keys_derive kh (ok_bytes (dk_inner k)) salt_bytes of
                  Inl e \<Rightarrow> fail_ptr (MsgAead e)
                | Inr keys \<Rightarrow>
                    (case decoder_new R sid (to_session_params params) (tk_session_key keys) of
                       Inr inner \<Rightarrow> into_raw (BoxDecoder \<lparr>dd_inner = inner\<rparr>)
                     | Inl e \<Rightarrow> fail_ptr (MsgCodec e)))
          | _ \<Rightarrow> fail_ptr (text_message ''a required pointer argument was null'')))))"

text \<open>What a panic leaves of the decoder stays behind the handle.\<close>

definition dhow_decoder_accept ::
  "('cfg, 'enc, 'pkt, 'dec) raptorq \<Rightarrow> (bytes \<Rightarrow> bytes \<Rightarrow> bytes) \<Rightarrow>
   addr \<Rightarrow> bytes option \<Rightarrow> nat \<Rightarrow> (('sk, 'vk, 'dec) library, DhowStatus) call" where
  "dhow_decoder_accept R kh decoder frame len =
     guard (call_then clear_last_error
       (if decoder = 0 then fail StNullArgument (text_message ''decoder handle was null'')
        else call_bind (slice_from frame len) (\<lambda>f.
          case f of
            None \<Rightarrow> fail StNullArgument (text_message ''frame pointer was null'')
          | Some bytes \<Rightarrow> call_bind (deref as_decoder decoder) (\<lambda>d.
              let (r, inner) = decoder_accept_run R kh (dd_inner d) bytes in
              call_then (assign decoder (BoxDecoder (d\<lparr>dd_inner := inner\<rparr>)))
                (case r of
                   None \<Rightarrow> panic
                 | Some (Inr _) \<Rightarrow> ret StOk
                 | Some (Inl e) \<Rightarrow> fail StFrameRejected (MsgCodec e))))))"

definition dhow_decoder_is_complete :: "addr \<Rightarrow> (('sk, 'vk, 'dec) library, c_int) call" where
  "dhow_decoder_is_complete decoder =
     guard_int (if decoder = 0 then ret (status_code StNullArgument)
       else call_bind (deref as_decoder decoder) (\<lambda>d. ret (if is_complete (dd_inner d) then 1 else 0)))"

definition dhow_decoder_blocks_complete :: "addr \<Rightarrow> (('sk, 'vk, 'dec) library, c_int) call" where
  "dhow_decoder_blocks_complete decoder =
     guard_int (if decoder = 0 then ret (status_code StNullArgument)
       else call_bind (deref as_decoder decoder) (\<lambda>d. ret (blocks_complete (dd_inner d))))"

definition dhow_decoder_finish ::
  "(bytes \<Rightarrow> bytes \<Rightarrow> bytes) \<Rightarrow> (bytes \<Rightarrow> bytes) \<Rightarrow> aead \<Rightarrow>
   addr \<Rightarrow> addr \<Rightarrow> bytes option \<Rightarrow> bytes option \<Rightarrow> bytes option \<Rightarrow> bytes option \<Rightarrow> nat \<Rightarrow> nat option \<Rightarrow>
   (('sk, 'vk, 'dec) library, DhowStatus \<times> bytes option \<times> nat option) call" where
  "dhow_decoder_finish kh h A decoder key session_id salt nonce buf len written =
     guard_out (buf, written) (call_then clear_last_error
       (if decoder = 0 \<or> key = 0
          then fail_out (buf, written) StNullArgument (text_message ''a required handle was null'')
        else call_bind (slice_from session_id 16) (\<lambda>a. call_bind (slice_from salt 32) (\<lambda>b.
          call_bind (slice_from nonce 24) (\<lambda>c.
          case (a, b, c) of
            (Some sid, Some salt_bytes, Some nonce_bytes) \<Rightarrow>
              call_bind (deref as_decoder decoder) (\<lambda>d. call_bind (deref as_key key) (\<lambda>k.
                if \<not> is_complete (dd_inner d)
                  then fail_out (buf, written) StIncomplete
                         (text_message ''transfer is not complete; more frames are needed'')
                else (case decoder_finish h (dd_inner d) of
                    Inl e \<Rightarrow> fail_out (buf, written) StVerificationFailed (MsgCodec e)
                  | Inr ciphertext \<Rightarrow>
                      (case transfer_keys_derive kh (ok_bytes (dk_inner k)) salt_bytes of
                         Inl e \<Rightarrow> fail_out (buf, written) StKeyFailed (MsgAead e)
                       | Inr keys \<Rightarrow>
                           (case decrypt_payload_in_place A keys nonce_bytes sid ciphertext of
                              Inl e \<Rightarrow> fail_out (buf, written) StCryptoFailed (MsgAead e)
                            | Inr plaintext \<Rightarrow> write_out plaintext buf len written)))))
          | _ \<Rightarrow> fail_out (buf, written) StNullArgument (text_message ''a required pointer was null''))))))"

definition dhow_decoder_resume_state ::
  "(bytes \<Rightarrow> bytes) \<Rightarrow> addr \<Rightarrow> u64 \<Rightarrow> bytes option \<Rightarrow> nat \<Rightarrow> nat option \<Rightarrow>
   (('sk, 'vk, 'dec) library, DhowStatus \<times> bytes option \<times> nat option) call" where
  "dhow_decoder_resume_state h decoder journal_bytes buf len written =
     guard_out (buf, written) (call_then clear_last_error
       (if decoder = 0 then fail_out (buf, written) StNullArgument (text_message ''decoder handle was null'')
        else call_bind (deref as_decoder decoder) (\<lambda>d.
          write_out (resume_file_to_vec (resume_state h (dd_inner d) journal_bytes)) buf len written)))"

text \<open>The three outputs: 16 bytes for the session identifier, the journal length, the block count.\<close>

definition dhow_resume_state_read ::
  "bool \<Rightarrow> (bytes \<Rightarrow> bytes) \<Rightarrow> bytes option \<Rightarrow> nat \<Rightarrow> bytes option \<Rightarrow> u64 option \<Rightarrow> u32 option \<Rightarrow>
   (('sk, 'vk, 'dec) library, DhowStatus \<times> bytes option \<times> u64 option \<times> u32 option) call" where
  "dhow_resume_state_read checks h state state_len session_id_out journal_bytes_out block_count_out =
     (let out = (session_id_out, journal_bytes_out, block_count_out) in
      guard_out out (call_then clear_last_error (call_bind (slice_from state state_len) (\<lambda>st.
        case st of
          None \<Rightarrow> fail_out out StNullArgument (text_message ''resume state pointer was null'')
        | Some bytes \<Rightarrow>
            (case resume_file_from_bytes_run checks h bytes of
               None \<Rightarrow> panic
             | Some (Inl e) \<Rightarrow> fail_out out StResumeRejected (MsgResume e)
             | Some (Inr file) \<Rightarrow>
                 call_bind (case session_id_out of None \<Rightarrow> ret None
                   | Some mem \<Rightarrow> call_bind (copy_to (rh_session_id (rf_header file)) mem) (\<lambda>m. ret (Some m)))
                 (\<lambda>sid_out. ret (StOk, sid_out,
                     map_option (\<lambda>_. rh_journal_bytes (rf_header file)) journal_bytes_out,
                     map_option (\<lambda>_. rh_block_count (rf_header file)) block_count_out)))))))"

definition dhow_decoder_resume_verify ::
  "bool \<Rightarrow> (bytes \<Rightarrow> bytes) \<Rightarrow> addr \<Rightarrow> bytes option \<Rightarrow> nat \<Rightarrow> (('sk, 'vk, 'dec) library, DhowStatus) call" where
  "dhow_decoder_resume_verify checks h decoder state state_len =
     guard (call_then clear_last_error
       (if decoder = 0 then fail StNullArgument (text_message ''decoder handle was null'')
        else call_bind (slice_from state state_len) (\<lambda>st.
          case st of
            None \<Rightarrow> fail StNullArgument (text_message ''resume state pointer was null'')
          | Some bytes \<Rightarrow> call_bind (deref as_decoder decoder) (\<lambda>d.
              case resume_file_from_bytes_run checks h bytes of
                None \<Rightarrow> panic
              | Some (Inl e) \<Rightarrow> fail StResumeRejected (MsgResume e)
              | Some (Inr file) \<Rightarrow>
                  (case verify_resume h (dd_inner d) file of
                     None \<Rightarrow> panic
                   | Some (Inr _) \<Rightarrow> ret StOk
                   | Some (Inl e) \<Rightarrow> fail StResumeRejected (MsgCodec e))))))"

definition dhow_decoder_free :: "addr \<Rightarrow> (('sk, 'vk, 'dec) library, unit) call" where
  "dhow_decoder_free decoder = guard_unit (if decoder = 0 then ret () else from_raw_drop as_decoder decoder)"

section \<open>Digests\<close>

definition dhow_blake3 ::
  "(bytes \<Rightarrow> bytes) \<Rightarrow> bytes option \<Rightarrow> nat \<Rightarrow> bytes option \<Rightarrow>
   (('sk, 'vk, 'dec) library, DhowStatus \<times> bytes option) call" where
  "dhow_blake3 h data len out =
     guard_out out (call_then clear_last_error
       (case out of
          None \<Rightarrow> fail_out out StNullArgument (text_message ''output pointer was null'')
        | Some mem \<Rightarrow> call_bind (slice_from data len) (\<lambda>d.
            case d of
              None \<Rightarrow> fail_out out StNullArgument (text_message ''data pointer was null'')
            | Some bytes \<Rightarrow> call_bind (copy_to (blake3_digest h bytes) mem) (\<lambda>m. ret (StOk, Some m)))))"

definition dhow_hasher_new :: "(('sk, 'vk, 'dec) library, addr) call" where
  "dhow_hasher_new = guard_ptr (call_then clear_last_error
     (into_raw (BoxHasher \<lparr>dh_inner = blake3_hasher_new\<rparr>)))"

definition dhow_hasher_update ::
  "addr \<Rightarrow> bytes option \<Rightarrow> nat \<Rightarrow> (('sk, 'vk, 'dec) library, DhowStatus) call" where
  "dhow_hasher_update hasher data len =
     guard (call_then clear_last_error
       (if hasher = 0 then fail StNullArgument (text_message ''hasher handle was null'')
        else call_bind (slice_from data len) (\<lambda>d.
          case d of
            None \<Rightarrow> fail StNullArgument (text_message ''data pointer was null'')
          | Some bytes \<Rightarrow> call_bind (deref as_hasher hasher) (\<lambda>x.
              call_then (assign hasher (BoxHasher (x\<lparr>dh_inner := blake3_hasher_update (dh_inner x) bytes\<rparr>)))
                (ret StOk)))))"

definition dhow_hasher_finish ::
  "(bytes \<Rightarrow> bytes) \<Rightarrow> addr \<Rightarrow> bytes option \<Rightarrow> (('sk, 'vk, 'dec) library, DhowStatus \<times> bytes option) call" where
  "dhow_hasher_finish h hasher out =
     guard_out out (call_then clear_last_error
       (if hasher = 0 then fail_out out StNullArgument (text_message ''hasher handle was null'')
        else (case out of
            None \<Rightarrow> fail_out out StNullArgument (text_message ''output pointer was null'')
          | Some mem \<Rightarrow> call_bind (deref as_hasher hasher) (\<lambda>x.
              call_bind (copy_to (blake3_hasher_finalize h (dh_inner x)) mem) (\<lambda>m. ret (StOk, Some m))))))"

definition dhow_hasher_free :: "addr \<Rightarrow> (('sk, 'vk, 'dec) library, unit) call" where
  "dhow_hasher_free hasher = guard_unit (if hasher = 0 then ret () else from_raw_drop as_hasher hasher)"

section \<open>QR codes\<close>

text \<open>\<open>ecc as u8 as char\<close> is the character with the code of the byte.\<close>

definition dhow_qr_capacity ::
  "(bytes \<Rightarrow> Ecc \<Rightarrow> u8 \<Rightarrow> 'qr option) \<Rightarrow> u8 \<Rightarrow> u8 \<Rightarrow> (('sk, 'vk, 'dec) library, c_int) call" where
  "dhow_qr_capacity enc version ecc =
     guard_int (case from_letter (unat ecc) of
         None \<Rightarrow> ret (status_code StInvalidArgument)
       | Some level \<Rightarrow>
           (case capacity enc version level of
              Inr n \<Rightarrow> ret (of_nat n)
            | Inl _ \<Rightarrow> ret (status_code StInvalidArgument)))"

definition dhow_qr_max_symbol_size ::
  "(bytes \<Rightarrow> Ecc \<Rightarrow> u8 \<Rightarrow> 'qr option) \<Rightarrow> u8 \<Rightarrow> u8 \<Rightarrow> (('sk, 'vk, 'dec) library, c_int) call" where
  "dhow_qr_max_symbol_size enc version ecc =
     guard_int (case from_letter (unat ecc) of
         None \<Rightarrow> ret (status_code StInvalidArgument)
       | Some level \<Rightarrow>
           (case max_symbol_size enc version level of
              Inr (Some n) \<Rightarrow> ret n
            | Inr None \<Rightarrow> ret 0
            | Inl _ \<Rightarrow> ret (status_code StInvalidArgument)))"

definition dhow_qr_encode_frame ::
  "(bytes \<Rightarrow> Ecc \<Rightarrow> u8 \<Rightarrow> 'qr option) \<Rightarrow> (bytes \<Rightarrow> Ecc \<Rightarrow> 'qr option) \<Rightarrow> ('qr \<Rightarrow> nat) \<Rightarrow>
   ('qr \<Rightarrow> nat \<Rightarrow> nat \<Rightarrow> bool) \<Rightarrow> bytes option \<Rightarrow> nat \<Rightarrow> u8 \<Rightarrow> u8 \<Rightarrow> bytes option \<Rightarrow> nat \<Rightarrow> u32 option \<Rightarrow> nat option \<Rightarrow>
   (('sk, 'vk, 'dec) library, DhowStatus \<times> bytes option \<times> u32 option \<times> nat option) call" where
  "dhow_qr_encode_frame enc encb gsize gmod frame frame_len version ecc buf len size_out written =
     (let out = (buf, size_out, written) in
      guard_out out (call_then clear_last_error
        (case from_letter (unat ecc) of
           None \<Rightarrow> fail_out out StInvalidArgument (text_message ''error-correction level must be L, M, Q, or H'')
         | Some level \<Rightarrow> call_bind (slice_from frame frame_len) (\<lambda>f.
             case f of
               None \<Rightarrow> fail_out out StNullArgument (text_message ''frame pointer was null'')
             | Some bytes \<Rightarrow>
                 (case (if version = 0 then qr_encode_with encb bytes level
                        else qr_encode_at enc bytes version level) of
                    Inl e \<Rightarrow> fail_out out StInvalidArgument (MsgQr e)
                  | Inr qr \<Rightarrow>
                      call_bind (write_out (to_modules gsize gmod qr) buf len written) (\<lambda>(st, buf', written').
                        ret (st, buf', map_option (\<lambda>_. of_nat (gsize (qc_inner qr))) size_out, written')))))))"

end
