(* ===== verification/Ffi_Manifest.thy ===== *)
theory Ffi_Manifest
  imports Ffi_Base
begin

text \<open>
  The entry points of \<open>core/dhow-ffi/src/handle.rs\<close> for identities and manifests. The sum of the file
  sizes in \<open>dhow_manifest_build\<close> is checked for overflow when the library is built with overflow
  checks (the debug profile), and wraps otherwise: the parameter \<open>checks\<close>.
\<close>

section \<open>Identities\<close>

definition dhow_identity_generate ::
  "('sk, 'vk) ed25519 \<Rightarrow> bytes option \<Rightarrow> (('sk, 'vk, 'dec) library, addr) call" where
  "dhow_identity_generate E rnd =
     guard_ptr (call_then clear_last_error
       (case identity_generate E rnd of
          Inr inner \<Rightarrow> into_raw (BoxIdentity \<lparr>di_inner = inner\<rparr>)
        | Inl e \<Rightarrow> fail_ptr (MsgKey e)))"

definition dhow_identity_load ::
  "(bytes \<Rightarrow> bytes) \<Rightarrow> ('sk, 'vk) ed25519 \<Rightarrow> os \<Rightarrow> bytes option \<Rightarrow> (('sk, 'vk, 'dec) library, addr) call" where
  "dhow_identity_load h E S path =
     guard_ptr (call_then clear_last_error (call_bind (path_from path) (\<lambda>p.
       case p of
         None \<Rightarrow> fail_ptr (text_message ''identity path was null or not valid UTF-8'')
       | Some p \<Rightarrow> call_bind get_files (\<lambda>F.
           case load_identity h E S p F of
             Inr inner \<Rightarrow> into_raw (BoxIdentity \<lparr>di_inner = inner\<rparr>)
           | Inl e \<Rightarrow> fail_ptr (MsgKey e)))))"

definition dhow_identity_save ::
  "(bytes \<Rightarrow> bytes) \<Rightarrow> ('sk, 'vk) ed25519 \<Rightarrow> os \<Rightarrow> u32 \<Rightarrow> addr \<Rightarrow> bytes option \<Rightarrow>
   (('sk, 'vk, 'dec) library, DhowStatus) call" where
  "dhow_identity_save h E S umask identity path =
     guard (call_then clear_last_error
       (if identity = 0 then fail StNullArgument (text_message ''identity handle was null'')
        else call_bind (path_from path) (\<lambda>p.
          case p of
            None \<Rightarrow> fail StNullArgument (text_message ''identity path was null or not UTF-8'')
          | Some p \<Rightarrow> call_bind (deref as_identity identity) (\<lambda>k. call_bind get_files (\<lambda>F.
              let (r, states) = save_identity h E S umask p (di_inner k) F in
              call_then (put_files (last states))
                (case r of
                   Inr _ \<Rightarrow> ret StOk
                 | Inl e \<Rightarrow> fail StKeyFailed (MsgKey e)))))))"

definition dhow_identity_public ::
  "('sk, 'vk) ed25519 \<Rightarrow> addr \<Rightarrow> (('sk, 'vk, 'dec) library, addr) call" where
  "dhow_identity_public E identity =
     guard_ptr (call_then clear_last_error
       (if identity = 0 then fail_ptr (text_message ''identity handle was null'')
        else call_bind (deref as_identity identity) (\<lambda>k.
          into_raw (BoxPublic \<lparr>du_inner = identity_public E (di_inner k)\<rparr>))))"

definition dhow_identity_free :: "addr \<Rightarrow> (('sk, 'vk, 'dec) library, unit) call" where
  "dhow_identity_free identity =
     guard_unit (if identity = 0 then ret () else from_raw_drop as_identity identity)"

definition dhow_public_load ::
  "('sk, 'vk) ed25519 \<Rightarrow> os \<Rightarrow> bytes option \<Rightarrow> (('sk, 'vk, 'dec) library, addr) call" where
  "dhow_public_load E S path =
     guard_ptr (call_then clear_last_error (call_bind (path_from path) (\<lambda>p.
       case p of
         None \<Rightarrow> fail_ptr (text_message ''public identity path was null or not valid UTF-8'')
       | Some p \<Rightarrow> call_bind get_files (\<lambda>F.
           case load_public E S p F of
             Inr inner \<Rightarrow> into_raw (BoxPublic \<lparr>du_inner = inner\<rparr>)
           | Inl e \<Rightarrow> fail_ptr (MsgKey e)))))"

definition dhow_public_save ::
  "('sk, 'vk) ed25519 \<Rightarrow> os \<Rightarrow> u32 \<Rightarrow> addr \<Rightarrow> bytes option \<Rightarrow>
   (('sk, 'vk, 'dec) library, DhowStatus) call" where
  "dhow_public_save E S umask public path =
     guard (call_then clear_last_error
       (if public = 0 then fail StNullArgument (text_message ''public identity handle was null'')
        else call_bind (path_from path) (\<lambda>p.
          case p of
            None \<Rightarrow> fail StNullArgument (text_message ''public identity path was null or not UTF-8'')
          | Some p \<Rightarrow> call_bind (deref as_public public) (\<lambda>k. call_bind get_files (\<lambda>F.
              let (r, F') = save_public E S umask p (du_inner k) F in
              call_then (put_files F')
                (case r of
                   Inr _ \<Rightarrow> ret StOk
                 | Inl e \<Rightarrow> fail StKeyFailed (MsgKey e)))))))"

definition dhow_public_bytes ::
  "('sk, 'vk) ed25519 \<Rightarrow> addr \<Rightarrow> bytes option \<Rightarrow> (('sk, 'vk, 'dec) library, DhowStatus \<times> bytes option) call" where
  "dhow_public_bytes E public out =
     guard_out out (call_then clear_last_error
       (if public = 0 then fail_out out StNullArgument (text_message ''public identity handle was null'')
        else (case out of
            None \<Rightarrow> fail_out out StNullArgument (text_message ''output pointer was null'')
          | Some mem \<Rightarrow> call_bind (deref as_public public) (\<lambda>k.
              call_bind (copy_to (public_to_bytes E (du_inner k)) mem) (\<lambda>m. ret (StOk, Some m))))))"

definition dhow_public_fingerprint ::
  "(bytes \<Rightarrow> bytes) \<Rightarrow> ('sk, 'vk) ed25519 \<Rightarrow> addr \<Rightarrow> bytes option \<Rightarrow> nat \<Rightarrow> nat option \<Rightarrow>
   (('sk, 'vk, 'dec) library, DhowStatus \<times> bytes option \<times> nat option) call" where
  "dhow_public_fingerprint h E public buf len written =
     guard_out (buf, written) (call_then clear_last_error
       (if public = 0
          then fail_out (buf, written) StNullArgument (text_message ''public identity handle was null'')
        else call_bind (deref as_public public) (\<lambda>k.
          write_out (ascii (fingerprint h E (du_inner k))) buf len written)))"

definition dhow_public_free :: "addr \<Rightarrow> (('sk, 'vk, 'dec) library, unit) call" where
  "dhow_public_free public = guard_unit (if public = 0 then ret () else from_raw_drop as_public public)"

section \<open>Building and verifying manifests\<close>

record DhowFileEntry =
  df_name :: "bytes option"
  df_size :: u64
  df_digest :: bytes
  df_executable :: u8
  df_reserved :: bytes

text \<open>The loop over the entries; \<open>i\<close> is the index \<open>enumerate\<close> gives.\<close>

fun entries_loop ::
  "nat \<Rightarrow> DhowFileEntry list \<Rightarrow> (('sk, 'vk, 'dec) library, message + FileEntry list) call" where
  "entries_loop i [] = ret (Inr [])"
| "entries_loop i (entry # raw) =
     (case df_name entry of
        None \<Rightarrow> ret (Inl (Msg (Detail ''file entry {i} had a null name'' [i])))
      | Some mem \<Rightarrow>
          if df_reserved entry \<noteq> replicate 7 0
            then ret (Inl (Msg (Detail ''file entry {i} set a reserved byte'' [i])))
          else call_bind (c_string mem) (\<lambda>name.
            if \<not> utf8_valid name
              then ret (Inl (Msg (Detail ''file entry {i} had a name that is not valid UTF-8'' [i])))
            else (case validate_name name of
                Inl e \<Rightarrow> ret (Inl (MsgFileEntry i e))
              | Inr _ \<Rightarrow> call_bind (entries_loop (Suc i) raw) (\<lambda>r.
                  ret (case r of
                     Inl e \<Rightarrow> Inl e
                   | Inr out \<Rightarrow> Inr (file_entry_with_mode name (df_size entry) (df_digest entry)
                       (df_executable entry \<noteq> 0) # out))))))"

definition entries_from ::
  "DhowFileEntry list option \<Rightarrow> nat \<Rightarrow> (('sk, 'vk, 'dec) library, message + FileEntry list) call" where
  "entries_from entries n_entries =
     (if n_entries = 0 then ret (Inr [])
      else (case entries of
          None \<Rightarrow> ret (Inl (text_message ''file entry array was null''))
        | Some raw \<Rightarrow>
            if length raw < n_entries then undefined_behaviour else entries_loop 0 (take n_entries raw)))"

definition dhow_manifest_build ::
  "('sk, 'vk) ed25519 \<Rightarrow> bool \<Rightarrow> addr \<Rightarrow> bytes option \<Rightarrow> bytes option \<Rightarrow> bytes option \<Rightarrow> DhowSessionParams \<Rightarrow>
   DhowFileEntry list option \<Rightarrow> nat \<Rightarrow> (('sk, 'vk, 'dec) library, addr) call" where
  "dhow_manifest_build E checks identity session_id salt nonce params entries n_entries =
     guard_ptr (call_then clear_last_error
       (if identity = 0 then fail_ptr (text_message ''identity handle was null'')
        else call_bind (slice_from session_id 16) (\<lambda>a. call_bind (slice_from salt 32) (\<lambda>b.
          call_bind (slice_from nonce 24) (\<lambda>c.
          case (a, b, c) of
            (Some sid, Some salt_bytes, Some nonce_bytes) \<Rightarrow>
              call_bind (entries_from entries n_entries) (\<lambda>r.
                case r of
                  Inl e \<Rightarrow> fail_ptr e
                | Inr es \<Rightarrow>
                    (case sum_words checks 0 (map fe_size es) of
                       None \<Rightarrow> panic
                     | Some total_size \<Rightarrow>
                         (let header = manifest_header_new sid es total_size salt_bytes nonce_bytes
                                (to_session_params params);
                              unsigned = manifest_build header es (replicate 64 0)
                          in call_bind (deref as_identity identity) (\<lambda>k.
                               let bytes = sign_manifest E (di_inner k) unsigned in
                               case manifest_from_bytes bytes of
                                 Inr manifest \<Rightarrow>
                                   into_raw (BoxManifest \<lparr>dm_manifest = manifest, dm_bytes = bytes\<rparr>)
                               | Inl e \<Rightarrow> fail_ptr (MsgNotParsedBack e)))))
          | _ \<Rightarrow> fail_ptr (text_message ''session id, salt, or nonce pointer was null''))))))"

definition dhow_manifest_verify ::
  "('sk, 'vk) ed25519 \<Rightarrow> addr \<Rightarrow> bytes option \<Rightarrow> nat \<Rightarrow> bytes option \<Rightarrow>
   (('sk, 'vk, 'dec) library, addr) call" where
  "dhow_manifest_verify E public bytes len session_id =
     guard_ptr (call_then clear_last_error
       (if public = 0 then fail_ptr (text_message ''public identity handle was null'')
        else call_bind (slice_from bytes len) (\<lambda>m.
          case m of
            None \<Rightarrow> fail_ptr (text_message ''manifest pointer was null'')
          | Some bs \<Rightarrow> call_bind (slice_from session_id 16) (\<lambda>expected.
              call_bind (deref as_public public) (\<lambda>k.
                case verify_manifest_with E (du_inner k) bs expected policy_default of
                  Inr verified \<Rightarrow>
                    into_raw (BoxManifest \<lparr>dm_manifest = vm_manifest verified, dm_bytes = bs\<rparr>)
                | Inl e \<Rightarrow> fail_ptr (MsgManifest e))))))"

section \<open>Reading manifests\<close>

definition dhow_manifest_bytes ::
  "addr \<Rightarrow> bytes option \<Rightarrow> nat \<Rightarrow> nat option \<Rightarrow>
   (('sk, 'vk, 'dec) library, DhowStatus \<times> bytes option \<times> nat option) call" where
  "dhow_manifest_bytes manifest buf len written =
     guard_out (buf, written) (call_then clear_last_error
       (if manifest = 0 then fail_out (buf, written) StNullArgument (text_message ''manifest handle was null'')
        else call_bind (deref as_manifest manifest) (\<lambda>m. write_out (dm_bytes m) buf len written)))"

definition manifest_field ::
  "addr \<Rightarrow> bytes option \<Rightarrow> (DhowManifest \<Rightarrow> bytes) \<Rightarrow>
   (('sk, 'vk, 'dec) library, DhowStatus \<times> bytes option) call" where
  "manifest_field manifest out extract =
     guard_out out (call_then clear_last_error
       (if manifest = 0 then fail_out out StNullArgument (text_message ''manifest handle was null'')
        else (case out of
            None \<Rightarrow> fail_out out StNullArgument (text_message ''output pointer was null'')
          | Some mem \<Rightarrow> call_bind (deref as_manifest manifest) (\<lambda>m.
              call_bind (copy_to (extract m) mem) (\<lambda>mem'. ret (StOk, Some mem'))))))"

definition dhow_manifest_session_id ::
  "addr \<Rightarrow> bytes option \<Rightarrow> (('sk, 'vk, 'dec) library, DhowStatus \<times> bytes option) call" where
  "dhow_manifest_session_id manifest out =
     manifest_field manifest out (\<lambda>m. mh_session_id (mf_header (dm_manifest m)))"

definition dhow_manifest_salt ::
  "addr \<Rightarrow> bytes option \<Rightarrow> (('sk, 'vk, 'dec) library, DhowStatus \<times> bytes option) call" where
  "dhow_manifest_salt manifest out =
     manifest_field manifest out (\<lambda>m. mh_salt (mf_header (dm_manifest m)))"

definition dhow_manifest_nonce ::
  "addr \<Rightarrow> bytes option \<Rightarrow> (('sk, 'vk, 'dec) library, DhowStatus \<times> bytes option) call" where
  "dhow_manifest_nonce manifest out =
     manifest_field manifest out (\<lambda>m. mh_nonce (mf_header (dm_manifest m)))"

definition dhow_manifest_params ::
  "addr \<Rightarrow> DhowSessionParams option \<Rightarrow>
   (('sk, 'vk, 'dec) library, DhowStatus \<times> DhowSessionParams option) call" where
  "dhow_manifest_params manifest out =
     guard_out out (call_then clear_last_error
       (if manifest = 0 then fail_out out StNullArgument (text_message ''manifest handle was null'')
        else if out = None then fail_out out StNullArgument (text_message ''output pointer was null'')
        else call_bind (deref as_manifest manifest) (\<lambda>m.
          let params = mh_params (mf_header (dm_manifest m)) in
          ret (StOk, Some \<lparr>dp_payload_size = sp_payload_size params,
            dp_block_count = sp_block_count params, dp_symbol_size = sp_symbol_size params,
            dp_source_symbols_per_block = sp_source_symbols_per_block params,
            dp_total_symbols_per_block = sp_total_symbols_per_block params,
            dp_payload_digest = sp_payload_digest params\<rparr>))))"

text \<open>The count is the value of the local \<open>out\<close> when the guarded block ends with \<open>Ok\<close>, and the status
  otherwise.\<close>

definition dhow_manifest_file_count :: "addr \<Rightarrow> (('sk, 'vk, 'dec) library, c_int) call" where
  "dhow_manifest_file_count manifest =
     call_bind (guard_out (status_code StNullArgument) (call_then clear_last_error
       (if manifest = 0
          then fail_out (status_code StNullArgument) StNullArgument (text_message ''manifest handle was null'')
        else call_bind (deref as_manifest manifest) (\<lambda>m.
          ret (StOk, of_nat (length (mf_entries (dm_manifest m)))))))) (\<lambda>(status, out).
     ret (if status \<noteq> StOk then status_code status else out))"

definition entry_at :: "addr \<Rightarrow> nat \<Rightarrow> (('sk, 'vk, 'dec) library, FileEntry option) call" where
  "entry_at manifest index =
     (if manifest = 0
        then call_then (fail StNullArgument (text_message ''manifest handle was null'')) (ret None)
      else call_bind (deref as_manifest manifest) (\<lambda>m.
        let entries = mf_entries (dm_manifest m) in
        if index < length entries then ret (Some (entries ! index))
        else call_then (fail StInvalidArgument
               (Msg (Detail ''file index {index} is out of range; the manifest has {} entries''
                  [index, length entries]))) (ret None)))"

definition dhow_manifest_file_name ::
  "addr \<Rightarrow> nat \<Rightarrow> bytes option \<Rightarrow> nat \<Rightarrow> nat option \<Rightarrow>
   (('sk, 'vk, 'dec) library, DhowStatus \<times> bytes option \<times> nat option) call" where
  "dhow_manifest_file_name manifest index buf len written =
     guard_out (buf, written) (call_then clear_last_error
       (call_bind (entry_at manifest index) (\<lambda>e.
          case e of
            None \<Rightarrow> ret (StInvalidArgument, buf, written)
          | Some entry \<Rightarrow> write_out (fe_name entry) buf len written)))"

definition dhow_manifest_file_size ::
  "addr \<Rightarrow> nat \<Rightarrow> u64 option \<Rightarrow> (('sk, 'vk, 'dec) library, DhowStatus \<times> u64 option) call" where
  "dhow_manifest_file_size manifest index out =
     guard_out out (call_then clear_last_error
       (if out = None then fail_out out StNullArgument (text_message ''output pointer was null'')
        else call_bind (entry_at manifest index) (\<lambda>e.
          case e of
            None \<Rightarrow> ret (StInvalidArgument, out)
          | Some entry \<Rightarrow> ret (StOk, Some (fe_size entry)))))"

definition dhow_manifest_file_digest ::
  "addr \<Rightarrow> nat \<Rightarrow> bytes option \<Rightarrow> (('sk, 'vk, 'dec) library, DhowStatus \<times> bytes option) call" where
  "dhow_manifest_file_digest manifest index out =
     guard_out out (call_then clear_last_error
       (case out of
          None \<Rightarrow> fail_out out StNullArgument (text_message ''output pointer was null'')
        | Some mem \<Rightarrow> call_bind (entry_at manifest index) (\<lambda>e.
            case e of
              None \<Rightarrow> ret (StInvalidArgument, out)
            | Some entry \<Rightarrow> call_bind (copy_to (fe_digest entry) mem) (\<lambda>m. ret (StOk, Some m)))))"

definition dhow_manifest_file_executable ::
  "addr \<Rightarrow> nat \<Rightarrow> (('sk, 'vk, 'dec) library, c_int) call" where
  "dhow_manifest_file_executable manifest index =
     call_bind (guard_out 0 (call_then clear_last_error
       (call_bind (entry_at manifest index) (\<lambda>e.
          case e of
            None \<Rightarrow> ret (StInvalidArgument, 0)
          | Some entry \<Rightarrow> ret (StOk, if fe_executable entry then 1 else 0))))) (\<lambda>(status, out).
     ret (if status \<noteq> StOk then status_code status else out))"

definition dhow_manifest_free :: "addr \<Rightarrow> (('sk, 'vk, 'dec) library, unit) call" where
  "dhow_manifest_free manifest =
     guard_unit (if manifest = 0 then ret () else from_raw_drop as_manifest manifest)"

end
