(* ===== verification/Ffi_Invariant.thy ===== *)
theory Ffi_Invariant
  imports Ffi_Transfer Ffi_Manifest
begin

text \<open>
  What holds of the library between any two calls through the C interface. \<open>valid\<close> is the Hoare
  triple of a call that keeps an invariant, returning normally or panicking; its rules, collected
  in \<open>valid_intros\<close>, follow the combinators of the model, so that an entry point is verified by its
  own structure.

  The contract of the boxes is the locale \<open>handle_contract\<close>: which boxes are sound, and that the
  constructors of the components produce sound ones. Every entry point keeps a library of sound
  boxes; the locale is interpreted with \<open>box_ok\<close>.
\<close>

named_theorems valid_intros \<open>rules for the triples of calls\<close>

section \<open>Triples\<close>

definition valid :: "('s \<Rightarrow> bool) \<Rightarrow> ('s, 'a) call \<Rightarrow> ('a \<Rightarrow> bool) \<Rightarrow> bool" where
  "valid I m Q \<longleftrightarrow> (\<forall>s. I s \<longrightarrow>
     (\<forall>x s'. m s = Returns x s' \<longrightarrow> I s' \<and> Q x) \<and> (\<forall>s'. m s = Panics s' \<longrightarrow> I s'))"

abbreviation keeps :: "('s \<Rightarrow> bool) \<Rightarrow> ('s, 'a) call \<Rightarrow> bool" where
  "keeps I m \<equiv> valid I m (\<lambda>_. True)"

lemma validI:
  assumes "\<And>s x s'. I s \<Longrightarrow> m s = Returns x s' \<Longrightarrow> I s' \<and> Q x"
    and "\<And>s s'. I s \<Longrightarrow> m s = Panics s' \<Longrightarrow> I s'"
  shows "valid I m Q"
  using assms unfolding valid_def by blast

lemma validD:
  assumes "valid I m Q" and "I s"
  shows "m s = Returns x s' \<Longrightarrow> I s' \<and> Q x" and "m s = Panics s' \<Longrightarrow> I s'"
  using assms unfolding valid_def by blast+

lemma valid_basic [valid_intros]:
  "Q x \<Longrightarrow> valid I (ret x) Q"
  "valid I undefined_behaviour Q"
  "valid I panic Q"
  by (simp_all add: valid_def)

lemma valid_bind [valid_intros]:
  assumes m: "valid I m P" and f: "\<And>x. P x \<Longrightarrow> valid I (f x) Q"
  shows "valid I (call_bind m f) Q"
proof (rule validI)
  fix s y s' assume s: "I s" and r: "call_bind m f s = Returns y s'"
  from r obtain x s1 where ms: "m s = Returns x s1" and fx: "f x s1 = Returns y s'"
    by (cases "m s") auto
  from validD(1) [OF m s ms] have "I s1" "P x" by auto
  then show "I s' \<and> Q y" using validD(1) [OF f] fx by blast
next
  fix s s' assume s: "I s" and r: "call_bind m f s = Panics s'"
  show "I s'"
  proof (cases "m s")
    case (Returns x s1)
    from validD(1) [OF m s this] have "I s1" "P x" by auto
    then show ?thesis using validD(2) [OF f] r Returns by simp
  next
    case (Panics s1)
    then show ?thesis using validD(2) [OF m s] r by simp
  qed (use r in simp)
qed

lemma valid_if [valid_intros]:
  "(b \<Longrightarrow> valid I m Q) \<Longrightarrow> (\<not> b \<Longrightarrow> valid I n Q) \<Longrightarrow> valid I (if b then m else n) Q"
  by simp

lemma valid_option [valid_intros]:
  "(x = None \<Longrightarrow> valid I m Q) \<Longrightarrow> (\<And>y. x = Some y \<Longrightarrow> valid I (f y) Q) \<Longrightarrow>
   valid I (case x of None \<Rightarrow> m | Some y \<Rightarrow> f y) Q"
  by (cases x) auto

lemma valid_sum [valid_intros]:
  "(\<And>e. x = Inl e \<Longrightarrow> valid I (f e) Q) \<Longrightarrow> (\<And>y. x = Inr y \<Longrightarrow> valid I (g y) Q) \<Longrightarrow>
   valid I (case x of Inl e \<Rightarrow> f e | Inr y \<Rightarrow> g y) Q"
  by (cases x) auto

lemma valid_prod [valid_intros]:
  "(\<And>a b. x = (a, b) \<Longrightarrow> valid I (f a b) Q) \<Longrightarrow> valid I (case x of (a, b) \<Rightarrow> f a b) Q"
  by (cases x) auto

lemma valid_let [valid_intros]: "valid I (f x) Q \<Longrightarrow> valid I (let y = x in f y) Q"
  by simp

section \<open>Sound libraries\<close>

definition library_ok ::
  "(('sk, 'vk, 'dec) boxed \<Rightarrow> bool) \<Rightarrow> ('sk, 'vk, 'dec) library \<Rightarrow> bool" where
  "library_ok B L \<longleftrightarrow> lib_heap L 0 = None \<and> 0 < lib_next L \<and>
     (\<forall>a. lib_next L \<le> a \<longrightarrow> lib_heap L a = None) \<and> (\<forall>a b. lib_heap L a = Some b \<longrightarrow> B b)"

lemma valid_state [valid_intros]:
  "valid (library_ok B) (set_last_error m) (\<lambda>_. True)"
  "valid (library_ok B) clear_last_error (\<lambda>_. True)"
  "valid (library_ok B) get_files (\<lambda>_. True)"
  "valid (library_ok B) (put_files F) (\<lambda>_. True)"
  "Q1 st \<Longrightarrow> valid (library_ok B) (fail st m) Q1"
  "Q2 (st, out) \<Longrightarrow> valid (library_ok B) (fail_out out st m) Q2"
  "Q3 0 \<Longrightarrow> valid (library_ok B) (fail_ptr m) Q3"
  by (simp_all add: valid_def library_ok_def)

lemma valid_deref [valid_intros]:
  "valid (library_ok B) (deref sel p) (\<lambda>x. \<exists>b. B b \<and> sel b = Some x)"
  by (rule validI) (auto simp: deref_def library_ok_def bind_eq_Some_conv split: option.splits)

lemma valid_deref_assign:
  assumes "\<And>b x. B b \<Longrightarrow> sel b = Some x \<Longrightarrow> B (g x)" and k: "\<And>x. valid (library_ok B) (k x) Q"
  shows "valid (library_ok B) (call_bind (deref sel p) (\<lambda>x. call_then (assign p (g x)) (k x))) Q"
proof -
  have live: "library_ok B (L\<lparr>lib_heap := (lib_heap L)(p \<mapsto> g x)\<rparr>)"
    if L: "library_ok B L" and x: "Option.bind (lib_heap L p) sel = Some x" for L x
  proof -
    obtain b where b: "lib_heap L p = Some b" "sel b = Some x"
      using x by (auto simp: bind_eq_Some_conv)
    then have "B b" "p \<noteq> 0" "p < lib_next L"
      using L unfolding library_ok_def by (metis option.distinct(1), metis option.distinct(1), metis option.distinct(1) not_less)
    then show ?thesis using L assms(1) [OF _ b(2)] by (auto simp: library_ok_def)
  qed
  show ?thesis
  proof (rule validI)
    fix L y L' assume L: "library_ok B L"
      and r: "call_bind (deref sel p) (\<lambda>x. call_then (assign p (g x)) (k x)) L = Returns y L'"
    then obtain x where x: "Option.bind (lib_heap L p) sel = Some x"
      and kx: "k x (L\<lparr>lib_heap := (lib_heap L)(p \<mapsto> g x)\<rparr>) = Returns y L'"
      by (auto simp: deref_def split: option.splits)
    show "library_ok B L' \<and> Q y" by (rule validD(1) [OF k live [OF L x] kx])
  next
    fix L L' assume L: "library_ok B L"
      and r: "call_bind (deref sel p) (\<lambda>x. call_then (assign p (g x)) (k x)) L = Panics L'"
    then obtain x where x: "Option.bind (lib_heap L p) sel = Some x"
      and kx: "k x (L\<lparr>lib_heap := (lib_heap L)(p \<mapsto> g x)\<rparr>) = Panics L'"
      by (auto simp: deref_def split: option.splits)
    show "library_ok B L'" by (rule validD(2) [OF k live [OF L x] kx])
  qed
qed

lemma valid_into_raw [valid_intros]: "B b \<Longrightarrow> keeps (library_ok B) (into_raw b)"
  by (rule validI) (auto simp: into_raw_def library_ok_def)

lemma valid_drop [valid_intros]: "keeps (library_ok B) (from_raw_drop sel p)"
  by (rule validI) (auto simp: from_raw_drop_def library_ok_def split: option.splits if_splits)

lemma valid_catch_unwind: "keeps I m \<Longrightarrow> keeps I (catch_unwind m)"
  by (rule validI) (auto simp: catch_unwind_def split: outcome.splits dest: validD)

lemma valid_guard_with: "keeps (library_ok B) m \<Longrightarrow> keeps (library_ok B) (guard_with r m)"
  unfolding guard_with_def by (rule TrueI valid_intros valid_catch_unwind | assumption)+

lemma valid_guards [valid_intros]:
  "keeps (library_ok B) m1 \<Longrightarrow> keeps (library_ok B) (guard m1)"
  "keeps (library_ok B) m2 \<Longrightarrow> keeps (library_ok B) (guard_out out m2)"
  "keeps (library_ok B) m3 \<Longrightarrow> keeps (library_ok B) (guard_ptr m3)"
  "keeps (library_ok B) m4 \<Longrightarrow> keeps (library_ok B) (guard_unit m4)"
  "keeps (library_ok B) m5 \<Longrightarrow> keeps (library_ok B) (guard_int m5)"
  by (simp_all add: guard_def guard_out_def guard_ptr_def guard_unit_def guard_int_def valid_guard_with)

lemma valid_slice_from [valid_intros]:
  "valid (library_ok B) (slice_from p n) (\<lambda>r. \<forall>bs. r = Some bs \<longrightarrow> length bs = n)"
  by (rule validI) (auto simp: slice_from_def split: option.splits if_splits)

lemma valid_copy_to [valid_intros]: "keeps (library_ok B) (copy_to data mem)"
  unfolding copy_to_def by (rule TrueI valid_intros)+

lemma valid_write_out [valid_intros]: "keeps (library_ok B) (write_out data buf len written)"
  unfolding write_out_def by (rule TrueI valid_intros)+

lemma valid_c_string [valid_intros]: "keeps (library_ok B) (c_string mem)"
  unfolding c_string_def by (rule TrueI valid_intros)+

lemma valid_path_from [valid_intros]: "keeps (library_ok B) (path_from path)"
  unfolding path_from_def by (rule TrueI valid_intros)+

lemma valid_entry_at [valid_intros]: "keeps (library_ok B) (entry_at p i)"
  unfolding entry_at_def by (rule TrueI valid_intros)+

text \<open>What \<open>entries_from\<close> passes on: valid names, and the digests of the caller.\<close>

lemma entries_loop_result:
  "entries_loop i raw L = Returns r L' \<Longrightarrow> L' = L \<and>
     (\<forall>es. r = Inr es \<longrightarrow> (\<forall>e \<in> set es. utf8_valid (fe_name e) \<and> validate_name (fe_name e) = Inr () \<and>
        fe_digest e \<in> df_digest ` set raw))"
proof (induction i raw arbitrary: r L' rule: entries_loop.induct)
  case (1 i)
  then show ?case by auto
next
  case (2 i entry raw)
  from 2(2) show ?case
    by (auto simp: c_string_def file_entry_with_mode_def dest!: 2(1) [rotated -1]
        split: option.splits if_splits sum.splits outcome.splits)
qed

lemma entries_loop_no_panic: "entries_loop i raw L \<noteq> Panics L'"
  by (induction i raw arbitrary: L L' rule: entries_loop.induct)
    (auto simp: c_string_def split: option.splits if_splits sum.splits outcome.splits)

lemma valid_entries_from [valid_intros]:
  assumes "\<And>raw e. entries = Some raw \<Longrightarrow> e \<in> set raw \<Longrightarrow> length (df_digest e) = 32"
  shows "valid (library_ok B) (entries_from entries n) (\<lambda>r. \<forall>es. r = Inr es \<longrightarrow>
     (\<forall>e \<in> set es. utf8_valid (fe_name e) \<and> validate_name (fe_name e) = Inr () \<and>
        length (fe_digest e) = 32))"
proof (rule validI)
  fix L r L' assume "library_ok B L" and r: "entries_from entries n L = Returns r L'"
  show "library_ok B L' \<and> (\<forall>es. r = Inr es \<longrightarrow> (\<forall>e \<in> set es. utf8_valid (fe_name e) \<and>
      validate_name (fe_name e) = Inr () \<and> length (fe_digest e) = 32))"
  proof (cases entries)
    case None
    with r \<open>library_ok B L\<close> show ?thesis by (cases "n = 0") (auto simp: entries_from_def)
  next
    case raw: (Some raw)
    show ?thesis
    proof (cases "n = 0")
      case True
      with r \<open>library_ok B L\<close> show ?thesis by (auto simp: entries_from_def)
    next
      case False
      with r raw have "entries_loop 0 (take n raw) L = Returns r L'"
        by (cases "length raw < n") (auto simp: entries_from_def)
      from entries_loop_result [OF this] \<open>library_ok B L\<close> assms [OF raw] show ?thesis
        by (fastforce dest: in_set_takeD)
    qed
  qed
next
  fix L L' assume "library_ok B L" and "entries_from entries n L = Panics L'"
  then show "library_ok B L'"
    using entries_loop_no_panic [of 0 _ L L']
    by (cases entries; cases "n = 0"; cases "length (the entries) < n") (auto simp: entries_from_def)
qed

section \<open>Sequences of calls\<close>

text \<open>Everything outside the library: the external crates, the operating system, the build profile.\<close>

record ('cfg, 'enc, 'pkt, 'dec, 'sk, 'vk, 'qr) env =
  ev_raptorq :: "('cfg, 'enc, 'pkt, 'dec) raptorq"
  ev_keyed_hash :: "bytes \<Rightarrow> bytes \<Rightarrow> bytes"
  ev_hash :: "bytes \<Rightarrow> bytes"
  ev_aead :: aead
  ev_ed25519 :: "('sk, 'vk) ed25519"
  ev_os :: os
  ev_umask :: u32
  ev_checks :: bool
  ev_display :: "message \<Rightarrow> bytes"
  ev_qr_at :: "bytes \<Rightarrow> Ecc \<Rightarrow> u8 \<Rightarrow> 'qr option"
  ev_qr_any :: "bytes \<Rightarrow> Ecc \<Rightarrow> 'qr option"
  ev_qr_size :: "'qr \<Rightarrow> nat"
  ev_qr_module :: "'qr \<Rightarrow> nat \<Rightarrow> nat \<Rightarrow> bool"

text \<open>The array fields of the structures that cross the interface have their C sizes.\<close>

definition abi_entries :: "DhowFileEntry list option \<Rightarrow> bool" where
  "abi_entries entries \<longleftrightarrow> (\<forall>raw. entries = Some raw \<longrightarrow> (\<forall>e \<in> set raw. length (df_digest e) = 32))"

text \<open>A call that returns takes the library from one state to the next. Every entry point is a rule,
  with any arguments.\<close>

inductive ffi_call ::
  "('cfg, 'enc, 'pkt, 'dec, 'sk, 'vk, 'qr) env \<Rightarrow> ('sk, 'vk, 'dec) library \<Rightarrow> ('sk, 'vk, 'dec) library \<Rightarrow> bool"
  for V where
  call_last_error_message: "dhow_last_error_message (ev_display V) buf len L = Returns r L' \<Longrightarrow> ffi_call V L L'"
| call_key_generate: "dhow_key_generate rnd L = Returns r L' \<Longrightarrow> ffi_call V L L'"
| call_key_load: "dhow_key_load (ev_hash V) (ev_ed25519 V) (ev_os V) path L = Returns r L' \<Longrightarrow> ffi_call V L L'"
| call_key_save: "dhow_key_save (ev_hash V) (ev_os V) (ev_umask V) key path L = Returns r L' \<Longrightarrow> ffi_call V L L'"
| call_key_free: "dhow_key_free key L = Returns r L' \<Longrightarrow> ffi_call V L L'"
| call_encoder_new: "dhow_encoder_new (ev_raptorq V) (ev_keyed_hash V) (ev_hash V) (ev_aead V) key sid salt nonce params payload len L = Returns r L' \<Longrightarrow> ffi_call V L L'"
| call_encoder_params: "dhow_encoder_params p params_out L = Returns r L' \<Longrightarrow> ffi_call V L L'"
| call_encoder_frame_count: "dhow_encoder_frame_count p L = Returns r L' \<Longrightarrow> ffi_call V L L'"
| call_encoder_frame: "dhow_encoder_frame p i buf len written L = Returns r L' \<Longrightarrow> ffi_call V L L'"
| call_encoder_free: "dhow_encoder_free p L = Returns r L' \<Longrightarrow> ffi_call V L L'"
| call_decoder_new: "dhow_decoder_new (ev_raptorq V) (ev_keyed_hash V) key sid salt params L = Returns r L' \<Longrightarrow> ffi_call V L L'"
| call_decoder_accept: "dhow_decoder_accept (ev_raptorq V) (ev_keyed_hash V) p frame len L = Returns r L' \<Longrightarrow> ffi_call V L L'"
| call_decoder_is_complete: "dhow_decoder_is_complete p L = Returns r L' \<Longrightarrow> ffi_call V L L'"
| call_decoder_blocks_complete: "dhow_decoder_blocks_complete p L = Returns r L' \<Longrightarrow> ffi_call V L L'"
| call_decoder_finish: "dhow_decoder_finish (ev_keyed_hash V) (ev_hash V) (ev_aead V) p key sid salt nonce buf len written L = Returns r L' \<Longrightarrow> ffi_call V L L'"
| call_decoder_resume_state: "dhow_decoder_resume_state (ev_hash V) p journal_bytes buf len written L = Returns r L' \<Longrightarrow> ffi_call V L L'"
| call_resume_state_read: "dhow_resume_state_read (ev_checks V) (ev_hash V) st len sid_out journal_out blocks_out L = Returns r L' \<Longrightarrow> ffi_call V L L'"
| call_decoder_resume_verify: "dhow_decoder_resume_verify (ev_checks V) (ev_hash V) p st len L = Returns r L' \<Longrightarrow> ffi_call V L L'"
| call_decoder_free: "dhow_decoder_free p L = Returns r L' \<Longrightarrow> ffi_call V L L'"
| call_blake3: "dhow_blake3 (ev_hash V) data len out L = Returns r L' \<Longrightarrow> ffi_call V L L'"
| call_hasher_new: "dhow_hasher_new L = Returns r L' \<Longrightarrow> ffi_call V L L'"
| call_hasher_update: "dhow_hasher_update p data len L = Returns r L' \<Longrightarrow> ffi_call V L L'"
| call_hasher_finish: "dhow_hasher_finish (ev_hash V) p out L = Returns r L' \<Longrightarrow> ffi_call V L L'"
| call_hasher_free: "dhow_hasher_free p L = Returns r L' \<Longrightarrow> ffi_call V L L'"
| call_qr_capacity: "dhow_qr_capacity (ev_qr_at V) version ecc L = Returns r L' \<Longrightarrow> ffi_call V L L'"
| call_qr_max_symbol_size: "dhow_qr_max_symbol_size (ev_qr_at V) version ecc L = Returns r L' \<Longrightarrow> ffi_call V L L'"
| call_qr_encode_frame: "dhow_qr_encode_frame (ev_qr_at V) (ev_qr_any V) (ev_qr_size V) (ev_qr_module V) frame len version ecc buf blen size_out written L = Returns r L' \<Longrightarrow> ffi_call V L L'"
| call_identity_generate: "dhow_identity_generate (ev_ed25519 V) rnd L = Returns r L' \<Longrightarrow> ffi_call V L L'"
| call_identity_load: "dhow_identity_load (ev_hash V) (ev_ed25519 V) (ev_os V) path L = Returns r L' \<Longrightarrow> ffi_call V L L'"
| call_identity_save: "dhow_identity_save (ev_hash V) (ev_ed25519 V) (ev_os V) (ev_umask V) p path L = Returns r L' \<Longrightarrow> ffi_call V L L'"
| call_identity_public: "dhow_identity_public (ev_ed25519 V) p L = Returns r L' \<Longrightarrow> ffi_call V L L'"
| call_identity_free: "dhow_identity_free p L = Returns r L' \<Longrightarrow> ffi_call V L L'"
| call_public_load: "dhow_public_load (ev_ed25519 V) (ev_os V) path L = Returns r L' \<Longrightarrow> ffi_call V L L'"
| call_public_save: "dhow_public_save (ev_ed25519 V) (ev_os V) (ev_umask V) p path L = Returns r L' \<Longrightarrow> ffi_call V L L'"
| call_public_bytes: "dhow_public_bytes (ev_ed25519 V) p out L = Returns r L' \<Longrightarrow> ffi_call V L L'"
| call_public_fingerprint: "dhow_public_fingerprint (ev_hash V) (ev_ed25519 V) p buf len written L = Returns r L' \<Longrightarrow> ffi_call V L L'"
| call_public_free: "dhow_public_free p L = Returns r L' \<Longrightarrow> ffi_call V L L'"
| call_manifest_build: "length (dp_payload_digest params) = 32 \<Longrightarrow> abi_entries entries \<Longrightarrow>
     dhow_manifest_build (ev_ed25519 V) (ev_checks V) p sid salt nonce params entries n L = Returns r L' \<Longrightarrow> ffi_call V L L'"
| call_manifest_verify: "dhow_manifest_verify (ev_ed25519 V) p bytes len sid L = Returns r L' \<Longrightarrow> ffi_call V L L'"
| call_manifest_bytes: "dhow_manifest_bytes p buf len written L = Returns r L' \<Longrightarrow> ffi_call V L L'"
| call_manifest_session_id: "dhow_manifest_session_id p out L = Returns r L' \<Longrightarrow> ffi_call V L L'"
| call_manifest_salt: "dhow_manifest_salt p out L = Returns r L' \<Longrightarrow> ffi_call V L L'"
| call_manifest_nonce: "dhow_manifest_nonce p out L = Returns r L' \<Longrightarrow> ffi_call V L L'"
| call_manifest_params: "dhow_manifest_params p params_out L = Returns r L' \<Longrightarrow> ffi_call V L L'"
| call_manifest_file_count: "dhow_manifest_file_count p L = Returns r L' \<Longrightarrow> ffi_call V L L'"
| call_manifest_file_name: "dhow_manifest_file_name p i buf len written L = Returns r L' \<Longrightarrow> ffi_call V L L'"
| call_manifest_file_size: "dhow_manifest_file_size p i size_out L = Returns r L' \<Longrightarrow> ffi_call V L L'"
| call_manifest_file_digest: "dhow_manifest_file_digest p i out L = Returns r L' \<Longrightarrow> ffi_call V L L'"
| call_manifest_file_executable: "dhow_manifest_file_executable p i L = Returns r L' \<Longrightarrow> ffi_call V L L'"
| call_manifest_free: "dhow_manifest_free p L = Returns r L' \<Longrightarrow> ffi_call V L L'"

inductive ffi_reaches ::
  "('cfg, 'enc, 'pkt, 'dec, 'sk, 'vk, 'qr) env \<Rightarrow> ('sk, 'vk, 'dec) library \<Rightarrow> ('sk, 'vk, 'dec) library \<Rightarrow> bool"
  for V L0 where
  start: "ffi_reaches V L0 L0"
| call: "ffi_reaches V L0 L \<Longrightarrow> ffi_call V L L' \<Longrightarrow> ffi_reaches V L0 L'"

section \<open>The contract of the boxes\<close>

locale handle_contract =
  fixes B :: "('sk, 'vk, 'dec) boxed \<Rightarrow> bool"
    and V :: "('cfg, 'enc, 'pkt, 'dec, 'sk, 'vk, 'qr) env"
  assumes plain: "B (BoxKey k)" "B (BoxEncoder e)" "B (BoxHasher x)" "B (BoxIdentity i)" "B (BoxPublic u)"
    and decoder_made:
      "decoder_new (ev_raptorq V) sid params key = Inr d \<Longrightarrow> length sid = 16 \<Longrightarrow>
       B (BoxDecoder \<lparr>dd_inner = d\<rparr>)"
    and decoder_taken:
      "B (BoxDecoder d') \<Longrightarrow> B (BoxDecoder (d'\<lparr>dd_inner :=
         snd (decoder_accept_run (ev_raptorq V) (ev_keyed_hash V) (dd_inner d') f)\<rparr>))"
    and manifest_verified:
      "verify_manifest_with (ev_ed25519 V) pk bs expected policy_default = Inr v \<Longrightarrow>
       B (BoxManifest \<lparr>dm_manifest = vm_manifest v, dm_bytes = bs\<rparr>)"
    and manifest_built:
      "\<lbrakk>length sid = 16; length salt = 32; length nonce = 24; length (dp_payload_digest p) = 32;
        \<forall>e \<in> set es. utf8_valid (fe_name e) \<and> validate_name (fe_name e) = Inr () \<and> length (fe_digest e) = 32;
        bs = sign_manifest (ev_ed25519 V) key' (manifest_build
          (manifest_header_new sid es total_size salt nonce (to_session_params p)) es (replicate 64 0));
        manifest_from_bytes bs = Inr m\<rbrakk> \<Longrightarrow>
       B (BoxManifest \<lparr>dm_manifest = m, dm_bytes = bs\<rparr>)"
begin

lemma accept_keeps:
  "keeps (library_ok B) (dhow_decoder_accept (ev_raptorq V) (ev_keyed_hash V) p frame len)"
proof -
  have upd: "keeps (library_ok B) (call_bind (deref as_decoder p) (\<lambda>d.
      call_then (assign p (BoxDecoder (d\<lparr>dd_inner :=
          snd (decoder_accept_run (ev_raptorq V) (ev_keyed_hash V) (dd_inner d) bytes)\<rparr>)))
        (case fst (decoder_accept_run (ev_raptorq V) (ev_keyed_hash V) (dd_inner d) bytes) of
           None \<Rightarrow> panic | Some (Inr _) \<Rightarrow> ret StOk | Some (Inl e) \<Rightarrow> fail StFrameRejected (MsgCodec e))))" for bytes
  proof (rule valid_deref_assign)
    fix b d assume "B b" and "as_decoder b = Some d"
    then show "B (BoxDecoder (d\<lparr>dd_inner :=
        snd (decoder_accept_run (ev_raptorq V) (ev_keyed_hash V) (dd_inner d) bytes)\<rparr>))"
      by (cases b) (auto intro: decoder_taken)
  qed (rule TrueI valid_intros)+
  show ?thesis
    unfolding dhow_decoder_accept_def case_prod_unfold Let_def by (rule TrueI upd valid_intros)+
qed

lemma hasher_update_keeps: "keeps (library_ok B) (dhow_hasher_update p data len)"
proof -
  have upd: "keeps (library_ok B) (call_bind (deref as_hasher p) (\<lambda>x.
      call_then (assign p (BoxHasher (x\<lparr>dh_inner := blake3_hasher_update (dh_inner x) bytes\<rparr>)))
        (ret StOk)))" for bytes
    by (rule valid_deref_assign) (rule TrueI plain valid_intros)+
  show ?thesis unfolding dhow_hasher_update_def by (rule TrueI upd valid_intros)+
qed

lemma decoder_new_keeps:
  "keeps (library_ok B) (dhow_decoder_new (ev_raptorq V) kh key sid salt params)"
  unfolding dhow_decoder_new_def by (rule TrueI valid_intros | erule decoder_made | simp)+

lemma manifest_verify_keeps: "keeps (library_ok B) (dhow_manifest_verify (ev_ed25519 V) p bytes len sid)"
  unfolding dhow_manifest_verify_def by (rule TrueI valid_intros | erule manifest_verified)+

lemma manifest_build_keeps:
  assumes "length (dp_payload_digest params) = 32" and "abi_entries entries"
  shows "keeps (library_ok B) (dhow_manifest_build (ev_ed25519 V) checks p sid salt nonce params entries n)"
proof -
  have box: "keeps (library_ok B) (call_bind (deref as_identity p) (\<lambda>k.
      case manifest_from_bytes (sign_manifest (ev_ed25519 V) (di_inner k) (manifest_build
          (manifest_header_new sid' es total_size salt' nonce' (to_session_params params)) es (replicate 64 0))) of
        Inr manifest \<Rightarrow> into_raw (BoxManifest \<lparr>dm_manifest = manifest,
          dm_bytes = sign_manifest (ev_ed25519 V) (di_inner k) (manifest_build
            (manifest_header_new sid' es total_size salt' nonce' (to_session_params params)) es (replicate 64 0))\<rparr>)
      | Inl e \<Rightarrow> fail_ptr (MsgNotParsedBack e)))"
    if "length sid' = 16" "length salt' = 32" "length nonce' = 24"
      "\<forall>e \<in> set es. utf8_valid (fe_name e) \<and> validate_name (fe_name e) = Inr () \<and> length (fe_digest e) = 32"
    for sid' salt' nonce' es total_size
    by (rule TrueI manifest_built [OF that(1-3) assms(1) that(4) HOL.refl] valid_intros | assumption)+
  have ent: "valid (library_ok B) (entries_from entries n) (\<lambda>r. \<forall>es. r = Inr es \<longrightarrow>
     (\<forall>e \<in> set es. utf8_valid (fe_name e) \<and> validate_name (fe_name e) = Inr () \<and> length (fe_digest e) = 32))"
    by (rule valid_entries_from) (use assms(2) in \<open>simp add: abi_entries_def\<close>)
  show ?thesis
    unfolding dhow_manifest_build_def Let_def by (rule TrueI ent box valid_intros | blast)+
qed

lemma key_calls_keep:
  "keeps (library_ok B) (dhow_key_generate rnd)"
  "keeps (library_ok B) (dhow_key_load h E S path)"
  "keeps (library_ok B) (dhow_key_save h S umask p path)"
  "keeps (library_ok B) (dhow_key_free p)"
  unfolding dhow_key_generate_def dhow_key_load_def dhow_key_save_def dhow_key_free_def
  by (rule TrueI plain valid_intros)+

lemma encoder_calls_keep:
  "keeps (library_ok B) (dhow_encoder_new R kh h A p sid salt nonce params payload len)"
  "keeps (library_ok B) (dhow_encoder_params p params_out)"
  "keeps (library_ok B) (dhow_encoder_frame_count p)"
  "keeps (library_ok B) (dhow_encoder_frame p i buf len written)"
  "keeps (library_ok B) (dhow_encoder_free p)"
  unfolding dhow_encoder_new_def dhow_encoder_params_def dhow_encoder_frame_count_def
    dhow_encoder_frame_def dhow_encoder_free_def
  by (rule TrueI plain valid_intros)+

lemma decoder_calls_keep:
  "keeps (library_ok B) (dhow_decoder_is_complete p)"
  "keeps (library_ok B) (dhow_decoder_blocks_complete p)"
  "keeps (library_ok B) (dhow_decoder_finish kh h A p key sid salt nonce buf len written)"
  "keeps (library_ok B) (dhow_decoder_resume_state h p journal_bytes buf len written)"
  "keeps (library_ok B) (dhow_resume_state_read checks h st len sid_out journal_out blocks_out)"
  "keeps (library_ok B) (dhow_decoder_resume_verify checks h p st len)"
  "keeps (library_ok B) (dhow_decoder_free p)"
  unfolding dhow_decoder_is_complete_def dhow_decoder_blocks_complete_def dhow_decoder_finish_def
    dhow_decoder_resume_state_def dhow_resume_state_read_def dhow_decoder_resume_verify_def
    dhow_decoder_free_def
  by (rule TrueI valid_intros)+

lemma digest_calls_keep:
  "keeps (library_ok B) (dhow_blake3 h data len out)"
  "keeps (library_ok B) dhow_hasher_new"
  "keeps (library_ok B) (dhow_hasher_finish h p out)"
  "keeps (library_ok B) (dhow_hasher_free p)"
  "keeps (library_ok B) (dhow_qr_capacity enc version ecc)"
  "keeps (library_ok B) (dhow_qr_max_symbol_size enc version ecc)"
  "keeps (library_ok B) (dhow_qr_encode_frame enc encb gsize gmod frame len version ecc buf blen size_out written)"
  unfolding dhow_blake3_def dhow_hasher_new_def dhow_hasher_finish_def dhow_hasher_free_def
    dhow_qr_capacity_def dhow_qr_max_symbol_size_def dhow_qr_encode_frame_def
  by (rule TrueI plain valid_intros)+

lemma identity_calls_keep:
  "keeps (library_ok B) (dhow_identity_generate E rnd)"
  "keeps (library_ok B) (dhow_identity_load h E S path)"
  "keeps (library_ok B) (dhow_identity_save h E S umask p path)"
  "keeps (library_ok B) (dhow_identity_public E p)"
  "keeps (library_ok B) (dhow_identity_free p)"
  "keeps (library_ok B) (dhow_public_load E S path)"
  "keeps (library_ok B) (dhow_public_save E S umask p path)"
  "keeps (library_ok B) (dhow_public_bytes E p out)"
  "keeps (library_ok B) (dhow_public_fingerprint h E p buf len written)"
  "keeps (library_ok B) (dhow_public_free p)"
  unfolding dhow_identity_generate_def dhow_identity_load_def dhow_identity_save_def
    dhow_identity_public_def dhow_identity_free_def dhow_public_load_def dhow_public_save_def
    dhow_public_bytes_def dhow_public_fingerprint_def dhow_public_free_def
  by (rule TrueI plain valid_intros)+

lemma manifest_calls_keep:
  "keeps (library_ok B) (dhow_manifest_bytes p buf len written)"
  "keeps (library_ok B) (dhow_manifest_session_id p out)"
  "keeps (library_ok B) (dhow_manifest_salt p out)"
  "keeps (library_ok B) (dhow_manifest_nonce p out)"
  "keeps (library_ok B) (dhow_manifest_params p params_out)"
  "keeps (library_ok B) (dhow_manifest_file_count p)"
  "keeps (library_ok B) (dhow_manifest_file_name p i buf len written)"
  "keeps (library_ok B) (dhow_manifest_file_size p i size_out)"
  "keeps (library_ok B) (dhow_manifest_file_digest p i out)"
  "keeps (library_ok B) (dhow_manifest_file_executable p i)"
  "keeps (library_ok B) (dhow_manifest_free p)"
  unfolding dhow_manifest_bytes_def dhow_manifest_session_id_def dhow_manifest_salt_def
    dhow_manifest_nonce_def manifest_field_def dhow_manifest_params_def dhow_manifest_file_count_def
    dhow_manifest_file_name_def dhow_manifest_file_size_def dhow_manifest_file_digest_def
    dhow_manifest_file_executable_def dhow_manifest_free_def
  by (rule TrueI valid_intros)+

lemma last_error_message_keeps: "keeps (library_ok B) (dhow_last_error_message display buf len)"
proof -
  have "keeps (library_ok B) (\<lambda>L.
      let bytes = display (lib_last_error L); needed = length bytes + 1
      in case buf of None \<Rightarrow> ret (of_nat needed, None) L
         | Some mem \<Rightarrow> if len < needed then ret (status_code StBufferTooSmall, Some mem) L
             else call_bind (copy_to (bytes @ [0]) mem) (\<lambda>mem'. ret (of_nat needed, Some mem')) L)"
    by (rule validI) (auto simp: Let_def copy_to_def split: option.splits if_splits)
  then show ?thesis unfolding dhow_last_error_message_def by (rule valid_guard_with)
qed

lemmas calls_keep = last_error_message_keeps accept_keeps hasher_update_keeps decoder_new_keeps
  manifest_verify_keeps manifest_build_keeps key_calls_keep encoder_calls_keep decoder_calls_keep
  digest_calls_keep identity_calls_keep manifest_calls_keep

lemma kept:
  "library_ok B L \<Longrightarrow> m L = Returns r L' \<Longrightarrow> keeps (library_ok B) m \<Longrightarrow> library_ok B L'"
  by (blast dest: validD(1))

lemma call_keeps: "ffi_call V L L' \<Longrightarrow> library_ok B L \<Longrightarrow> library_ok B L'"
  by (induction rule: ffi_call.induct) (erule kept, assumption, rule calls_keep, (assumption+)?)+

lemma reaches_keeps: "ffi_reaches V L0 L \<Longrightarrow> library_ok B L0 \<Longrightarrow> library_ok B L"
  by (induction rule: ffi_reaches.induct) (auto intro: call_keeps)

end

section \<open>The boxes of this library\<close>

text \<open>A decoder behind a handle satisfies the receiver's invariant; a manifest behind a handle is what
  its bytes parse to, and its signature was made by an identity or verified under one.\<close>

fun box_ok :: "('sk, 'vk) ed25519 \<Rightarrow> ('sk, 'vk, 'dec) boxed \<Rightarrow> bool" where
  "box_ok E (BoxDecoder d) \<longleftrightarrow> decoder_wf (dd_inner d) \<and> length (pd_session_id (dd_inner d)) = 16"
| "box_ok E (BoxManifest m) \<longleftrightarrow> manifest_from_bytes (dm_bytes m) = Inr (dm_manifest m) \<and>
     (ed25519_signs E \<longrightarrow> (\<exists>pk. public_verify E pk (signing_bytes (dm_manifest m))
        (mh_signature (mf_header (dm_manifest m)))))"
| "box_ok E _ \<longleftrightarrow> True"

lemma sign_parse_verifies:
  assumes E: "ed25519_signs E" and u: "manifest_header_wf (mf_header u)"
    and m: "manifest_from_bytes (sign_manifest E k u) = Inr m"
  shows "public_verify E (identity_public E k) (signing_bytes m) (mh_signature (mf_header m))"
proof -
  let ?W = "manifest_to_vec u" and ?sig = "identity_sign E k (signing_bytes u)"
  let ?bs = "sign_manifest E k u"
  have sig: "length ?sig = 64" using E by (simp add: identity_sign_def ed25519_signs_def)
  have W: "228 \<le> length ?W"
    using mhdr.length_to_vec [OF u] by (simp add: manifest_to_vec_def manifest_sizes)
  have bs: "?bs = take 164 ?W @ ?sig @ drop 228 ?W"
    by (simp add: sign_manifest_def Let_def manifest_sizes SIGNATURE_LEN_def)
  have "zero_signature ?bs = zero_signature ?W"
    unfolding bs zero_signature_def using W sig by (simp add: manifest_sizes)
  moreover have "?bs = manifest_to_vec m" using m by (simp add: manifest_parse_iff)
  ultimately have "signing_bytes m = signing_bytes u" by (simp add: signing_bytes_def)
  moreover have "mh_signature (mf_header m) = slice 164 228 ?bs"
    using m by (auto simp: manifest_from_bytes_def manifest_header_from_bytes_def Let_def manifest_sizes
        split: if_splits)
  then have "mh_signature (mf_header m) = ?sig"
    unfolding bs using W sig by (simp add: slice_def)
  ultimately show ?thesis
    using E by (simp add: public_verify_def identity_public_def identity_sign_def ed25519_signs_def)
qed

interpretation handles: handle_contract "box_ok (ev_ed25519 V)" V
  for V :: "('cfg, 'enc, 'pkt, 'dec, 'sk, 'vk, 'qr) env"
proof unfold_locales
  fix sid params key d
  assume d: "decoder_new (ev_raptorq V) sid params key = Inr d" and "length sid = 16"
  then show "box_ok (ev_ed25519 V) (BoxDecoder \<lparr>dd_inner = d\<rparr>)"
    using decoder_new_wf [OF d] decoder_new_fields(1) [OF d] by simp
next
  fix d :: "'dec DhowDecoder" and f
  assume "box_ok (ev_ed25519 V) (BoxDecoder d)"
  then show "box_ok (ev_ed25519 V) (BoxDecoder (d\<lparr>dd_inner :=
      snd (decoder_accept_run (ev_raptorq V) (ev_keyed_hash V) (dd_inner d) f)\<rparr>))"
    by (simp add: accept_run_keeps)
next
  fix pk bs expected v
  assume "verify_manifest_with (ev_ed25519 V) pk bs expected policy_default = Inr v"
  then have "verify_signature (ev_ed25519 V) pk bs = Inr (vm_manifest v)"
    by (auto simp: verify_manifest_with_def split: if_splits)
  then show "box_ok (ev_ed25519 V) (BoxManifest \<lparr>dm_manifest = vm_manifest v, dm_bytes = bs\<rparr>)"
    by (auto simp: verify_signature_iff manifest_parse_iff)
next
  fix sid salt nonce :: bytes and p es bs key' total_size m
  assume l: "length sid = 16" "length salt = 32" "length nonce = 24" "length (dp_payload_digest p) = 32"
    and bs: "bs = sign_manifest (ev_ed25519 V) key' (manifest_build
          (manifest_header_new sid es total_size salt nonce (to_session_params p)) es (replicate 64 0))"
    and m: "manifest_from_bytes bs = Inr m"
  let ?u = "manifest_build (manifest_header_new sid es total_size salt nonce (to_session_params p)) es (replicate 64 0)"
  have "manifest_header_wf (mf_header ?u)"
    using l by (simp add: manifest_header_wf_def manifest_build_def manifest_header_new_def
        set_signature_def session_params_wf_def to_session_params_def Let_def)
  from sign_parse_verifies [OF _ this m [unfolded bs]] m
  show "box_ok (ev_ed25519 V) (BoxManifest \<lparr>dm_manifest = m, dm_bytes = bs\<rparr>)" by auto
qed simp_all

end
