(* ===== verification/Ffi_Contract.thy ===== *)
theory Ffi_Contract
  imports Ffi_Invariant
begin

text \<open>
  What a caller of the C interface can rely on: handles stay sound through any sequence of calls,
  output buffers follow the two-call convention, plaintext leaves the library only after its checks,
  a manifest that was built verifies, and a transfer through the interface delivers the data.
\<close>

section \<open>The library\<close>

text \<open>The library when it is loaded.\<close>

definition library_new :: "files \<Rightarrow> ('sk, 'vk, 'dec) library" where
  "library_new F = \<lparr>lib_heap = \<lambda>_. None, lib_next = 1, lib_last_error = text_message '''', lib_files = F\<rparr>"

section \<open>Calls that leave the heap alone\<close>

text \<open>Triples whose invariant is that the boxes are those of \<open>H\<close>; reading a handle then says what it stands for.\<close>

lemma heap_calls:
  "valid (\<lambda>L. lib_heap L = H) clear_last_error (\<lambda>_. True)"
  "Q1 (st, out) \<Longrightarrow> valid (\<lambda>L. lib_heap L = H) (fail_out out st m) Q1"
  "valid (\<lambda>L. lib_heap L = H) (deref sel p) (\<lambda>x. \<exists>b. H p = Some b \<and> sel b = Some x)"
  "valid (\<lambda>L. lib_heap L = H) (slice_from ptr n) (\<lambda>r. \<forall>bs. r = Some bs \<longrightarrow> (\<exists>mem. ptr = Some mem \<and> bs = take n mem))"
  by (auto simp: valid_def deref_returns slice_from_def deref_def bind_eq_Some_conv
      split: option.splits if_splits)

lemma heap_write_out:
  assumes "\<And>mem. buf = Some mem \<Longrightarrow> length data \<le> len \<Longrightarrow> Q (StOk, Some (data @ drop (length data) mem), map_option (\<lambda>_. length data) written)"
    and "buf = None \<Longrightarrow> Q (StOk, None, map_option (\<lambda>_. length data) written)"
    and "\<And>mem. buf = Some mem \<Longrightarrow> len < length data \<Longrightarrow> Q (StBufferTooSmall, Some mem, map_option (\<lambda>_. length data) written)"
  shows "valid (\<lambda>L. lib_heap L = H) (write_out data buf len written) Q"
proof (cases buf)
  case None
  with assms(2) show ?thesis by (simp add: valid_def write_out_def)
next
  case (Some mem)
  with assms(1,3) [of mem] show ?thesis
    by (cases "len < length data") (auto simp: valid_def write_out_def copy_to_def)
qed

lemma heap_guard_with:
  assumes m: "valid (\<lambda>L. lib_heap L = H) m Q" and r: "Q r"
  shows "valid (\<lambda>L. lib_heap L = H) (guard_with r m) Q"
proof (rule validI)
  fix L x L' assume L: "lib_heap L = H" and g: "guard_with r m L = Returns x L'"
  show "lib_heap L' = H \<and> Q x"
    using validD [OF m L] r g by (cases "m L") (auto simp: guard_with_def catch_unwind_def)
next
  fix L L' assume "guard_with r m L = Panics L'"
  then show "lib_heap L' = H" by (cases "m L") (auto simp: guard_with_def catch_unwind_def)
qed

lemmas heap_triples = heap_guard_with heap_calls heap_write_out valid_basic valid_bind valid_if valid_option
  valid_sum valid_prod valid_let

section \<open>Feeding a decoder\<close>

text \<open>One call of \<open>dhow_decoder_accept\<close> for each captured frame.\<close>

fun feed ::
  "('cfg, 'enc, 'pkt, 'dec) raptorq \<Rightarrow> (bytes \<Rightarrow> bytes \<Rightarrow> bytes) \<Rightarrow> addr \<Rightarrow> bytes list \<Rightarrow>
   (('sk, 'vk, 'dec) library, DhowStatus list) call" where
  "feed R kh p [] = ret []"
| "feed R kh p (f # fs) = call_bind (dhow_decoder_accept R kh p (Some f) (length f)) (\<lambda>st.
     call_bind (feed R kh p fs) (\<lambda>sts. ret (st # sts)))"

text \<open>The answer to an accepted and to a rejected frame.\<close>

abbreviation answer :: "CodecError + FrameOutcome \<Rightarrow> DhowStatus" where
  "answer r \<equiv> (if is_ok r then StOk else StFrameRejected)"

lemma accept_live:
  assumes "lib_heap L p = Some (BoxDecoder d)" and "p \<noteq> 0"
    and "decoder_accept_run R kh (dd_inner d) f = (Some r, inner)"
  shows "\<exists>L'. dhow_decoder_accept R kh p (Some f) (length f) L = Returns (answer r) L' \<and>
    lib_heap L' = (lib_heap L)(p \<mapsto> BoxDecoder (d\<lparr>dd_inner := inner\<rparr>))"
  using assms by (cases r) (auto simp: dhow_decoder_accept_def guard_def guard_with_def catch_unwind_def deref_def)

text \<open>A frame on which RaptorQ panics is answered \<open>Panic\<close>. The symbol and the frame have been recorded by
  then, in the bitmap and in the journal digest that the resume state reports, though the block did
  not take the packet.\<close>

lemma accept_panics:
  assumes "lib_heap L p = Some (BoxDecoder d)" and "p \<noteq> 0"
    and "admitted kh (dd_inner d) f = Inr (b, sy, pl)"
    and "block_panics R (pd_blocks (dd_inner d) ! unat b) pl = Some s"
  shows "\<exists>L'. dhow_decoder_accept R kh p (Some f) (length f) L = Returns StPanic L' \<and>
    lib_heap L' = (lib_heap L)(p \<mapsto> BoxDecoder (d\<lparr>dd_inner := (snd (mark_held (dd_inner d) b sy))
       \<lparr>pd_journal := blake3_hasher_update (pd_journal (dd_inner d)) f,
        pd_blocks := (pd_blocks (dd_inner d))[unat b := s]\<rparr>\<rparr>))"
  using assms accept_run_panics [OF assms(3,4)]
  by (simp add: dhow_decoder_accept_def guard_def guard_with_def catch_unwind_def deref_def)

lemma feed_live:
  assumes "lib_heap L p = Some (BoxDecoder d)" and "p \<noteq> 0" and "receive_run R kh (dd_inner d) fs = Some d'"
  shows "\<exists>L'. feed R kh p fs L = Returns (map (\<lambda>f. answer (fst (decoder_accept R kh (dd_inner d) f))) fs) L' \<and>
    lib_heap L' = (lib_heap L)(p \<mapsto> BoxDecoder (d\<lparr>dd_inner := d'\<rparr>))"
  using assms
proof (induction fs arbitrary: L d)
  case Nil
  then have "(lib_heap L)(p \<mapsto> BoxDecoder d) = lib_heap L" by auto
  with Nil show ?case by auto
next
  case (Cons f fs)
  let ?d1 = "d\<lparr>dd_inner := snd (decoder_accept R kh (dd_inner d) f)\<rparr>"
  from Cons.prems(3) have run: "decoder_accept_run R kh (dd_inner d) f =
      (Some (fst (decoder_accept R kh (dd_inner d) f)), dd_inner ?d1)"
    by (cases rule: accept_run_cases [of R kh "dd_inner d" f]) auto
  from accept_live [OF Cons.prems(1,2) run] obtain L1 where
    a: "dhow_decoder_accept R kh p (Some f) (length f) L =
      Returns (answer (fst (decoder_accept R kh (dd_inner d) f))) L1"
    "lib_heap L1 = (lib_heap L)(p \<mapsto> BoxDecoder ?d1)"
    by auto
  have static: "is_ok (fst (decoder_accept R kh (snd (decoder_accept R kh (dd_inner d) f)) g)) \<longleftrightarrow>
      is_ok (fst (decoder_accept R kh (dd_inner d) g))" for g
    by (simp add: rejected_not_admitted)
  have "lib_heap L1 p = Some (BoxDecoder ?d1)" using a(2) by simp
  moreover have "receive_run R kh (dd_inner ?d1) fs = Some d'" using Cons.prems(3) run by simp
  ultimately obtain L2 where
    "feed R kh p fs L1 = Returns (map (\<lambda>f. answer (fst (decoder_accept R kh (dd_inner ?d1) f))) fs) L2"
    "lib_heap L2 = (lib_heap L1)(p \<mapsto> BoxDecoder (?d1\<lparr>dd_inner := d'\<rparr>))"
    using Cons.IH [OF _ Cons.prems(2)] by blast
  with a show ?case by (auto simp: static)
qed

section \<open>The encoder and the decoder\<close>

text \<open>What a returned encoder handle stands for.\<close>

lemma encoder_new_result:
  assumes new: "dhow_encoder_new R kh h A ks (Some sid) (Some salt) (Some nonce) params (Some data)
      (length data) L = Returns e L'" and e: "e \<noteq> 0"
    and ks: "lib_heap L ks = Some (BoxKey k)" "ks \<noteq> 0"
    and l: "length sid = 16" "length salt = 32" "length nonce = 24"
  obtains keys ct p frames resolved where
    "transfer_keys_derive kh (ok_bytes (dk_inner k)) salt = Inr keys"
    "encrypt_payload A keys nonce sid data = Inr ct"
    "resolved = params\<lparr>dp_payload_size := of_nat (length ct), dp_payload_digest := blake3_digest h ct\<rparr>"
    "pipeline_new sid (to_session_params resolved) (tk_session_key keys) = Inr p"
    "encode_to_bytes R kh p ct = Inr frames"
    "lib_heap L' e = Some (BoxEncoder \<lparr>de_frames = frames, de_params = resolved\<rparr>)"
proof -
  have res: "(to_session_params params)\<lparr>sp_payload_size := n, sp_payload_digest := g\<rparr> =
      to_session_params (params\<lparr>dp_payload_size := n, dp_payload_digest := g\<rparr>)" for n g
    by (simp add: to_session_params_def)
  show ?thesis
    using new e ks l that unfolding dhow_encoder_new_def guard_ptr_def
    by (auto elim!: guard_with_cases simp: deref_live Let_def res into_raw_def split: sum.splits)
qed

lemma decoder_for_pipeline:
  "pipeline_new sid params key = Inr p \<Longrightarrow> \<exists>d. decoder_new R sid params key = Inr d"
  by (auto simp: pipeline_new_def decoder_new_def Let_def)

lemma length_payload_block: "b \<in> set (payload_blocks c payload) \<Longrightarrow> length b \<le> length payload"
  by (auto simp: payload_blocks_def Let_def slice_def)

lemma length_block_data:
  assumes ok: "session_ok R kh sid key params payload p d" and "i < unat (sp_block_count params)"
  shows "length (block_data params payload i) \<le> length payload"
proof -
  have len: "length payload = unat (cp_payload_size (chunk_params_of params))"
    using ok by (simp add: session_ok_def chunk_params_of_def)
  have "length (payload_blocks (chunk_params_of params) payload) = unat (sp_block_count params)"
    using payload_blocks_props(1) [OF _ len] session_maps(1) [OF ok] by (simp add: map_for_def chunk_params_of_def)
  with assms(2) show ?thesis
    unfolding block_data_def by (intro length_payload_block [of _ "chunk_params_of params"]) (simp add: nth_mem)
qed

lemma decoder_new_live:
  assumes "lib_heap L k = Some (BoxKey key)" and "k \<noteq> 0" and "length sid = 16" and "length salt = 32"
    and "transfer_keys_derive kh (ok_bytes (dk_inner key)) salt = Inr keys"
    and "decoder_new R sid (to_session_params params) (tk_session_key keys) = Inr d"
  shows "dhow_decoder_new R kh k (Some sid) (Some salt) params L = Returns (lib_next L)
    (L\<lparr>lib_last_error := text_message '''', lib_heap := (lib_heap L)(lib_next L \<mapsto> BoxDecoder \<lparr>dd_inner = d\<rparr>),
       lib_next := Suc (lib_next L)\<rparr>)"
  using assms unfolding dhow_decoder_new_def
  by (intro guards_return) (simp add: deref_live into_raw_def)

lemma finish_live:
  assumes "lib_heap L p = Some (BoxDecoder d)" and "p \<noteq> 0" and "lib_heap L k = Some (BoxKey key)"
    and "k \<noteq> 0" and "length sid = 16" and "length salt = 32" and "length nonce = 24"
    and "transfer_keys_derive kh (ok_bytes (dk_inner key)) salt = Inr keys"
    and "decoder_finish h (dd_inner d) = Inr ct"
    and "decrypt_payload_in_place A keys nonce sid ct = Inr data" and "length data \<le> length mem"
  shows "dhow_decoder_finish kh h A p k (Some sid) (Some salt) (Some nonce) (Some mem) (length mem) written L =
    Returns (StOk, Some (data @ drop (length data) mem), map_option (\<lambda>_. length data) written)
      (L\<lparr>lib_last_error := text_message ''''\<rparr>)"
  using assms finish_verified [OF assms(9)] unfolding dhow_decoder_finish_def
  by (intro guards_return) (simp add: deref_live write_out_fits)

lemma encoder_new_live:
  assumes "lib_heap L k = Some (BoxKey key)" "k \<noteq> 0" "length sid = 16" "length salt = 32" "length nonce = 24"
    and "transfer_keys_derive kh (ok_bytes (dk_inner key)) salt = Inr keys"
    and "encrypt_payload A keys nonce sid data = Inr ct"
    and "resolved = params\<lparr>dp_payload_size := of_nat (length ct), dp_payload_digest := blake3_digest h ct\<rparr>"
    and "pipeline_new sid (to_session_params resolved) (tk_session_key keys) = Inr p"
    and "encode_to_bytes R kh p ct = Inr frames"
  shows "dhow_encoder_new R kh h A k (Some sid) (Some salt) (Some nonce) params (Some data) (length data) L =
    Returns (lib_next L) (L\<lparr>lib_last_error := text_message '''',
      lib_heap := (lib_heap L)(lib_next L \<mapsto> BoxEncoder \<lparr>de_frames = frames, de_params = resolved\<rparr>),
      lib_next := Suc (lib_next L)\<rparr>)"
proof -
  have "(to_session_params params)\<lparr>sp_payload_size := of_nat (length ct), sp_payload_digest := blake3_digest h ct\<rparr> =
      to_session_params resolved"
    using assms(8) by (simp add: to_session_params_def)
  with assms show ?thesis unfolding dhow_encoder_new_def
    by (intro guards_return) (simp add: deref_live into_raw_def)
qed

section \<open>An instance\<close>

text \<open>One operator key behind handle 1 on both sides, hash functions with a constant value, the code
  without repair and the tagging cipher.\<close>

definition demo_library :: "(bytes, bytes, bytes option) library" where
  "demo_library = \<lparr>lib_heap = [1 \<mapsto> BoxKey \<lparr>dk_inner = \<lparr>ok_bytes = replicate 32 6\<rparr>\<rparr>], lib_next = 2,
     lib_last_error = text_message '''', lib_files = \<lambda>_. None\<rparr>"

definition demo_params :: DhowSessionParams where
  "demo_params = \<lparr>dp_payload_size = 0, dp_block_count = 1, dp_symbol_size = 64,
     dp_source_symbols_per_block = 1, dp_total_symbols_per_block = 4, dp_payload_digest = replicate 32 0\<rparr>"

abbreviation "demo_kh \<equiv> \<lambda>(k :: bytes) (m :: bytes). replicate 32 0 :: bytes"
abbreviation "demo_h \<equiv> \<lambda>(m :: bytes). replicate 32 0 :: bytes"

lemma demo_library_facts:
  "lib_heap demo_library 1 = Some (BoxKey \<lparr>dk_inner = \<lparr>ok_bytes = replicate 32 6\<rparr>\<rparr>)"
  "library_ok (\<lambda>_. True) demo_library" "lib_next demo_library = 2"
  by (simp_all add: demo_library_def library_ok_def)

definition demo_env :: "(unit, bytes, bytes, bytes option, bytes, bytes, unit) env" where
  "demo_env = \<lparr>ev_raptorq = whole_block_code, ev_keyed_hash = demo_kh, ev_hash = demo_h, ev_aead = tagging_cipher,
     ev_ed25519 = seed_only_ed25519, ev_os = permissive_os, ev_umask = 0, ev_checks = False,
     ev_display = \<lambda>_. [], ev_qr_at = \<lambda>_ _ _. None, ev_qr_any = \<lambda>_ _. None, ev_qr_size = \<lambda>_. 0,
     ev_qr_module = \<lambda>_ _ _. False\<rparr>"

lemma demo_library_reached: "ffi_reaches V (library_new (\<lambda>_. None)) demo_library"
proof -
  have "dhow_key_generate (Some (replicate 32 6)) (library_new (\<lambda>_. None)) = Returns 1 demo_library"
    by (simp add: dhow_key_generate_def operator_generate_def random_bytes_def guard_ptr_def guard_with_def
        catch_unwind_def into_raw_def library_new_def demo_library_def)
  from ffi_reaches.call [OF ffi_reaches.start call_key_generate [OF this]] show ?thesis .
qed

definition demo_ct :: bytes where
  "demo_ct = [5, 6] @ replicate 16 72"

definition demo_resolved :: DhowSessionParams where
  "demo_resolved = demo_params\<lparr>dp_payload_size := of_nat (length demo_ct), dp_payload_digest := blake3_digest demo_h demo_ct\<rparr>"

lemma demo_facts:
  "keyed_hash_32 demo_kh"
  "transfer_keys_derive demo_kh op salt = Inr \<lparr>tk_payload_key = replicate 32 0, tk_session_key = replicate 32 0\<rparr>"
  "encrypt_payload tagging_cipher \<lparr>tk_payload_key = replicate 32 0, tk_session_key = replicate 32 0\<rparr>
     (replicate 24 3) (replicate 16 7) [5, 6] = Inr demo_ct"
  "to_session_params demo_resolved = small_session demo_h demo_ct" "length demo_ct = 18"
proof -
  show kh: "keyed_hash_32 demo_kh" by (simp add: keyed_hash_32_def)
  show "transfer_keys_derive demo_kh op salt = Inr \<lparr>tk_payload_key = replicate 32 0, tk_session_key = replicate 32 0\<rparr>"
    unfolding transfer_keys_derive_def derive_key_eq [OF kh] by simp
qed (simp_all add: encrypt_payload_def cipher_key_ok_def tagging_cipher_def demo_ct_def demo_resolved_def
    demo_params_def to_session_params_def small_session_def blake3_digest_def Let_def)

lemma demo_session:
  obtains p d frames where
    "session_ok whole_block_code demo_kh (replicate 16 7) (replicate 32 0) (small_session demo_h demo_ct) demo_ct p d"
    "encode_to_bytes whole_block_code demo_kh p demo_ct = Inr frames"
    "dhow_encoder_new whole_block_code demo_kh demo_h tagging_cipher 1 (Some (replicate 16 7))
       (Some (replicate 32 2)) (Some (replicate 24 3)) demo_params (Some [5, 6]) (length [5, 6 :: u8]) demo_library =
     Returns 2 (demo_library\<lparr>lib_last_error := text_message [],
       lib_heap := (lib_heap demo_library)(2 \<mapsto> BoxEncoder \<lparr>de_frames = frames, de_params = demo_resolved\<rparr>),
       lib_next := 3\<rparr>)"
proof -
  obtain p d where ok: "session_ok whole_block_code demo_kh (replicate 16 7) (replicate 32 0)
      (small_session demo_h demo_ct) demo_ct p d"
    using small_session_ok [of "replicate 16 7" demo_ct demo_kh "replicate 32 0" demo_h] demo_facts(1,5) by auto
  obtain frames where enc: "encode_to_bytes whole_block_code demo_kh p demo_ct = Inr frames"
    using encode_session [OF ok] by blast
  have "pipeline_new (replicate 16 7) (to_session_params demo_resolved) (replicate 32 0) = Inr p"
    using ok by (simp add: session_ok_def demo_facts(4))
  from encoder_new_live [OF demo_library_facts(1) _ _ _ _ demo_facts(2,3) demo_resolved_def _ enc] this
  have "dhow_encoder_new whole_block_code demo_kh demo_h tagging_cipher 1 (Some (replicate 16 7))
       (Some (replicate 32 2)) (Some (replicate 24 3)) demo_params (Some [5, 6]) (length [5, 6 :: u8]) demo_library =
     Returns 2 (demo_library\<lparr>lib_last_error := text_message [],
       lib_heap := (lib_heap demo_library)(2 \<mapsto> BoxEncoder \<lparr>de_frames = frames, de_params = demo_resolved\<rparr>),
       lib_next := 3\<rparr>)"
    by (simp add: demo_library_facts(3))
  with ok enc that show ?thesis by blast
qed

lemma demo_recovers:
  "block \<noteq> [] \<Longrightarrow> length block \<le> unat (dp_payload_size demo_resolved) \<Longrightarrow>
   raptorq_recovers whole_block_code (to_session_params demo_resolved) block"
  by (rule whole_block_code_recovers)
    (simp_all add: demo_resolved_def demo_params_def to_session_params_def demo_facts(5))

section \<open>Properties\<close>

text \<open>C3: a transfer through the C interface delivers the data. For every encoder handle the sender gets,
  the receiver holding the same operator key gets a decoder handle for the parameters the encoder
  reports. It can be fed any sequence of the sender's frames and of byte strings the decoder rejects:
  each of the former is answered \<open>Ok\<close> and each of the latter \<open>FrameRejected\<close>, and no call panics; and once all
  frames, or just all source packets, are among them, \<open>dhow_decoder_finish\<close> writes exactly the
  sender's data, and nothing behind it, into a buffer that is large enough. Among the byte strings that
  are rejected is everything that does not authenticate, frames of other sessions, and authentic frames
  of this one whose payload is too short for RaptorQ to read. Of RaptorQ this uses that it recovers a
  block from its source packets and does not panic on the packets it made.\<close>

theorem ffi_transfer_delivers:
  assumes "aead_correct A" and "keyed_hash_32 kh"
    and "lib_heap Ls ks = Some (BoxKey k)" "ks \<noteq> 0" and "lib_heap Lr kr = Some (BoxKey k)" "kr \<noteq> 0"
    and "library_ok B Lr" and "length sid = 16" "length salt = 32" "length nonce = 24"
    and "dhow_encoder_new R kh h A ks (Some sid) (Some salt) (Some nonce) params (Some data)
           (length data) Ls = Returns e Ls'" "e \<noteq> 0"
    and "lib_heap Ls' e = Some (BoxEncoder en)"
    and "\<forall>block. block \<noteq> [] \<and> length block \<le> unat (dp_payload_size (de_params en)) \<longrightarrow>
           raptorq_recovers R (to_session_params (de_params en)) block \<and>
           raptorq_takes R (to_session_params (de_params en)) block"
  shows "\<exists>keys ct d Lr' dd. transfer_keys_derive kh (ok_bytes (dk_inner k)) salt = Inr keys \<and>
     encrypt_payload A keys nonce sid data = Inr ct \<and>
     dhow_decoder_new R kh kr (Some sid) (Some salt) (de_params en) Lr = Returns d Lr' \<and>
     lib_heap Lr' d = Some (BoxDecoder dd) \<and>
     (\<forall>f. (\<forall>frame. frame_from_bytes kh f (tk_session_key keys) = Inr frame \<longrightarrow>
          fh_session_id (fr_header frame) \<noteq> sid \<or> length (fr_payload frame) \<le> 4) \<longrightarrow>
        session_stream R kh (dd_inner dd) (de_frames en) [f]) \<and>
     (\<forall>fs. session_stream R kh (dd_inner dd) (de_frames en) fs \<longrightarrow>
        (\<exists>Lr''. feed R kh d fs Lr' =
           Returns (map (\<lambda>f. if f \<in> set (de_frames en) then StOk else StFrameRejected) fs) Lr'' \<and>
         (set (de_frames en) \<subseteq> set fs \<or>
          sources_received R kh (to_session_params (de_params en)) ct (dd_inner dd) fs \<longrightarrow>
           (\<forall>mem written. length data \<le> length mem \<longrightarrow>
              dhow_decoder_finish kh h A d kr (Some sid) (Some salt) (Some nonce) (Some mem) (length mem)
                written Lr'' =
              Returns (StOk, Some (data @ drop (length data) mem), map_option (\<lambda>_. length data) written)
                (Lr''\<lparr>lib_last_error := text_message ''''\<rparr>)))))"
proof -
  obtain keys ct p frames resolved where
    keys: "transfer_keys_derive kh (ok_bytes (dk_inner k)) salt = Inr keys"
    and ct: "encrypt_payload A keys nonce sid data = Inr ct"
    and res: "resolved = params\<lparr>dp_payload_size := of_nat (length ct), dp_payload_digest := blake3_digest h ct\<rparr>"
    and p: "pipeline_new sid (to_session_params resolved) (tk_session_key keys) = Inr p"
    and enc: "encode_to_bytes R kh p ct = Inr frames"
    and box: "lib_heap Ls' e = Some (BoxEncoder \<lparr>de_frames = frames, de_params = resolved\<rparr>)"
    by (rule encoder_new_result [OF assms(11,12,3,4,8-10)])
  then have en: "en = \<lparr>de_frames = frames, de_params = resolved\<rparr>" using assms(13) by simp
  obtain d where d: "decoder_new R sid (to_session_params resolved) (tk_session_key keys) = Inr d"
    using decoder_for_pipeline [OF p] by blast
  have "pl_params p = to_session_params resolved" using p by (auto simp: pipeline_new_def)
  then have len: "length ct = unat (dp_payload_size resolved)"
    using enc by (auto simp: encode_to_bytes_def pipeline_encode_def split: if_splits)
  have rec: "raptorq_recovers R (to_session_params resolved) block" "raptorq_takes R (to_session_params resolved) block"
    if "block \<noteq> []" "length block \<le> length ct" for block
    using assms(14) that len by (simp_all add: en)
  have ok: "session_ok R kh sid (tk_session_key keys) (to_session_params resolved) ct p d"
    unfolding session_ok_def
  proof (intro conjI ballI impI)
    fix block assume "block \<in> set (payload_blocks (chunk_params_of (to_session_params resolved)) ct)" "block \<noteq> []"
    then show "raptorq_recovers R (to_session_params resolved) block"
      using rec(1) length_payload_block by simp
  qed (use assms(2,8) p d len in \<open>simp_all add: to_session_params_fields\<close>)
  note ctl = decrypt_encrypt [OF assms(1) ct]
  let ?d = "lib_next Lr" and ?Lr = "Lr\<lparr>lib_last_error := text_message '''',
      lib_heap := (lib_heap Lr)(lib_next Lr \<mapsto> BoxDecoder \<lparr>dd_inner = d\<rparr>), lib_next := Suc (lib_next Lr)\<rparr>"
  have new: "dhow_decoder_new R kh kr (Some sid) (Some salt) (de_params en) Lr = Returns ?d ?Lr"
    using decoder_new_live [OF assms(5,6,8,9) keys d] by (simp add: en)
  have fresh: "?d \<noteq> 0" "?d \<noteq> kr" using assms(5,7) by (auto simp: library_ok_def)
  have live: "lib_heap ?Lr ?d = Some (BoxDecoder \<lparr>dd_inner = d\<rparr>)" by simp
  have fin: "dhow_decoder_finish kh h A ?d kr (Some sid) (Some salt) (Some nonce) (Some mem) (length mem) written L =
      Returns (StOk, Some (data @ drop (length data) mem), map_option (\<lambda>_. length data) written)
        (L\<lparr>lib_last_error := text_message ''''\<rparr>)"
    if L: "lib_heap L = (lib_heap ?Lr)(?d \<mapsto> BoxDecoder \<lparr>dd_inner = receive R kh d fs\<rparr>)"
      and st: "session_stream R kh d frames fs"
      and src: "sources_received R kh (to_session_params resolved) ct d fs"
      and mem: "length data \<le> length mem" for fs L mem written
  proof -
    have f: "decoder_finish h (receive R kh d fs) = Inr ct"
      using delivered [OF ok _ enc st src] by (simp add: res)
    have dec: "decrypt_payload_in_place A keys nonce sid ct = Inr data"
      using ctl(2) decrypt_in_place_eq [OF assms(1)] by simp
    have Ld: "lib_heap L ?d = Some (BoxDecoder \<lparr>dd_inner = receive R kh d fs\<rparr>)" using L by simp
    have Lk: "lib_heap L kr = Some (BoxKey k)" using L fresh assms(5) by simp
    show ?thesis by (rule finish_live [OF Ld fresh(1) Lk assms(6,8-10) keys _ dec mem]) (simp add: f)
  qed
  have takes: "raptorq_takes R (to_session_params resolved) (block_data (to_session_params resolved) ct i)"
    if "i < unat (sp_block_count (to_session_params resolved))" "block_data (to_session_params resolved) ct i \<noteq> []" for i
    using rec(2) [OF that(2)] length_block_data [OF ok that(1)] by simp
  have fed: "\<exists>Lr''. feed R kh ?d fs ?Lr =
        Returns (map (\<lambda>f. if f \<in> set frames then StOk else StFrameRejected) fs) Lr'' \<and>
      lib_heap Lr'' = (lib_heap ?Lr)(?d \<mapsto> BoxDecoder \<lparr>dd_inner = receive R kh d fs\<rparr>)"
    if st: "session_stream R kh d frames fs" for fs
  proof -
    have ans: "map (\<lambda>f. answer (fst (decoder_accept R kh d f))) fs =
        map (\<lambda>f. if f \<in> set frames then StOk else StFrameRejected) fs"
      using st emitted_accepted [OF ok enc] by (auto simp: session_stream_def)
    have "receive_run R kh d fs = Some (receive R kh d fs)"
      by (rule stream_quiet [OF ok enc takes st])
    with feed_live [OF live fresh(1), of R kh fs] show ?thesis unfolding ans [symmetric] by simp
  qed
  have foreign: "session_stream R kh d frames [f]"
    if "\<forall>frame. frame_from_bytes kh f (tk_session_key keys) = Inr frame \<longrightarrow>
      fh_session_id (fr_header frame) \<noteq> sid \<or> length (fr_payload frame) \<le> 4" for f
    using that decoder_new_fields(1,3) [OF d]
    by (cases "frame_from_bytes kh f (tk_session_key keys)")
      (auto simp: session_stream_def decoder_accept_def PAYLOAD_ID_LEN_def Let_def)
  have streams: "\<exists>Lr''. feed R kh ?d fs ?Lr =
        Returns (map (\<lambda>f. if f \<in> set frames then StOk else StFrameRejected) fs) Lr'' \<and>
        (set frames \<subseteq> set fs \<or> sources_received R kh (to_session_params resolved) ct d fs \<longrightarrow>
           (\<forall>mem written. length data \<le> length mem \<longrightarrow>
              dhow_decoder_finish kh h A ?d kr (Some sid) (Some salt) (Some nonce) (Some mem) (length mem)
                written Lr'' =
              Returns (StOk, Some (data @ drop (length data) mem), map_option (\<lambda>_. length data) written)
                (Lr''\<lparr>lib_last_error := text_message ''''\<rparr>)))"
    if st: "session_stream R kh d frames fs" for fs
    using fed [OF st] fin [OF _ st] all_frames_suffice [OF ok enc, of fs] by blast
  show ?thesis
    by (rule exI [of _ keys], rule exI [of _ ct], rule exI [of _ ?d], rule exI [of _ ?Lr],
        rule exI [of _ "\<lparr>dd_inner = d\<rparr>"], intro conjI allI impI)
      (use keys ct new foreign streams in \<open>simp_all add: en\<close>)
qed

theorem ffi_transfer_delivers_witness:
  "\<exists>L en Lr sts Lr'. dhow_encoder_new whole_block_code demo_kh demo_h tagging_cipher 1 (Some (replicate 16 7))
       (Some (replicate 32 2)) (Some (replicate 24 3)) demo_params (Some [5, 6]) (length [5, 6 :: u8]) demo_library = Returns 2 L \<and>
     lib_heap L 2 = Some (BoxEncoder en) \<and>
     dhow_decoder_new whole_block_code demo_kh 1 (Some (replicate 16 7)) (Some (replicate 32 2)) (de_params en)
       demo_library = Returns 2 Lr \<and>
     feed whole_block_code demo_kh 2 (rev (de_frames en)) Lr = Returns sts Lr' \<and>
     dhow_decoder_finish demo_kh demo_h tagging_cipher 2 1 (Some (replicate 16 7)) (Some (replicate 32 2))
       (Some (replicate 24 3)) (Some [0, 0, 9, 9]) (length [0, 0, 9, 9 :: u8]) (Some 0) Lr' =
     Returns (StOk, Some ([5, 6] @ [9, 9]), Some (length [5, 6 :: u8])) (Lr'\<lparr>lib_last_error := text_message []\<rparr>)"
proof -
  obtain p d frames where
    ok: "session_ok whole_block_code demo_kh (replicate 16 7) (replicate 32 0) (small_session demo_h demo_ct) demo_ct p d"
    and enc: "dhow_encoder_new whole_block_code demo_kh demo_h tagging_cipher 1 (Some (replicate 16 7))
       (Some (replicate 32 2)) (Some (replicate 24 3)) demo_params (Some [5, 6]) (length [5, 6 :: u8]) demo_library =
     Returns 2 (demo_library\<lparr>lib_last_error := text_message [],
       lib_heap := (lib_heap demo_library)(2 \<mapsto> BoxEncoder \<lparr>de_frames = frames, de_params = demo_resolved\<rparr>),
       lib_next := 3\<rparr>)" (is "_ = Returns 2 ?L")
    by (rule demo_session)
  let ?en = "\<lparr>de_frames = frames, de_params = demo_resolved\<rparr>"
  have en: "lib_heap ?L 2 = Some (BoxEncoder ?en)" by simp
  have "decoder_new whole_block_code (replicate 16 7) (to_session_params demo_resolved) (replicate 32 0) = Inr d"
    using ok by (simp add: session_ok_def demo_facts(4))
  with decoder_new_live [OF demo_library_facts(1) _ _ _ demo_facts(2), of "replicate 16 7" "replicate 32 2"
      whole_block_code demo_resolved d]
  obtain Lr where new: "dhow_decoder_new whole_block_code demo_kh 1 (Some (replicate 16 7)) (Some (replicate 32 2))
      demo_resolved demo_library = Returns 2 Lr"
    by (simp add: demo_library_facts(3))
  have len: "length (replicate 16 7 :: bytes) = 16" "length (replicate 32 2 :: bytes) = 32"
    "length (replicate 24 3 :: bytes) = 24" "(1 :: addr) \<noteq> 0" "(2 :: addr) \<noteq> 0"
    by simp_all
  have rec: "\<forall>block. block \<noteq> [] \<and> length block \<le> unat (dp_payload_size (de_params ?en)) \<longrightarrow>
      raptorq_recovers whole_block_code (to_session_params (de_params ?en)) block \<and>
      raptorq_takes whole_block_code (to_session_params (de_params ?en)) block"
    using demo_recovers whole_block_code_takes by simp
  from ffi_transfer_delivers [OF tagging_cipher_correct demo_facts(1) demo_library_facts(1) len(4)
      demo_library_facts(1) len(4) demo_library_facts(2) len(1-3) enc len(5) en rec]
  obtain ct d0 Lr0 and dd :: "bytes option DhowDecoder" where n0: "dhow_decoder_new whole_block_code demo_kh 1 (Some (replicate 16 7))
        (Some (replicate 32 2)) (de_params ?en) demo_library = Returns d0 Lr0"
    and fin: "\<forall>fs. session_stream whole_block_code demo_kh (dd_inner dd) (de_frames ?en) fs \<longrightarrow>
      (\<exists>Lr''. feed whole_block_code demo_kh d0 fs Lr0 =
         Returns (map (\<lambda>f. if f \<in> set (de_frames ?en) then StOk else StFrameRejected) fs) Lr'' \<and>
      (set (de_frames ?en) \<subseteq> set fs \<or>
         sources_received whole_block_code demo_kh (to_session_params (de_params ?en)) ct (dd_inner dd) fs \<longrightarrow>
       (\<forall>mem written. length [5, 6 :: u8] \<le> length mem \<longrightarrow> dhow_decoder_finish demo_kh demo_h tagging_cipher d0 1
          (Some (replicate 16 7)) (Some (replicate 32 2)) (Some (replicate 24 3)) (Some mem) (length mem) written Lr'' =
          Returns (StOk, Some ([5, 6] @ drop (length [5, 6 :: u8]) mem), map_option (\<lambda>_. length [5, 6 :: u8]) written)
            (Lr''\<lparr>lib_last_error := text_message []\<rparr>))))"
    by (elim exE conjE) (rule that)
  from n0 new have d0: "d0 = 2" "Lr0 = Lr" by simp_all
  from fin [unfolded d0, rule_format, of "rev frames"] obtain sts Lr' where
    "feed whole_block_code demo_kh 2 (rev frames) Lr = Returns sts Lr'"
    "\<forall>mem written. length [5, 6 :: u8] \<le> length mem \<longrightarrow> dhow_decoder_finish demo_kh demo_h tagging_cipher 2 1
          (Some (replicate 16 7)) (Some (replicate 32 2)) (Some (replicate 24 3)) (Some mem) (length mem) written Lr' =
          Returns (StOk, Some ([5, 6] @ drop (length [5, 6 :: u8]) mem), map_option (\<lambda>_. length [5, 6 :: u8]) written)
            (Lr'\<lparr>lib_last_error := text_message []\<rparr>)"
    by (auto simp: session_stream_def)
  note r = this(1) this(2) [rule_format, of "[0, 0, 9, 9]" "Some 0"]
  have "dhow_decoder_new whole_block_code demo_kh 1 (Some (replicate 16 7)) (Some (replicate 32 2)) (de_params ?en)
      demo_library = Returns 2 Lr" using new by simp
  moreover have "feed whole_block_code demo_kh 2 (rev (de_frames ?en)) Lr = Returns sts Lr'" using r(1) by simp
  moreover have "dhow_decoder_finish demo_kh demo_h tagging_cipher 2 1 (Some (replicate 16 7)) (Some (replicate 32 2))
       (Some (replicate 24 3)) (Some [0, 0, 9, 9]) (length [0, 0, 9, 9 :: u8]) (Some 0) Lr' =
     Returns (StOk, Some ([5, 6] @ [9, 9]), Some (length [5, 6 :: u8])) (Lr'\<lparr>lib_last_error := text_message []\<rparr>)"
    using r(2) by simp
  ultimately show ?thesis using enc en by blast
qed

text \<open>C5: \<open>dhow_decoder_finish\<close> says \<open>Ok\<close>, or touches the caller's buffer or length, only after every
  check has passed: all blocks are decoded, the reassembled ciphertext has the digest of the session,
  and its tag verified under the keys derived from the given operator key and salt, for the given nonce
  and session. It then reports the length of the whole plaintext and writes all of it, in front of what
  the buffer held behind it, or nothing when the announced length is too small.\<close>

theorem finish_output_verified:
  assumes "dhow_decoder_finish kh h A p k sid salt nonce buf len written L = Returns (st, buf', written') L'"
    and "st = StOk \<or> (buf', written') \<noteq> (buf, written)"
  shows "\<exists>d key s sa n keys ct plaintext. sid = Some s \<and> salt = Some sa \<and> nonce = Some n \<and>
     lib_heap L p = Some (BoxDecoder d) \<and> lib_heap L k = Some (BoxKey key) \<and> is_complete (dd_inner d) \<and>
     decoder_finish h (dd_inner d) = Inr ct \<and> blake3_digest h ct = sp_payload_digest (pd_params (dd_inner d)) \<and>
     transfer_keys_derive kh (ok_bytes (dk_inner key)) (take 32 sa) = Inr keys \<and>
     decrypt_payload_in_place A keys (take 24 n) (take 16 s) ct = Inr plaintext \<and>
     written' = map_option (\<lambda>_. length plaintext) written \<and>
     (case buf of None \<Rightarrow> st = StOk \<and> buf' = None
      | Some mem \<Rightarrow> if len < length plaintext then st = StBufferTooSmall \<and> buf' = buf
          else st = StOk \<and> buf' = Some (plaintext @ drop (length plaintext) mem))"
proof -
  let ?Q = "\<lambda>(st, buf', written'). st = StOk \<or> (buf', written') \<noteq> (buf, written) \<longrightarrow>
    (\<exists>d key s sa n keys ct plaintext. sid = Some s \<and> salt = Some sa \<and> nonce = Some n \<and>
     lib_heap L p = Some (BoxDecoder d) \<and> lib_heap L k = Some (BoxKey key) \<and>
     decoder_finish h (dd_inner d) = Inr ct \<and>
     transfer_keys_derive kh (ok_bytes (dk_inner key)) (take 32 sa) = Inr keys \<and>
     decrypt_payload_in_place A keys (take 24 n) (take 16 s) ct = Inr plaintext \<and>
     written' = map_option (\<lambda>_. length plaintext) written \<and>
     (case buf of None \<Rightarrow> st = StOk \<and> buf' = None
      | Some mem \<Rightarrow> if len < length plaintext then st = StBufferTooSmall \<and> buf' = buf
          else st = StOk \<and> buf' = Some (plaintext @ drop (length plaintext) mem)))"
  have "valid (\<lambda>L'. lib_heap L' = lib_heap L)
      (dhow_decoder_finish kh h A p k sid salt nonce buf len written) ?Q"
    unfolding dhow_decoder_finish_def guard_out_def by (rule heap_triples | force)+
  from validD(1) [OF this refl assms(1)] assms(2) show ?thesis
    using finish_verified [of h] by clarsimp (auto split: option.splits)
qed

theorem finish_output_verified_witness:
  "\<exists>L L' d ct. dhow_decoder_finish demo_kh demo_h tagging_cipher 2 1 (Some (replicate 16 7)) (Some (replicate 32 2))
       (Some (replicate 24 3)) (Some [0, 0, 9]) (length [0, 0, 9 :: u8]) None L =
     Returns (StOk, Some ([5, 6] @ [9]), None) (L' :: (bytes, bytes, bytes option) library) \<and>
     lib_heap L 2 = Some (BoxDecoder d) \<and> is_complete (dd_inner d) \<and> decoder_finish demo_h (dd_inner d) = Inr ct \<and>
     blake3_digest demo_h ct = sp_payload_digest (pd_params (dd_inner d))"
proof -
  obtain p d frames where
    ok: "session_ok whole_block_code demo_kh (replicate 16 7) (replicate 32 0) (small_session demo_h demo_ct) demo_ct p d"
    and enc: "encode_to_bytes whole_block_code demo_kh p demo_ct = Inr frames"
    by (rule demo_session)
  let ?d = "\<lparr>dd_inner = receive whole_block_code demo_kh d frames\<rparr> :: bytes option DhowDecoder"
  let ?L = "demo_library\<lparr>lib_heap := (lib_heap demo_library)(2 \<mapsto> BoxDecoder ?d)\<rparr>"
  have "decoder_finish demo_h (receive whole_block_code demo_kh d frames) = Inr demo_ct"
    by (rule delivered [OF ok _ enc _ all_frames_suffice [OF ok enc order_refl]])
      (simp_all add: small_session_def blake3_digest_def session_stream_def)
  then have f: "decoder_finish demo_h (dd_inner ?d) = Inr demo_ct" by simp
  have dec: "decrypt_payload_in_place tagging_cipher \<lparr>tk_payload_key = replicate 32 0, tk_session_key = replicate 32 0\<rparr>
      (replicate 24 3) (replicate 16 7) demo_ct = Inr [5, 6]"
    using decrypt_encrypt(2) [OF tagging_cipher_correct demo_facts(3)]
      decrypt_in_place_eq [OF tagging_cipher_correct] by simp
  have L: "lib_heap ?L 2 = Some (BoxDecoder ?d)"
    "lib_heap ?L 1 = Some (BoxKey \<lparr>dk_inner = \<lparr>ok_bytes = replicate 32 6\<rparr>\<rparr>)"
    using demo_library_facts(1) by simp_all
  have r: "dhow_decoder_finish demo_kh demo_h tagging_cipher 2 1 (Some (replicate 16 7)) (Some (replicate 32 2))
       (Some (replicate 24 3)) (Some [0, 0, 9]) (length [0, 0, 9 :: u8]) None ?L =
     Returns (StOk, Some ([5, 6] @ [9]), None) (?L\<lparr>lib_last_error := text_message []\<rparr>)"
    using finish_live [OF L(1) _ L(2) _ _ _ _ demo_facts(2) f dec, of "replicate 32 2" "[0, 0, 9]" None] by simp
  from finish_output_verified [OF r] L(1) f
  have "is_complete (dd_inner ?d) \<and> blake3_digest demo_h demo_ct = sp_payload_digest (pd_params (dd_inner ?d))"
    by auto
  with r L(1) f show ?thesis by blast
qed

text \<open>Reading a frame follows the two-call convention on every branch. With a null buffer the call
  reports the exact length of the frame; a buffer of that length then receives exactly the frame;
  with a shorter length the call reports the length again and leaves the buffer as it was; an index past
  the end is refused without touching either; and no such call changes a handle.\<close>

theorem frame_two_calls:
  assumes "lib_heap L e = Some (BoxEncoder en)" and "e \<noteq> 0"
  defines "ok \<equiv> L\<lparr>lib_last_error := text_message ''''\<rparr>"
  shows "(\<forall>i < length (de_frames en). let f = de_frames en ! i in
       dhow_encoder_frame e i None len (Some w) L = Returns (StOk, None, Some (length f)) ok \<and>
       (length mem = length f \<longrightarrow>
          dhow_encoder_frame e i (Some mem) (length mem) (Some w) L = Returns (StOk, Some f, Some (length mem)) ok) \<and>
       (len < length f \<longrightarrow> (\<exists>L'. dhow_encoder_frame e i (Some mem) len (Some w) L =
          Returns (StBufferTooSmall, Some mem, Some (length f)) L' \<and> lib_heap L' = lib_heap L))) \<and>
     (\<forall>i \<ge> length (de_frames en). \<exists>L'. dhow_encoder_frame e i buf len written L =
        Returns (StInvalidArgument, buf, written) L' \<and> lib_heap L' = lib_heap L)"
  unfolding dhow_encoder_frame_def guard_out_def guard_with_def catch_unwind_def
  using assms(1,2) by (auto simp: ok_def deref_live write_out_def copy_to_def Let_def)

section \<open>Resuming\<close>

lemma resume_state_live:
  assumes "lib_heap L p = Some (BoxDecoder d)" "p \<noteq> 0" and "length mem = length bs"
  shows "dhow_decoder_resume_state h p jb (Some mem) (length mem) (Some w) L =
      Returns (StOk, Some bs, Some (length bs)) (L\<lparr>lib_last_error := text_message []\<rparr>) \<longleftrightarrow>
    resume_file_to_vec (resume_state h (dd_inner d) jb) = bs"
  unfolding dhow_decoder_resume_state_def guard_out_def guard_with_def catch_unwind_def
  using assms by (auto simp: deref_live write_out_def copy_to_def Let_def)

lemma resume_bytes_verify:
  assumes "hash_32 h" and "length (pd_session_id d) = 16" and "decoder_wf d"
    and "resume_file_from_bytes h bs = Inr f"
  shows "(\<exists>jb. resume_file_to_vec (resume_state h d jb) = bs) \<longleftrightarrow> verify_resume h d f = Some (Inr ())"
proof -
  have f: "resume_file_wf h f" "bs = resume_file_to_vec f" using assms(4) by (simp_all add: resume_parse_iff)
  have "f = resume_state h d (rh_journal_bytes (rf_header f))" if "resume_file_to_vec (resume_state h d jb) = bs" for jb
  proof -
    have "f = resume_state h d jb"
      using that assms(4) resume_state_wf [OF assms(1-3)] resume_parse_iff [of h bs "resume_state h d jb"] by simp
    moreover have "rh_journal_bytes (rf_header (resume_state h d jb)) = jb"
      by (simp add: resume_state_def resume_file_new_def resume_file_build_def resume_header_new_def Let_def)
    ultimately show ?thesis by simp
  qed
  then show ?thesis
    unfolding verify_resume_iff [OF assms(1-3) f(1)] using f(2) by metis
qed

text \<open>C40: whatever calls led to a library, \<open>dhow_decoder_resume_verify\<close> on a live decoder answers \<open>Ok\<close>
  or \<open>ResumeRejected\<close> for every byte string (shorter than \<open>2 ^ 29 + 140\<close> bytes if the build checks
  overflow), never a caught panic, and changes no handle; and it answers \<open>Ok\<close> exactly for the byte strings \<open>dhow_decoder_resume_state\<close> writes for that decoder and some
  journal length.\<close>

theorem resume_verify_exact:
  assumes "hash_32 (ev_hash V)" and "ffi_reaches V (library_new F) L"
    and "lib_heap L p = Some (BoxDecoder d)" and "\<not> ev_checks V \<or> length bs < 2 ^ 29 + 140"
  shows "\<exists>st L'. dhow_decoder_resume_verify (ev_checks V) (ev_hash V) p (Some bs) (length bs) L = Returns st L' \<and>
     st \<in> {StOk, StResumeRejected} \<and> lib_heap L' = lib_heap L \<and>
     (st = StOk \<longleftrightarrow> (\<exists>jb. \<forall>mem w. length mem = length bs \<longrightarrow>
        dhow_decoder_resume_state (ev_hash V) p jb (Some mem) (length mem) (Some w) L =
          Returns (StOk, Some bs, Some (length bs)) (L\<lparr>lib_last_error := text_message []\<rparr>)))"
proof -
  let ?h = "ev_hash V" and ?d = "dd_inner d"
  have L: "library_ok (box_ok (ev_ed25519 V)) L"
    by (rule handles.reaches_keeps [OF assms(2)]) (simp add: library_ok_def library_new_def)
  then have "box_ok (ev_ed25519 V) (BoxDecoder d)" using assms(3) unfolding library_ok_def by blast
  then have wf: "decoder_wf ?d" "length (pd_session_id ?d) = 16" by simp_all
  have p: "p \<noteq> 0" using L assms(3) unfolding library_ok_def by (metis option.distinct(1))
  have live: "dhow_decoder_resume_verify (ev_checks V) ?h p (Some bs) (length bs) L =
      guard (\<lambda>L. (case resume_file_from_bytes ?h bs of Inl e \<Rightarrow> fail StResumeRejected (MsgResume e)
        | Inr file \<Rightarrow> (case verify_resume ?h ?d file of None \<Rightarrow> panic
            | Some (Inr _) \<Rightarrow> ret StOk | Some (Inl e) \<Rightarrow> fail StResumeRejected (MsgCodec e)))
        (L\<lparr>lib_last_error := text_message []\<rparr>)) L"
    using assms(3) p
    by (simp add: dhow_decoder_resume_verify_def guard_def guard_with_def catch_unwind_def deref_live
        resume_run_total [OF assms(4)] split: sum.split)
  have state: "(\<exists>jb. \<forall>mem w. length mem = length bs \<longrightarrow>
      dhow_decoder_resume_state ?h p jb (Some mem) (length mem) (Some w) L =
        Returns (StOk, Some bs, Some (length bs)) (L\<lparr>lib_last_error := text_message []\<rparr>)) \<longleftrightarrow>
      (\<exists>jb. resume_file_to_vec (resume_state ?h ?d jb) = bs)"
    using resume_state_live [OF assms(3) p, of _ bs ?h] by (metis length_replicate)
  have parses: "resume_file_from_bytes ?h (resume_file_to_vec (resume_state ?h ?d jb)) = Inr (resume_state ?h ?d jb)" for jb
    using resume_state_wf [OF assms(1) wf(2,1)] by (simp add: resume_parse_iff)
  show ?thesis
  proof (cases "resume_file_from_bytes ?h bs")
    case (Inl e)
    then show ?thesis unfolding live state using parses
      by (auto simp: guard_def guard_with_def catch_unwind_def)
  next
    case (Inr f)
    then have f: "resume_file_wf ?h f" "bs = resume_file_to_vec f" by (simp_all add: resume_parse_iff)
    note ex = resume_bytes_verify [OF assms(1) wf(2,1) Inr]
    obtain r where r: "verify_resume ?h ?d f = Some r"
      using verify_resume_no_panic [OF f(1) wf(1)] by blast
    show ?thesis unfolding live state ex Inr
      by (cases r) (auto simp: r guard_def guard_with_def catch_unwind_def)
  qed
qed

theorem resume_verify_exact_witness:
  "\<exists>L L' bs. ffi_reaches demo_env (library_new (\<lambda>_. None)) L \<and>
     dhow_decoder_resume_verify False demo_h 2 (Some bs) (length bs) L = Returns StOk L'"
proof -
  obtain d where "decoder_new whole_block_code (replicate 16 7) (to_session_params demo_resolved) (replicate 32 0) = Inr d"
    using small_session_decoder [of demo_ct whole_block_code "replicate 16 7" demo_h "replicate 32 0"]
    by (auto simp: demo_facts(4,5))
  with decoder_new_live [OF demo_library_facts(1) _ _ _ demo_facts(2), of "replicate 16 7" "replicate 32 2"
      whole_block_code demo_resolved d]
  obtain L where L: "dhow_decoder_new whole_block_code demo_kh 1 (Some (replicate 16 7)) (Some (replicate 32 2))
      demo_resolved demo_library = Returns 2 L" "lib_heap L 2 = Some (BoxDecoder \<lparr>dd_inner = d\<rparr>)"
    by (simp add: demo_library_facts(3))
  then have "ffi_call demo_env demo_library L"
    by (intro call_decoder_new) (simp add: demo_env_def)
  then have r: "ffi_reaches demo_env (library_new (\<lambda>_. None)) L"
    by (rule ffi_reaches.call [OF demo_library_reached])
  let ?bs = "resume_file_to_vec (resume_state demo_h d 0)"
  have h: "hash_32 (ev_hash demo_env)" "ev_hash demo_env = demo_h" "ev_checks demo_env = False" by (simp_all add: demo_env_def hash_32_def)
  have "dhow_decoder_resume_state demo_h 2 0 (Some mem) (length mem) (Some w) L =
      Returns (StOk, Some ?bs, Some (length ?bs)) (L\<lparr>lib_last_error := text_message []\<rparr>)"
    if "length mem = length ?bs" for mem w
    using resume_state_live [OF L(2) _ that, of demo_h 0 w] by simp
  with resume_verify_exact [OF h(1) r L(2), of ?bs] h(3) obtain L' where
    "dhow_decoder_resume_verify False demo_h 2 (Some ?bs) (length ?bs) L = Returns StOk L'"
    unfolding h(2,3) by blast
  with r show ?thesis by blast
qed

end
