(* ===== verification/Reference_Driver.thy ===== *)
theory Reference_Driver
  imports Ffi_Contract
begin

text \<open>
  The reference driver \<open>core/dhow-ffi/examples/reference.rs\<close>, which runs a transfer through the Rust
  library without the C interface, and its agreement with the same transfer made of calls of the
  interface.

  A line of input is its UTF-8 bytes. A job ends with a result, with an error, or in a panic
  (\<^const>\<open>None\<close>), which slicing a text inside a character causes. The text of an error is the
  parameter \<open>display\<close>.
\<close>

section \<open>Text\<close>

text \<open>The length of the white-space character a text starts with, or 0: the Unicode property
  \<open>White_Space\<close> that \<open>str::trim\<close> and \<open>str::split_whitespace\<close> use.\<close>

fun white_space :: "bytes \<Rightarrow> nat" where
  "white_space (a # b # c # _) =
     (if 9 \<le> a \<and> a \<le> 13 \<or> a = 32 then 1
      else if a = 0xC2 \<and> (b = 0x85 \<or> b = 0xA0) then 2
      else if a = 0xE1 \<and> b = 0x9A \<and> c = 0x80 then 3
      else if a = 0xE2 \<and> b = 0x80 \<and> (0x80 \<le> c \<and> c \<le> 0x8A \<or> c = 0xA8 \<or> c = 0xA9 \<or> c = 0xAF) then 3
      else if a = 0xE2 \<and> b = 0x81 \<and> c = 0x9F then 3
      else if a = 0xE3 \<and> b = 0x80 \<and> c = 0x80 then 3
      else 0)"
| "white_space [a, b] =
     (if 9 \<le> a \<and> a \<le> 13 \<or> a = 32 then 1
      else if a = 0xC2 \<and> (b = 0x85 \<or> b = 0xA0) then 2 else 0)"
| "white_space [a] = (if 9 \<le> a \<and> a \<le> 13 \<or> a = 32 then 1 else 0)"
| "white_space [] = 0"

text \<open>\<open>word\<close> is the part of the current field already read.\<close>

function split_whitespace_loop :: "bytes \<Rightarrow> bytes \<Rightarrow> bytes list" where
  "split_whitespace_loop word [] = (if word = [] then [] else [word])"
| "split_whitespace_loop word (b # bs) =
     (let n = white_space (b # bs) in
      if n = 0 then split_whitespace_loop (word @ [b]) bs
      else (if word = [] then [] else [word]) @ split_whitespace_loop [] (drop (n - 1) bs))"
  by pat_completeness auto
termination by (relation "measure (\<lambda>(w, bs). length bs)") auto

definition split_whitespace :: "bytes \<Rightarrow> bytes list" where
  "split_whitespace line = split_whitespace_loop [] line"

text \<open>\<open>from_str_radix\<close> for an unsigned type: one leading plus sign is accepted, a lone sign is not a
  digit, and the value must stay below \<open>bound\<close>.\<close>

definition digit_value :: "u8 \<Rightarrow> nat option" where
  "digit_value c =
     (let n = unat c in
      if 48 \<le> n \<and> n \<le> 57 then Some (n - 48)
      else if 97 \<le> n \<and> n \<le> 122 then Some (n - 87)
      else if 65 \<le> n \<and> n \<le> 90 then Some (n - 55)
      else None)"

fun parse_digits :: "nat \<Rightarrow> nat \<Rightarrow> nat \<Rightarrow> bytes \<Rightarrow> detail + nat" where
  "parse_digits radix bound acc [] = Inr acc"
| "parse_digits radix bound acc (c # cs) =
     (case digit_value c of
        None \<Rightarrow> Inl (Detail ''invalid digit found in string'' [])
      | Some d \<Rightarrow>
          if radix \<le> d then Inl (Detail ''invalid digit found in string'' [])
          else if bound \<le> acc * radix + d then Inl (Detail ''number too large to fit in target type'' [])
          else parse_digits radix bound (acc * radix + d) cs)"

definition from_str_radix :: "nat \<Rightarrow> nat \<Rightarrow> bytes \<Rightarrow> detail + nat" where
  "from_str_radix radix bound text =
     (case text of
        [] \<Rightarrow> Inl (Detail ''cannot parse integer from empty string'' [])
      | c # cs \<Rightarrow>
          if (c = 43 \<or> c = 45) \<and> cs = [] then Inl (Detail ''invalid digit found in string'' [])
          else if c = 43 then parse_digits radix bound 0 cs
          else parse_digits radix bound 0 text)"

text \<open>The bytes of \<open>text[i..i + 2]\<close>, for each even \<open>i\<close> in turn; \<^const>\<open>None\<close> when an end of the slice is
  inside a character.\<close>

fun unhex_loop :: "bytes \<Rightarrow> (detail + bytes) option" where
  "unhex_loop (a # b # rest) =
     (if utf8_cont a \<or> (case rest of [] \<Rightarrow> False | c # _ \<Rightarrow> utf8_cont c) then None
      else (case from_str_radix 16 256 [a, b] of
          Inl e \<Rightarrow> Some (Inl e)
        | Inr n \<Rightarrow> map_option (map_sum id (\<lambda>bs. of_nat n # bs)) (unhex_loop rest)))"
| "unhex_loop _ = Some (Inr [])"

definition unhex :: "bytes \<Rightarrow> (detail + bytes) option" where
  "unhex text = (if odd (length text) then Some (Inl (Detail ''odd hex length'' [])) else unhex_loop text)"

definition hex :: "bytes \<Rightarrow> string" where
  "hex bs = concat (map hex_byte bs)"

definition hex_or_dash :: "bytes \<Rightarrow> string" where
  "hex_or_dash bs = (if bs = [] then ''-'' else hex bs)"

section \<open>Jobs\<close>

datatype job_error =
    JobText detail
  | JobBad string detail
  | JobSize string nat
  | JobKey bytes KeyError
  | JobAead AeadError
  | JobCodec CodecError

definition job_bind ::
  "(job_error + 'a) option \<Rightarrow> ('a \<Rightarrow> (job_error + 'b) option) \<Rightarrow> (job_error + 'b) option" where
  "job_bind m f = (case m of None \<Rightarrow> None | Some (Inl e) \<Rightarrow> Some (Inl e) | Some (Inr x) \<Rightarrow> f x)"

text \<open>\<open>what\<close> must be \<open>n\<close> bytes.\<close>

definition fixed :: "nat \<Rightarrow> bytes \<Rightarrow> string \<Rightarrow> (job_error + bytes) option" where
  "fixed n field what =
     (case unhex field of
        None \<Rightarrow> None
      | Some (Inl e) \<Rightarrow> Some (Inl (JobBad what e))
      | Some (Inr bytes) \<Rightarrow> Some (if length bytes = n then Inr bytes else Inl (JobSize what n)))"

definition parse_u32 :: "bytes \<Rightarrow> string \<Rightarrow> (job_error + u32) option" where
  "parse_u32 field msg =
     Some (case from_str_radix 10 (2 ^ 32) field of
        Inl _ \<Rightarrow> Inl (JobText (Detail msg []))
      | Inr n \<Rightarrow> Inr (of_nat n))"

definition parse_payload :: "bytes \<Rightarrow> (job_error + bytes) option" where
  "parse_payload field =
     (if field = [0x2D] then Some (Inr [])
      else (case unhex field of
          None \<Rightarrow> None
        | Some (Inl e) \<Rightarrow> Some (Inl (JobBad ''payload'' e))
        | Some (Inr bytes) \<Rightarrow> Some (Inr bytes)))"

record Job =
  jb_key_path :: bytes
  jb_session_id :: bytes
  jb_salt :: bytes
  jb_nonce :: bytes
  jb_symbol_size :: u32
  jb_block_count :: u32
  jb_source :: u32
  jb_total :: u32
  jb_payload :: bytes

record JobResult =
  jr_payload_size :: u64
  jr_payload_digest :: bytes
  jr_frames :: "bytes list"
  jr_decoded :: bytes

definition parse_job :: "bytes \<Rightarrow> (job_error + Job) option" where
  "parse_job line =
     (let fields = split_whitespace line in
      if length fields \<noteq> 9
        then Some (Inl (JobText (Detail ''expected 9 fields, got {}'' [length fields])))
      else
        job_bind (fixed 16 (fields ! 1) ''session id'') (\<lambda>session_id.
        job_bind (fixed 32 (fields ! 2) ''salt'') (\<lambda>salt.
        job_bind (fixed 24 (fields ! 3) ''nonce'') (\<lambda>nonce.
        job_bind (parse_u32 (fields ! 4) ''bad symbol size'') (\<lambda>symbol_size.
        job_bind (parse_u32 (fields ! 5) ''bad block count'') (\<lambda>block_count.
        job_bind (parse_u32 (fields ! 6) ''bad source symbol count'') (\<lambda>source.
        job_bind (parse_u32 (fields ! 7) ''bad total symbol count'') (\<lambda>total_symbols.
        job_bind (parse_payload (fields ! 8)) (\<lambda>payload.
          Some (Inr \<lparr>jb_key_path = fields ! 0, jb_session_id = session_id, jb_salt = salt,
            jb_nonce = nonce, jb_symbol_size = symbol_size, jb_block_count = block_count,
            jb_source = source, jb_total = total_symbols, jb_payload = payload\<rparr>))))))))))"

text \<open>The sender's half of a job, then the receiver's.\<close>

definition run_encode ::
  "('cfg, 'enc, 'pkt, 'dec) raptorq \<Rightarrow> (bytes \<Rightarrow> bytes \<Rightarrow> bytes) \<Rightarrow> (bytes \<Rightarrow> bytes) \<Rightarrow> aead \<Rightarrow>
   ('sk, 'vk) ed25519 \<Rightarrow> os \<Rightarrow> files \<Rightarrow> Job \<Rightarrow> job_error + TransferKeys \<times> SessionParams \<times> bytes list" where
  "run_encode R kh h A E S F j =
     res_bind (map_err (JobKey (jb_key_path j)) (load_operator h E S (path_of (jb_key_path j)) F)) (\<lambda>key.
     res_bind (map_err JobAead (transfer_keys_derive kh (ok_bytes key) (jb_salt j))) (\<lambda>keys.
     res_bind (map_err JobAead (encrypt_payload A keys (jb_nonce j) (jb_session_id j) (jb_payload j))) (\<lambda>ciphertext.
     let params = \<lparr>sp_payload_size = of_nat (length ciphertext), sp_block_count = jb_block_count j,
           sp_symbol_size = jb_symbol_size j, sp_source_symbols_per_block = jb_source j,
           sp_total_symbols_per_block = jb_total j, sp_raptorq = \<lparr>rq_z = 1, rq_n = 1, rq_psi = 1\<rparr>,
           sp_payload_digest = blake3_digest h ciphertext\<rparr> in
     res_bind (map_err JobCodec (pipeline_new (jb_session_id j) params (tk_session_key keys))) (\<lambda>pipeline.
     res_bind (map_err JobCodec (encode_to_bytes R kh pipeline ciphertext)) (\<lambda>frames.
       Inr (keys, params, frames))))))"

text \<open>The driver does not catch panics: \<open>None\<close> is a panic, of RaptorQ here.\<close>

definition run_decode ::
  "('cfg, 'enc, 'pkt, 'dec) raptorq \<Rightarrow> (bytes \<Rightarrow> bytes \<Rightarrow> bytes) \<Rightarrow> (bytes \<Rightarrow> bytes) \<Rightarrow> aead \<Rightarrow>
   Job \<Rightarrow> TransferKeys \<times> SessionParams \<times> bytes list \<Rightarrow> (job_error + JobResult) option" where
  "run_decode R kh h A j = (\<lambda>(keys, params, frames).
     job_bind (Some (map_err JobCodec (decoder_new R (jb_session_id j) params (tk_session_key keys)))) (\<lambda>decoder.
     Option.bind (receive_run R kh decoder frames) (\<lambda>decoder.
     Some (res_bind (map_err JobCodec (decoder_finish h decoder)) (\<lambda>recovered.
     res_bind (map_err JobAead (decrypt_payload A keys (jb_nonce j) (jb_session_id j) recovered)) (\<lambda>decoded.
       Inr \<lparr>jr_payload_size = sp_payload_size params, jr_payload_digest = sp_payload_digest params,
            jr_frames = frames, jr_decoded = decoded\<rparr>))))))"

definition run_job ::
  "('cfg, 'enc, 'pkt, 'dec) raptorq \<Rightarrow> (bytes \<Rightarrow> bytes \<Rightarrow> bytes) \<Rightarrow> (bytes \<Rightarrow> bytes) \<Rightarrow> aead \<Rightarrow>
   ('sk, 'vk) ed25519 \<Rightarrow> os \<Rightarrow> files \<Rightarrow> bytes \<Rightarrow> (job_error + JobResult) option" where
  "run_job R kh h A E S F line =
     job_bind (parse_job line) (\<lambda>j. job_bind (Some (run_encode R kh h A E S F j)) (run_decode R kh h A j))"

section \<open>The program\<close>

fun all_white_space :: "nat \<Rightarrow> bytes \<Rightarrow> bool" where
  "all_white_space 0 bs \<longleftrightarrow> bs = []"
| "all_white_space (Suc fuel) bs \<longleftrightarrow>
     bs = [] \<or> white_space bs \<noteq> 0 \<and> all_white_space fuel (drop (white_space bs) bs)"

fun trim_start :: "nat \<Rightarrow> bytes \<Rightarrow> bytes" where
  "trim_start 0 bs = bs"
| "trim_start (Suc fuel) bs = (if white_space bs = 0 then bs else trim_start fuel (drop (white_space bs) bs))"

fun trim_end :: "bytes \<Rightarrow> bytes" where
  "trim_end [] = []"
| "trim_end (b # bs) = (if all_white_space (length (b # bs)) (b # bs) then [] else b # trim_end bs)"

text \<open>\<open>str::trim\<close>; the fuel is the length of the text, of which each character uses at least one byte.\<close>

definition str_trim :: "bytes \<Rightarrow> bytes" where
  "str_trim line = trim_end (trim_start (length line) line)"

definition job_lines :: "(job_error \<Rightarrow> string) \<Rightarrow> nat \<Rightarrow> job_error + JobResult \<Rightarrow> string list" where
  "job_lines display index result =
     [''job '' @ decimal index] @
     (case result of
        Inr r \<Rightarrow>
          [''size '' @ decimal (unat (jr_payload_size r)), ''digest '' @ hex (jr_payload_digest r),
           ''frames '' @ decimal (length (jr_frames r))] @
          map (\<lambda>frame. ''frame '' @ hex frame) (jr_frames r) @
          [''decoded '' @ hex_or_dash (jr_decoded r)]
      | Inl e \<Rightarrow> [''error '' @ display e]) @
     [''end'']"

text \<open>The lines \<open>main\<close> writes for the lines it reads.\<close>

fun reference_main ::
  "('cfg, 'enc, 'pkt, 'dec) raptorq \<Rightarrow> (bytes \<Rightarrow> bytes \<Rightarrow> bytes) \<Rightarrow> (bytes \<Rightarrow> bytes) \<Rightarrow> aead \<Rightarrow>
   ('sk, 'vk) ed25519 \<Rightarrow> os \<Rightarrow> files \<Rightarrow> (job_error \<Rightarrow> string) \<Rightarrow> nat \<Rightarrow> bytes list \<Rightarrow> string list option" where
  "reference_main R kh h A E S F display index [] = Some []"
| "reference_main R kh h A E S F display index (line # rest) =
     (let line = str_trim line in
      if line = [] then reference_main R kh h A E S F display (Suc index) rest
      else (case run_job R kh h A E S F line of
          None \<Rightarrow> None
        | Some result \<Rightarrow>
            map_option (\<lambda>out. job_lines display index result @ out)
              (reference_main R kh h A E S F display (Suc index) rest)))"

section \<open>The same transfer through the C interface\<close>

text \<open>Each frame is read with two calls: for its length, then for its bytes.\<close>

fun read_frames :: "addr \<Rightarrow> nat list \<Rightarrow> (('sk, 'vk, 'dec) library, bytes list option) call" where
  "read_frames e [] = ret (Some [])"
| "read_frames e (i # is) =
     call_bind (dhow_encoder_frame e i None 0 (Some 0)) (\<lambda>(st, _, n).
       case n of
         None \<Rightarrow> ret None
       | Some n \<Rightarrow>
           if st \<noteq> StOk then ret None
           else call_bind (dhow_encoder_frame e i (Some (replicate n 0)) n (Some 0)) (\<lambda>(st, f, _).
             case f of
               None \<Rightarrow> ret None
             | Some f \<Rightarrow>
                 if st \<noteq> StOk then ret None
                 else call_bind (read_frames e is) (\<lambda>fs. ret (map_option (\<lambda>fs. f # fs) fs))))"

definition job_params :: "Job \<Rightarrow> DhowSessionParams" where
  "job_params j = \<lparr>dp_payload_size = 0, dp_block_count = jb_block_count j,
     dp_symbol_size = jb_symbol_size j, dp_source_symbols_per_block = jb_source j,
     dp_total_symbols_per_block = jb_total j, dp_payload_digest = replicate 32 0\<rparr>"

definition interface_receive ::
  "('cfg, 'enc, 'pkt, 'dec) raptorq \<Rightarrow> (bytes \<Rightarrow> bytes \<Rightarrow> bytes) \<Rightarrow> (bytes \<Rightarrow> bytes) \<Rightarrow> aead \<Rightarrow>
   addr \<Rightarrow> Job \<Rightarrow> DhowSessionParams \<Rightarrow> bytes list \<Rightarrow> (('sk, 'vk, 'dec) library, bytes option) call" where
  "interface_receive R kh h A k j params frames =
     call_bind (dhow_decoder_new R kh k (Some (jb_session_id j)) (Some (jb_salt j)) params) (\<lambda>d.
       if d = 0 then ret None
       else call_then (feed R kh d frames)
         (call_bind (dhow_decoder_finish kh h A d k (Some (jb_session_id j)) (Some (jb_salt j))
             (Some (jb_nonce j)) None 0 (Some 0)) (\<lambda>(st, _, n).
           case n of
             None \<Rightarrow> ret None
           | Some n \<Rightarrow>
               if st \<noteq> StOk then ret None
               else call_bind (dhow_decoder_finish kh h A d k (Some (jb_session_id j)) (Some (jb_salt j))
                   (Some (jb_nonce j)) (Some (replicate n 0)) n (Some 0)) (\<lambda>(st, out, _).
                 ret (if st = StOk then out else None)))))"

definition interface_transfer ::
  "('cfg, 'enc, 'pkt, 'dec) raptorq \<Rightarrow> (bytes \<Rightarrow> bytes \<Rightarrow> bytes) \<Rightarrow> (bytes \<Rightarrow> bytes) \<Rightarrow> aead \<Rightarrow>
   addr \<Rightarrow> Job \<Rightarrow> (('sk, 'vk, 'dec) library, JobResult option) call" where
  "interface_transfer R kh h A k j =
       call_bind (dhow_encoder_new R kh h A k (Some (jb_session_id j)) (Some (jb_salt j))
           (Some (jb_nonce j)) (job_params j) (Some (jb_payload j)) (length (jb_payload j))) (\<lambda>e.
         if e = 0 then ret None
         else call_bind (dhow_encoder_params e (Some (job_params j))) (\<lambda>(_, ps).
           call_bind (dhow_encoder_frame_count e) (\<lambda>n.
           call_bind (read_frames e [0..<unat n]) (\<lambda>fs.
             case (ps, fs) of
               (Some params, Some frames) \<Rightarrow>
                 call_bind (interface_receive R kh h A k j params frames) (\<lambda>out.
                   ret (map_option (\<lambda>decoded. \<lparr>jr_payload_size = dp_payload_size params,
                     jr_payload_digest = dp_payload_digest params, jr_frames = frames,
                     jr_decoded = decoded\<rparr>) out))
             | _ \<Rightarrow> ret None))))"

definition interface_job ::
  "('cfg, 'enc, 'pkt, 'dec) raptorq \<Rightarrow> (bytes \<Rightarrow> bytes \<Rightarrow> bytes) \<Rightarrow> (bytes \<Rightarrow> bytes) \<Rightarrow> aead \<Rightarrow>
   ('sk, 'vk) ed25519 \<Rightarrow> os \<Rightarrow> Job \<Rightarrow> (('sk, 'vk, 'dec) library, JobResult option) call" where
  "interface_job R kh h A E S j =
     call_bind (dhow_key_load h E S (Some (jb_key_path j @ [0]))) (\<lambda>k.
       if k = 0 then ret None else interface_transfer R kh h A k j)"

section \<open>Agreement\<close>

lemma read_frames_live:
  assumes "lib_heap L e = Some (BoxEncoder en)" and "e \<noteq> 0" and "\<forall>i \<in> set is. i < length (de_frames en)"
  shows "\<exists>L'. read_frames e is L = Returns (Some (map ((!) (de_frames en)) is)) L' \<and> lib_heap L' = lib_heap L \<and>
    lib_next L' = lib_next L"
  using assms
proof (induction "is" arbitrary: L)
  case (Cons i "is")
  let ?f = "de_frames en ! i" and ?L = "L\<lparr>lib_last_error := text_message []\<rparr>"
  have i: "i < length (de_frames en)" using Cons.prems(3) by simp
  have a: "dhow_encoder_frame e i None 0 (Some 0) L = Returns (StOk, None, Some (length ?f)) ?L"
    unfolding dhow_encoder_frame_def using Cons.prems i
    by (intro guards_return) (simp add: deref_live write_out_def)
  have b: "dhow_encoder_frame e i (Some (replicate (length ?f) 0)) (length ?f) (Some 0) ?L =
      Returns (StOk, Some ?f, Some (length ?f)) ?L"
    unfolding dhow_encoder_frame_def using Cons.prems i
    by (intro guards_return) (simp add: deref_live write_out_def copy_to_def)
  have "lib_heap ?L e = Some (BoxEncoder en)" using Cons.prems by simp
  from Cons.IH [OF this Cons.prems(2)] Cons.prems(3) obtain L' where
    "read_frames e is ?L = Returns (Some (map ((!) (de_frames en)) is)) L'" "lib_heap L' = lib_heap L"
    "lib_next L' = lib_next L"
    by auto
  with a b show ?case by simp
qed simp

lemma finish_on_live:
  assumes "lib_heap L p = Some (BoxDecoder d)" and "p \<noteq> 0" and "lib_heap L k = Some (BoxKey key)"
    and "k \<noteq> 0" and "length sid = 16" and "length salt = 32" and "length nonce = 24"
    and "transfer_keys_derive kh (ok_bytes (dk_inner key)) salt = Inr keys"
  shows "decoder_finish h (dd_inner d) = Inl e \<Longrightarrow>
      \<exists>st L'. dhow_decoder_finish kh h A p k (Some sid) (Some salt) (Some nonce) buf len w L =
        Returns (st, buf, w) L' \<and> st \<noteq> StOk"
    and "decoder_finish h (dd_inner d) = Inr ct \<Longrightarrow> decrypt_payload_in_place A keys nonce sid ct = Inl e' \<Longrightarrow>
      \<exists>st L'. dhow_decoder_finish kh h A p k (Some sid) (Some salt) (Some nonce) buf len w L =
        Returns (st, buf, w) L' \<and> st \<noteq> StOk"
    and "decoder_finish h (dd_inner d) = Inr ct \<Longrightarrow> decrypt_payload_in_place A keys nonce sid ct = Inr data \<Longrightarrow>
      dhow_decoder_finish kh h A p k (Some sid) (Some salt) (Some nonce) None len (Some w') L =
        Returns (StOk, None, Some (length data)) (L\<lparr>lib_last_error := text_message []\<rparr>)"
  using assms finish_verified [of h "dd_inner d" ct]
  unfolding dhow_decoder_finish_def guard_out_def guard_with_def catch_unwind_def
  by (simp_all add: deref_live write_out_def)

lemma interface_receive_eval:
  assumes "library_ok B L" and "lib_heap L k = Some (BoxKey key)"
    and "length (jb_session_id j) = 16" and "length (jb_salt j) = 32" and "length (jb_nonce j) = 24"
    and "transfer_keys_derive kh (ok_bytes (dk_inner key)) (jb_salt j) = Inr keys"
    and "decoder_new R (jb_session_id j) (to_session_params params) (tk_session_key keys) = Inr d"
    and "receive_run R kh d frames = Some d'"
  shows "\<exists>L'. interface_receive R kh h A k j params frames L = Returns
    (case decoder_finish h d' of Inl _ \<Rightarrow> None
     | Inr ct \<Rightarrow> (case decrypt_payload_in_place A keys (jb_nonce j) (jb_session_id j) ct of Inl _ \<Rightarrow> None
         | Inr m \<Rightarrow> Some m)) L'"
proof -
  have k: "k \<noteq> 0" "lib_next L \<noteq> k" "lib_next L \<noteq> 0"
    using assms(1,2) unfolding library_ok_def by (metis option.distinct(1), metis option.distinct(1) order_refl, simp)
  let ?p = "lib_next L"
  obtain L1 where new: "dhow_decoder_new R kh k (Some (jb_session_id j)) (Some (jb_salt j)) params L = Returns ?p L1"
    and L1: "lib_heap L1 = (lib_heap L)(?p \<mapsto> BoxDecoder \<lparr>dd_inner = d\<rparr>)"
    using decoder_new_live [OF assms(2) k(1) assms(3,4,6,7)] by simp
  have "lib_heap L1 ?p = Some (BoxDecoder \<lparr>dd_inner = d\<rparr>)" using L1 by simp
  from feed_live [OF this k(3), of R kh frames d'] assms(8) obtain sts L2 where
    feed: "feed R kh ?p frames L1 = Returns sts L2"
    and L2: "lib_heap L2 = (lib_heap L1)(?p \<mapsto> BoxDecoder \<lparr>dd_inner = d'\<rparr>)"
    by auto
  let ?d = "\<lparr>dd_inner = d'\<rparr>"
  have live: "lib_heap L2 ?p = Some (BoxDecoder ?d)" "lib_heap L2 k = Some (BoxKey key)"
    using L1 L2 k(2) assms(2) by simp_all
  note eval = finish_on_live [OF live(1) k(3) live(2) k(1) assms(3-6)]
  show ?thesis
  proof (cases "decoder_finish h (d')")
    case (Inl e)
    with eval(1) [of h e A None 0 "Some 0"] show ?thesis
      by (auto simp: interface_receive_def new feed k)
  next
    case (Inr ct)
    show ?thesis
    proof (cases "decrypt_payload_in_place A keys (jb_nonce j) (jb_session_id j) ct")
      case (Inl e)
      with Inr eval(2) [of h ct A e None 0 "Some 0"] show ?thesis
        by (auto simp: interface_receive_def new feed k)
    next
      case ok: (Inr m)
      let ?L = "L2\<lparr>lib_last_error := text_message []\<rparr>"
      have l: "lib_heap ?L ?p = Some (BoxDecoder ?d)" "lib_heap ?L k = Some (BoxKey key)" using live by simp_all
      have f: "decoder_finish h (dd_inner ?d) = Inr ct" using Inr by simp
      have "dhow_decoder_finish kh h A ?p k (Some (jb_session_id j)) (Some (jb_salt j)) (Some (jb_nonce j))
          (Some (replicate (length m) 0)) (length (replicate (length m) (0 :: u8))) (Some 0) ?L =
          Returns (StOk, Some (m @ drop (length m) (replicate (length m) 0)), map_option (\<lambda>_. length m) (Some (0 :: nat)))
            (?L\<lparr>lib_last_error := text_message []\<rparr>)"
        by (rule finish_live [OF l(1) k(3) l(2) k(1) assms(3-6) f ok]) simp
      with Inr ok eval(3) [of h ct A m 0 0] show ?thesis
        by (auto simp: interface_receive_def new feed k)
    qed
  qed
qed

lemma fixed_length: "fixed n field what = Some (Inr bs) \<Longrightarrow> length bs = n"
  by (auto simp: fixed_def split: option.splits sum.splits if_splits)

lemma job_bind_Inr [simp]: "job_bind m f = Some (Inr y) \<longleftrightarrow> (\<exists>x. m = Some (Inr x) \<and> f x = Some (Inr y))"
  by (auto simp: job_bind_def split: option.splits sum.splits)

lemma parse_job_lengths:
  "parse_job line = Some (Inr j) \<Longrightarrow>
   length (jb_session_id j) = 16 \<and> length (jb_salt j) = 32 \<and> length (jb_nonce j) = 24"
  by (auto simp: parse_job_def Let_def dest: fixed_length split: if_splits)

lemma key_load_eval:
  assumes "utf8_valid path" and "0 \<notin> set path"
  shows "dhow_key_load h E S (Some (path @ [0])) L =
    (case load_operator h E S (path_of path) (lib_files L) of
       Inl e \<Rightarrow> Returns 0 (L\<lparr>lib_last_error := MsgKey e\<rparr>)
     | Inr key \<Rightarrow> Returns (lib_next L) (L\<lparr>lib_last_error := text_message [],
         lib_heap := (lib_heap L)(lib_next L \<mapsto> BoxKey \<lparr>dk_inner = key\<rparr>), lib_next := Suc (lib_next L)\<rparr>))"
proof -
  have "takeWhile (\<lambda>b. b \<noteq> 0) (path @ [0]) = path"
    using assms(2) by (metis (mono_tags, lifting) append_Nil2 takeWhile.simps(2) takeWhile_append2)
  with assms(1) show ?thesis
    by (simp add: dhow_key_load_def guard_ptr_def guard_with_def catch_unwind_def path_from_def c_string_def
        into_raw_def split: sum.split)
qed

lemma encode_through_interface:
  assumes "lib_heap L k = Some (BoxKey \<lparr>dk_inner = key\<rparr>)" and "k \<noteq> 0"
    and "length (jb_session_id j) = 16" and "length (jb_salt j) = 32" and "length (jb_nonce j) = 24"
    and "load_operator h E S (path_of (jb_key_path j)) F = Inr key"
  shows "run_encode R kh h A E S F j = Inl e \<Longrightarrow>
      \<exists>L'. dhow_encoder_new R kh h A k (Some (jb_session_id j)) (Some (jb_salt j)) (Some (jb_nonce j))
        (job_params j) (Some (jb_payload j)) (length (jb_payload j)) L = Returns 0 L'"
    and "run_encode R kh h A E S F j = Inr (keys, params, frames) \<Longrightarrow>
      transfer_keys_derive kh (ok_bytes key) (jb_salt j) = Inr keys \<and>
      (\<exists>p. pipeline_new (jb_session_id j) params (tk_session_key keys) = Inr p) \<and>
      (\<exists>resolved. to_session_params resolved = params \<and>
        dhow_encoder_new R kh h A k (Some (jb_session_id j)) (Some (jb_salt j)) (Some (jb_nonce j))
          (job_params j) (Some (jb_payload j)) (length (jb_payload j)) L =
        Returns (lib_next L) (L\<lparr>lib_last_error := text_message [], lib_heap := (lib_heap L)(lib_next L \<mapsto>
          BoxEncoder \<lparr>de_frames = frames, de_params = resolved\<rparr>), lib_next := Suc (lib_next L)\<rparr>))"
proof -
  have par: "(to_session_params (job_params j))\<lparr>sp_payload_size := n, sp_payload_digest := g\<rparr> =
      \<lparr>sp_payload_size = n, sp_block_count = jb_block_count j, sp_symbol_size = jb_symbol_size j,
       sp_source_symbols_per_block = jb_source j, sp_total_symbols_per_block = jb_total j,
       sp_raptorq = \<lparr>rq_z = 1, rq_n = 1, rq_psi = 1\<rparr>, sp_payload_digest = g\<rparr>" for n g
    by (simp add: to_session_params_def job_params_def)
  have res: "to_session_params ((job_params j)\<lparr>dp_payload_size := n, dp_payload_digest := g\<rparr>) =
      (to_session_params (job_params j))\<lparr>sp_payload_size := n, sp_payload_digest := g\<rparr>" for n g
    by (simp add: to_session_params_def)
  show "run_encode R kh h A E S F j = Inl e \<Longrightarrow>
      \<exists>L'. dhow_encoder_new R kh h A k (Some (jb_session_id j)) (Some (jb_salt j)) (Some (jb_nonce j))
        (job_params j) (Some (jb_payload j)) (length (jb_payload j)) L = Returns 0 L'"
    unfolding dhow_encoder_new_def guard_ptr_def guard_with_def catch_unwind_def run_encode_def
    using assms by (auto simp: deref_live Let_def par [symmetric] split: sum.splits)
  assume r: "run_encode R kh h A E S F j = Inr (keys, params, frames)"
  then obtain ct p where k: "transfer_keys_derive kh (ok_bytes key) (jb_salt j) = Inr keys"
    and ct: "encrypt_payload A keys (jb_nonce j) (jb_session_id j) (jb_payload j) = Inr ct"
    and par': "params = to_session_params ((job_params j)\<lparr>dp_payload_size := of_nat (length ct),
      dp_payload_digest := blake3_digest h ct\<rparr>)"
    and p: "pipeline_new (jb_session_id j) params (tk_session_key keys) = Inr p"
    and enc: "encode_to_bytes R kh p ct = Inr frames"
    using assms(6) unfolding run_encode_def res par by (auto simp: Let_def)
  from k have k': "transfer_keys_derive kh (ok_bytes (dk_inner \<lparr>dk_inner = key\<rparr>)) (jb_salt j) = Inr keys" by simp
  from encoder_new_live [OF assms(1-5) k' ct refl p [unfolded par'] enc] k p par'
  show "transfer_keys_derive kh (ok_bytes key) (jb_salt j) = Inr keys \<and>
      (\<exists>p. pipeline_new (jb_session_id j) params (tk_session_key keys) = Inr p) \<and>
      (\<exists>resolved. to_session_params resolved = params \<and>
        dhow_encoder_new R kh h A k (Some (jb_session_id j)) (Some (jb_salt j)) (Some (jb_nonce j))
          (job_params j) (Some (jb_payload j)) (length (jb_payload j)) L =
        Returns (lib_next L) (L\<lparr>lib_last_error := text_message [], lib_heap := (lib_heap L)(lib_next L \<mapsto>
          BoxEncoder \<lparr>de_frames = frames, de_params = resolved\<rparr>), lib_next := Suc (lib_next L)\<rparr>))"
    by blast
qed

lemma sent_job_agrees:
  assumes "aead_correct A" and L: "library_ok (\<lambda>_. True) L" and key: "lib_heap L k = Some (BoxKey \<lparr>dk_inner = key\<rparr>)"
    and len: "length (jb_session_id j) = 16" "length (jb_salt j) = 32" "length (jb_nonce j) = 24"
    and "run_encode R kh h A E S F j = Inr (keys, params, frames)" and n: "length frames < 2 ^ 31"
    and sent: "transfer_keys_derive kh (ok_bytes key) (jb_salt j) = Inr keys \<and>
      (\<exists>p. pipeline_new (jb_session_id j) params (tk_session_key keys) = Inr p) \<and>
      (\<exists>resolved. to_session_params resolved = params \<and>
        dhow_encoder_new R kh h A k (Some (jb_session_id j)) (Some (jb_salt j)) (Some (jb_nonce j))
          (job_params j) (Some (jb_payload j)) (length (jb_payload j)) L =
        Returns (lib_next L) (L\<lparr>lib_last_error := text_message [], lib_heap := (lib_heap L)(lib_next L \<mapsto>
          BoxEncoder \<lparr>de_frames = frames, de_params = resolved\<rparr>), lib_next := Suc (lib_next L)\<rparr>))"
    and run: "run_decode R kh h A j (keys, params, frames) = Some r"
  shows "\<exists>L'. interface_transfer R kh h A k j L = Returns (case r of Inr r \<Rightarrow> Some r | Inl _ \<Rightarrow> None) L'"
proof -
  obtain resolved p where par: "to_session_params resolved = params"
    and p: "pipeline_new (jb_session_id j) params (tk_session_key keys) = Inr p"
    and new: "dhow_encoder_new R kh h A k (Some (jb_session_id j)) (Some (jb_salt j)) (Some (jb_nonce j))
          (job_params j) (Some (jb_payload j)) (length (jb_payload j)) L =
        Returns (lib_next L) (L\<lparr>lib_last_error := text_message [], lib_heap := (lib_heap L)(lib_next L \<mapsto>
          BoxEncoder \<lparr>de_frames = frames, de_params = resolved\<rparr>), lib_next := Suc (lib_next L)\<rparr>)"
      (is "_ = Returns ?e ?L1")
    using sent by blast
  let ?en = "\<lparr>de_frames = frames, de_params = resolved\<rparr>"
  have e: "?e \<noteq> 0" "?e \<noteq> k" using L key unfolding library_ok_def by (simp, metis option.distinct(1) order_refl)
  have live: "lib_heap ?L1 ?e = Some (BoxEncoder ?en)" by simp
  have ps: "dhow_encoder_params ?e (Some (job_params j)) ?L1 = Returns (StOk, Some resolved) ?L1"
    unfolding dhow_encoder_params_def using e(1) live by (intro guards_return) (simp add: deref_live)
  have "unat (of_nat (length frames) :: c_int) = length frames" using n by (intro unat_of_nat_lt) simp
  then obtain c where cnt: "dhow_encoder_frame_count ?e ?L1 = Returns c ?L1" and c: "unat c = length frames"
    using e(1) live by (simp add: dhow_encoder_frame_count_def guard_int_def guard_with_def catch_unwind_def deref_live)
  from read_frames_live [OF live e(1), of "[0..<length frames]"] obtain L2 where
    fs: "read_frames ?e [0..<length frames] ?L1 = Returns (Some frames) L2" and L2: "lib_heap L2 = lib_heap ?L1"
    "lib_next L2 = lib_next ?L1"
    by (auto simp: map_nth)
  obtain d where d: "decoder_new R (jb_session_id j) (to_session_params resolved) (tk_session_key keys) = Inr d"
    using decoder_for_pipeline [OF p] par by blast
  have "library_ok (\<lambda>_. True) L2" using L L2 by (auto simp: library_ok_def)
  moreover have "lib_heap L2 k = Some (BoxKey \<lparr>dk_inner = key\<rparr>)" using key L2 e(2) by simp
  moreover have "transfer_keys_derive kh (ok_bytes (dk_inner \<lparr>dk_inner = key\<rparr>)) (jb_salt j) = Inr keys"
    using sent by simp
  moreover obtain d' where d': "receive_run R kh d frames = Some d'"
    using run d par by (auto simp: run_decode_def job_bind_def bind_eq_Some_conv)
  ultimately obtain L3 where rec: "interface_receive R kh h A k j resolved frames L2 = Returns
    (case decoder_finish h d' of Inl _ \<Rightarrow> None
     | Inr ct \<Rightarrow> (case decrypt_payload_in_place A keys (jb_nonce j) (jb_session_id j) ct of Inl _ \<Rightarrow> None
         | Inr m \<Rightarrow> Some m)) L3"
    using interface_receive_eval [OF _ _ len _ d d'] by blast
  have f: "dp_payload_size resolved = sp_payload_size params" "dp_payload_digest resolved = sp_payload_digest params"
    using par by (auto simp: to_session_params_def)
  show ?thesis
    using run d d' decrypt_in_place_eq [OF assms(1)] unfolding par
    by (auto simp: interface_transfer_def new e(1) ps cnt c fs rec run_decode_def job_bind_def f split: sum.split)
qed

text \<open>C4: the C interface computes what the library computes. For every job line the reference driver
  can parse and answers without a panic of RaptorQ, whose key path has no NUL and whose frames number less
  than \<open>2 ^ 31\<close>, loading the same key file, encoding, reading the frames and decoding them by calls of the
  interface, on a library in any sound state, ends with exactly the driver's result (the same size,
  digest, frames and decoded bytes), and without a result exactly when the driver reports an error.
  The two bounds are those of the interface: it takes the path as a C string and reports the number of
  frames as a C \<open>int\<close>.\<close>

theorem interface_agrees_with_reference:
  assumes "aead_correct A" and "library_ok B L" and "parse_job line = Some (Inr j)"
    and "utf8_valid (jb_key_path j)" and "0 \<notin> set (jb_key_path j)"
    and "\<And>keys params frames. run_encode R kh h A E S (lib_files L) j = Inr (keys, params, frames) \<Longrightarrow>
      length frames < 2 ^ 31"
    and "run_job R kh h A E S (lib_files L) line = Some r"
  shows "\<exists>L'. interface_job R kh h A E S j L = Returns (case r of Inr result \<Rightarrow> Some result | Inl _ \<Rightarrow> None) L'"
proof -
  have run: "job_bind (Some (run_encode R kh h A E S (lib_files L) j)) (run_decode R kh h A j) = Some r"
    using assms(3,7) by (simp add: run_job_def job_bind_def)
  note len = parse_job_lengths [OF assms(3), THEN conjunct1] parse_job_lengths [OF assms(3), THEN conjunct2, THEN conjunct1]
    parse_job_lengths [OF assms(3), THEN conjunct2, THEN conjunct2]
  note load = key_load_eval [OF assms(4,5), of h E S L]
  show ?thesis
  proof (cases "load_operator h E S (path_of (jb_key_path j)) (lib_files L)")
    case (Inl e)
    then have "run_encode R kh h A E S (lib_files L) j = Inl (JobKey (jb_key_path j) e)" by (simp add: run_encode_def)
    with run have "\<exists>e. r = Inl e" by (auto simp: job_bind_def)
    then show ?thesis by (auto simp: interface_job_def load Inl)
  next
    case key: (Inr key)
    let ?k = "lib_next L" and ?L1 = "L\<lparr>lib_last_error := text_message [],
         lib_heap := (lib_heap L)(lib_next L \<mapsto> BoxKey \<lparr>dk_inner = key\<rparr>), lib_next := Suc (lib_next L)\<rparr>"
    have k: "?k \<noteq> 0" "lib_heap ?L1 ?k = Some (BoxKey \<lparr>dk_inner = key\<rparr>)"
      using assms(2) by (simp_all add: library_ok_def)
    have loaded: "dhow_key_load h E S (Some (jb_key_path j @ [0])) L = Returns ?k ?L1" by (simp add: load key)
    note through = encode_through_interface [OF k(2,1) len key, of R kh A]
    show ?thesis
    proof (cases "run_encode R kh h A E S (lib_files L) j")
      case (Inl e)
      with run have "\<exists>e. r = Inl e" by (auto simp: job_bind_def)
      with through(1) [OF Inl] k(1) show ?thesis
        by (auto simp: interface_job_def interface_transfer_def loaded)
    next
      case (Inr x)
      then obtain keys params frames where
        enc: "run_encode R kh h A E S (lib_files L) j = Inr (keys, params, frames)" by (cases x) auto
      have "library_ok (\<lambda>_. True) ?L1" using assms(2) by (auto simp: library_ok_def)
      moreover have "run_decode R kh h A j (keys, params, frames) = Some r" using run enc by (simp add: job_bind_def)
      ultimately show ?thesis
        using sent_job_agrees [OF assms(1) _ k(2) len enc assms(6) [OF enc] through(2) [OF enc]]
        by (auto simp: interface_job_def loaded k(1))
    qed
  qed
qed

section \<open>Writing job lines\<close>

text \<open>The line for a job, in the protocol of the driver's documentation.\<close>

definition job_line :: "Job \<Rightarrow> bytes" where
  "job_line j = jb_key_path j @ [32] @ ascii (hex (jb_session_id j)) @ [32] @ ascii (hex (jb_salt j)) @ [32] @
     ascii (hex (jb_nonce j)) @ [32] @ ascii (decimal (unat (jb_symbol_size j))) @ [32] @
     ascii (decimal (unat (jb_block_count j))) @ [32] @ ascii (decimal (unat (jb_source j))) @ [32] @
     ascii (decimal (unat (jb_total j))) @ [32] @ ascii (hex_or_dash (jb_payload j))"

definition plain_byte :: "u8 \<Rightarrow> bool" where
  "plain_byte b \<longleftrightarrow> 33 \<le> b \<and> b \<le> 126"

lemma white_space_plain: "plain_byte b \<Longrightarrow> white_space (b # bs) = 0"
  by (cases "b # bs" rule: white_space.cases)
    (auto simp: plain_byte_def word_le_nat_alt unat_arith_simps)

lemma white_space_space: "white_space (32 # bs) = 1"
  by (cases "(32 :: u8) # bs" rule: white_space.cases) auto

lemma split_loop_word:
  "list_all plain_byte w \<Longrightarrow> split_whitespace_loop acc (w @ bs) = split_whitespace_loop (acc @ w) bs"
  by (induction w arbitrary: acc) (simp_all add: white_space_plain)

lemma split_field:
  assumes "list_all plain_byte w" and "w \<noteq> []"
  shows "split_whitespace (w @ 32 # bs) = w # split_whitespace bs" and "split_whitespace w = [w]"
  using split_loop_word [OF assms(1), of "[]" "32 # bs"] split_loop_word [OF assms(1), of "[]" "[]"] assms(2)
  by (simp_all add: split_whitespace_def white_space_space)

text \<open>What is used of a digit character with value \<open>n\<close>.\<close>

definition digit_char :: "u8 \<Rightarrow> nat \<Rightarrow> bool" where
  "digit_char c n \<longleftrightarrow> digit_value c = Some n \<and> plain_byte c \<and> c \<noteq> 43 \<and> c \<noteq> 45 \<and> \<not> utf8_cont c"

lemma digit_charD:
  "digit_char c n \<Longrightarrow> digit_value c = Some n" "digit_char c n \<Longrightarrow> plain_byte c"
  "digit_char c n \<Longrightarrow> c \<noteq> 43" "digit_char c n \<Longrightarrow> c \<noteq> 45" "digit_char c n \<Longrightarrow> \<not> utf8_cont c"
  by (simp_all add: digit_char_def)

lemma hex_digit_char: "n < 16 \<Longrightarrow> digit_char (of_nat (of_char (hex_digit n))) n"
proof -
  have "list_all (\<lambda>n. digit_char (of_nat (of_char (hex_digit n))) n) [0..<16]" by code_simp
  then show "n < 16 \<Longrightarrow> digit_char (of_nat (of_char (hex_digit n))) n" by (simp add: list_all_iff)
qed

lemma decimal_digit_char: "n < 10 \<Longrightarrow> digit_char (48 + of_nat n) n"
proof -
  have "list_all (\<lambda>n. digit_char (48 + of_nat n) n) [0..<10]" by code_simp
  then show "n < 10 \<Longrightarrow> digit_char (48 + of_nat n) n" by (simp add: list_all_iff)
qed

lemma ascii_simps [simp]:
  "ascii [] = []" "ascii (c # cs) = of_nat (of_char c) # ascii cs" "ascii (cs @ ds) = ascii cs @ ascii ds"
  by (simp_all add: ascii_def)

lemma from_hex_byte:
  assumes "digit_char a m" and "digit_char b n" and "m < 16" and "n < 16"
  shows "from_str_radix 16 256 [a, b] = Inr (16 * m + n)"
  using digit_charD [OF assms(1)] digit_charD [OF assms(2)] assms(3,4) by (simp add: from_str_radix_def)

lemma nibbles: "unat (b :: u8) div 16 < 16" "unat b mod 16 < 16"
proof -
  have "unat b < 256" by (rule less_le_trans [OF unsigned_less]) simp
  then show "unat b div 16 < 16" "unat b mod 16 < 16" by (simp_all add: less_mult_imp_div_less)
qed

lemma even_hex: "even (length (ascii (hex bs)))"
  by (induction bs) (simp_all add: hex_def hex_byte_def)

lemma unhex_hex: "unhex (ascii (hex bs)) = Some (Inr bs)"
proof -
  have first: "case ascii (hex bs) of [] \<Rightarrow> True | c # _ \<Rightarrow> \<not> utf8_cont c" for bs
    by (cases bs) (simp_all add: hex_def hex_byte_def digit_charD(5) [OF hex_digit_char [OF nibbles(1)]])
  have "unhex_loop (ascii (hex bs)) = Some (Inr bs)"
  proof (induction bs)
    case (Cons b bs)
    have "of_nat (16 * (unat b div 16) + unat b mod 16) = b" by simp
    then show ?case
      using Cons first [of bs] from_hex_byte [OF hex_digit_char hex_digit_char nibbles [of b]] nibbles [of b]
        digit_charD(5) [OF hex_digit_char [OF nibbles(1) [of b]]]
      by (simp add: hex_def hex_byte_def split: list.splits)
  qed (simp add: hex_def)
  with even_hex [of bs] show ?thesis by (simp add: unhex_def)
qed

lemma hex_plain: "list_all plain_byte (ascii (hex bs))"
proof (induction bs)
  case (Cons b bs)
  then show ?case
    using nibbles [of b, THEN hex_digit_char, THEN digit_charD(2)] by (simp add: hex_def hex_byte_def)
qed (simp add: hex_def)

lemma parse_digits_append:
  "parse_digits r b acc (xs @ ys) = res_bind (parse_digits r b acc xs) (\<lambda>acc. parse_digits r b acc ys)"
  by (induction xs arbitrary: acc) (auto split: option.splits)

lemma parse_decimal: "n < b \<Longrightarrow> parse_digits 10 b 0 (ascii (decimal n)) = Inr n"
proof (induction n rule: decimal.induct)
  case (1 n)
  show ?case
  proof (cases "n < 10")
    case True
    with 1(2) show ?thesis
      by (subst decimal.simps) (simp add: digit_charD(1) [OF decimal_digit_char])
  next
    case False
    with 1 have "parse_digits 10 b 0 (ascii (decimal (n div 10))) = Inr (n div 10)" by simp
    with 1(2) False show ?thesis
      by (subst decimal.simps) (simp add: parse_digits_append digit_charD(1) [OF decimal_digit_char])
  qed
qed

lemma decimal_chars:
  "list_all plain_byte (ascii (decimal n)) \<and> decimal n \<noteq> [] \<and> hd (ascii (decimal n)) \<noteq> 43 \<and> hd (ascii (decimal n)) \<noteq> 45"
proof (induction n rule: decimal.induct)
  case (1 n)
  show ?case
  proof (cases "n < 10")
    case True
    with digit_charD(2-4) [OF decimal_digit_char] show ?thesis by (subst (1 2 3 4) decimal.simps) simp
  next
    case False
    with 1 digit_charD(2) [OF decimal_digit_char, of "n mod 10"] show ?thesis
      by (subst (1 2 3 4) decimal.simps) (auto simp: ascii_def hd_append)
  qed
qed

lemma from_decimal: "n < b \<Longrightarrow> from_str_radix 10 b (ascii (decimal n)) = Inr n"
  using parse_decimal [of n b] decimal_chars [of n]
  by (cases "ascii (decimal n)") (auto simp: from_str_radix_def ascii_def)

lemma parse_job_line:
  assumes "list_all plain_byte (jb_key_path j)" and "jb_key_path j \<noteq> []"
    and "length (jb_session_id j) = 16" and "length (jb_salt j) = 32" and "length (jb_nonce j) = 24"
  shows "parse_job (job_line j) = Some (Inr j)"
proof -
  have ne: "ascii (hex bs) \<noteq> []" if "bs \<noteq> []" for bs using that by (cases bs) (simp_all add: hex_def hex_byte_def)
  have dash: "list_all plain_byte (ascii (hex_or_dash bs)) \<and> ascii (hex_or_dash bs) \<noteq> []" for bs
    using hex_plain [of bs] ne [of bs] by (simp add: hex_or_dash_def plain_byte_def)
  have dec: "list_all plain_byte (ascii (decimal n))" "ascii (decimal n) \<noteq> []" for n
    using decimal_chars [of n] by (auto simp: ascii_def)
  have fs: "split_whitespace (job_line j) = [jb_key_path j, ascii (hex (jb_session_id j)), ascii (hex (jb_salt j)),
      ascii (hex (jb_nonce j)), ascii (decimal (unat (jb_symbol_size j))), ascii (decimal (unat (jb_block_count j))),
      ascii (decimal (unat (jb_source j))), ascii (decimal (unat (jb_total j))), ascii (hex_or_dash (jb_payload j))]"
  proof -
    have "jb_session_id j \<noteq> []" "jb_salt j \<noteq> []" "jb_nonce j \<noteq> []" using assms(3-5) by auto
    with assms(1,2) dash show ?thesis by (simp add: job_line_def split_field ne dec hex_plain)
  qed
  have fixed: "fixed n (ascii (hex bs)) what = Some (Inr bs)" if "length bs = n" for n bs what
    using that by (simp add: fixed_def unhex_hex)
  have num: "parse_u32 (ascii (decimal (unat w))) msg = Some (Inr w)" for w msg
  proof -
    have "unat w < 2 ^ 32" by (rule less_le_trans [OF unsigned_less]) simp
    from from_decimal [OF this] show ?thesis by (simp add: parse_u32_def)
  qed
  have pay: "parse_payload (ascii (hex_or_dash bs)) = Some (Inr bs)" for bs
    using even_hex [of bs] by (auto simp: parse_payload_def hex_or_dash_def unhex_hex)
  show ?thesis
    unfolding parse_job_def fs using assms by (simp add: fixed num pay job_bind_def)
qed

text \<open>The instance of \<open>Ffi_Contract\<close> as a job.\<close>

definition demo_job :: Job where
  "demo_job = \<lparr>jb_key_path = [107], jb_session_id = replicate 16 7, jb_salt = replicate 32 2, jb_nonce = replicate 24 3,
     jb_symbol_size = 64, jb_block_count = 1, jb_source = 1, jb_total = 4, jb_payload = [5, 6]\<rparr>"

definition demo_files :: files where
  "demo_files = [path_of [107] \<mapsto> (0x180, encode_key_file demo_h KindOperator (replicate 32 6))]"

lemma demo_line_parses: "parse_job (job_line demo_job) = Some (Inr demo_job)"
  by (rule parse_job_line) (simp_all add: demo_job_def plain_byte_def)

lemma demo_key_loads:
  "load_operator demo_h seed_only_ed25519 permissive_os (path_of [107]) demo_files = Inr \<lparr>ok_bytes = replicate 32 6\<rparr>"
proof -
  have "decode_key_file demo_h (encode_key_file demo_h KindOperator (replicate 32 6)) = Inr (KindOperator, replicate 32 6)"
    by (subst decode_key_file_iff) (simp_all add: hash_32_def)
  moreover have "os_allows permissive_os (path_of [107])" by (simp add: os_allows_def permissive_os_def)
  ultimately show ?thesis
    using owner_only_readable [of permissive_os "path_of [107]" demo_files]
    by (simp add: load_operator_def load_secret_def demo_files_def)
qed

lemma demo_encodes:
  obtains p d frames where
    "session_ok whole_block_code demo_kh (replicate 16 7) (replicate 32 0) (small_session demo_h demo_ct) demo_ct p d"
    "encode_to_bytes whole_block_code demo_kh p demo_ct = Inr frames" "length frames < 2 ^ 31"
    "run_encode whole_block_code demo_kh demo_h tagging_cipher seed_only_ed25519 permissive_os demo_files demo_job =
       Inr (\<lparr>tk_payload_key = replicate 32 0, tk_session_key = replicate 32 0\<rparr>, small_session demo_h demo_ct, frames)"
proof -
  obtain p d frames where
    ok: "session_ok whole_block_code demo_kh (replicate 16 7) (replicate 32 0) (small_session demo_h demo_ct) demo_ct p d"
    and enc: "encode_to_bytes whole_block_code demo_kh p demo_ct = Inr frames"
    by (rule demo_session)
  have "length (block_frames whole_block_code demo_kh sid key params payload i) \<le> 1" for sid key params payload i
    by (simp add: block_frames_def block_packets_def whole_block_code_def Let_def)
  moreover have "length (interleave cs) = length (concat cs)" for cs :: "Frame list list"
    by (rule mset_eq_length [OF mset_interleave])
  ultimately have "length frames \<le> 1"
    using enc encode_session [OF ok] by (auto simp: small_session_def)
  moreover have par: "\<lparr>sp_payload_size = of_nat (length demo_ct), sp_block_count = 1, sp_symbol_size = 64,
      sp_source_symbols_per_block = 1, sp_total_symbols_per_block = 4, sp_raptorq = \<lparr>rq_z = 1, rq_n = 1, rq_psi = 1\<rparr>,
      sp_payload_digest = blake3_digest demo_h demo_ct\<rparr> = small_session demo_h demo_ct"
    by (simp add: small_session_def blake3_digest_def)
  have "pipeline_new (replicate 16 7) (small_session demo_h demo_ct) (replicate 32 0) = Inr p"
    using ok by (simp add: session_ok_def)
  then have "run_encode whole_block_code demo_kh demo_h tagging_cipher seed_only_ed25519 permissive_os demo_files demo_job =
       Inr (\<lparr>tk_payload_key = replicate 32 0, tk_session_key = replicate 32 0\<rparr>, small_session demo_h demo_ct, frames)"
    using demo_key_loads demo_facts(2,3) enc by (simp add: run_encode_def demo_job_def par)
  ultimately show ?thesis using ok enc that by force
qed

theorem interface_agrees_with_reference_witness:
  "\<exists>r L'. run_job whole_block_code demo_kh demo_h tagging_cipher seed_only_ed25519 permissive_os demo_files (job_line demo_job) =
       Some (Inr r) \<and> jr_decoded r = [5, 6] \<and>
     interface_job whole_block_code demo_kh demo_h tagging_cipher seed_only_ed25519 permissive_os demo_job
       (library_new demo_files) = Returns (Some r) L'"
proof -
  obtain p d frames where
    ok: "session_ok whole_block_code demo_kh (replicate 16 7) (replicate 32 0) (small_session demo_h demo_ct) demo_ct p d"
    and enc: "encode_to_bytes whole_block_code demo_kh p demo_ct = Inr frames" and n: "length frames < 2 ^ 31"
    and run: "run_encode whole_block_code demo_kh demo_h tagging_cipher seed_only_ed25519 permissive_os demo_files demo_job =
       Inr (\<lparr>tk_payload_key = replicate 32 0, tk_session_key = replicate 32 0\<rparr>, small_session demo_h demo_ct, frames)"
    by (rule demo_encodes)
  have "decoder_finish demo_h (receive whole_block_code demo_kh d frames) = Inr demo_ct"
    by (rule delivered [OF ok _ enc _ all_frames_suffice [OF ok enc order_refl]])
      (simp_all add: small_session_def blake3_digest_def session_stream_def)
  moreover have "decoder_new whole_block_code (replicate 16 7) (small_session demo_h demo_ct) (replicate 32 0) = Inr d"
    using ok by (simp add: session_ok_def)
  moreover have "receive_run whole_block_code demo_kh d frames = Some (receive whole_block_code demo_kh d frames)"
    by (rule stream_quiet [OF ok enc whole_block_code_takes]) (simp add: session_stream_def)
  ultimately obtain r where r: "run_decode whole_block_code demo_kh demo_h tagging_cipher demo_job
      (\<lparr>tk_payload_key = replicate 32 0, tk_session_key = replicate 32 0\<rparr>, small_session demo_h demo_ct, frames) =
      Some (Inr r)"
    "jr_decoded r = [5, 6]"
    using decrypt_encrypt(2) [OF tagging_cipher_correct demo_facts(3)] by (simp add: run_decode_def job_bind_def demo_job_def)
  then have job: "run_job whole_block_code demo_kh demo_h tagging_cipher seed_only_ed25519 permissive_os demo_files
      (job_line demo_job) = Some (Inr r)"
    by (simp add: run_job_def job_bind_def demo_line_parses run)
  have L: "library_ok (\<lambda>_. True) (library_new demo_files :: (bytes, bytes, bytes option) library)"
    "lib_files (library_new demo_files :: (bytes, bytes, bytes option) library) = demo_files"
    by (simp_all add: library_ok_def library_new_def)
  have path: "jb_key_path demo_job = [107]" by (simp add: demo_job_def)
  have "\<exists>L'. interface_job whole_block_code demo_kh demo_h tagging_cipher seed_only_ed25519 permissive_os demo_job
       (library_new demo_files) = Returns (Some r) L'"
    using interface_agrees_with_reference [OF tagging_cipher_correct L(1) demo_line_parses, of whole_block_code demo_kh
        demo_h seed_only_ed25519 permissive_os "Inr r", unfolded L(2)] run n path job
    by (simp add: utf8_valid.simps)
  with job r(2) show ?thesis by blast
qed

end
