(* ===== verification/Ffi_Manifest_Contract.thy ===== *)
theory Ffi_Manifest_Contract
  imports Ffi_Invariant
begin

text \<open>
  A manifest through the C interface: what \<open>dhow_manifest_build\<close> makes of the caller's file list, and
  that \<open>dhow_manifest_verify\<close> on the receiving side accepts it.
\<close>

section \<open>The caller's file list\<close>

text \<open>An entry the interface accepts, and the entry of the manifest it becomes.\<close>

definition entry_name :: "DhowFileEntry \<Rightarrow> bytes" where
  "entry_name e = (case df_name e of None \<Rightarrow> [] | Some mem \<Rightarrow> takeWhile (\<lambda>b. b \<noteq> 0) mem)"

definition entry_accepted :: "DhowFileEntry \<Rightarrow> bool" where
  "entry_accepted e \<longleftrightarrow> (case df_name e of None \<Rightarrow> False | Some mem \<Rightarrow> 0 \<in> set mem) \<and>
     name_ok (entry_name e) \<and> df_reserved e = replicate 7 0 \<and> length (df_digest e) = 32"

definition entry_of :: "DhowFileEntry \<Rightarrow> FileEntry" where
  "entry_of e = file_entry_with_mode (entry_name e) (df_size e) (df_digest e) (df_executable e \<noteq> 0)"

lemma entry_of_fields [simp]:
  "fe_name (entry_of e) = entry_name e" "fe_size (entry_of e) = df_size e"
  "fe_digest (entry_of e) = df_digest e"
  by (simp_all add: entry_of_def file_entry_with_mode_def)

lemma entries_loop_accepts:
  "list_all entry_accepted raw \<Longrightarrow> entries_loop i raw L = Returns (Inr (map entry_of raw)) L"
proof (induction i raw rule: entries_loop.induct)
  case (2 i e raw)
  then obtain mem where mem: "df_name e = Some mem" "0 \<in> set mem"
    by (auto simp: entry_accepted_def split: option.splits)
  from 2(2) have ok: "name_ok (entry_name e)" "df_reserved e = replicate 7 0" "list_all entry_accepted raw"
    by (auto simp: entry_accepted_def [of e])
  with mem have n: "utf8_valid (takeWhile (\<lambda>b. b \<noteq> 0) mem)"
    "validate_name (takeWhile (\<lambda>b. b \<noteq> 0) mem) = Inr ()"
    by (simp_all add: entry_name_def name_ok_def)
  have IH: "entries_loop (Suc i) raw L = Returns (Inr (map entry_of raw)) L"
    using 2(1) [OF mem(1) _ _ n(2)] ok n by simp
  show ?case using mem ok n IH by (simp add: c_string_def entry_of_def entry_name_def)
qed simp

lemma entries_from_accepts:
  "list_all entry_accepted raw \<Longrightarrow>
   entries_from (Some raw) (length raw) L = Returns (Inr (map entry_of raw)) L"
  by (simp add: entries_from_def entries_loop_accepts)

section \<open>Sizes\<close>

lemma u64_bound: "unat (w :: u64) < 18446744073709551616"
  by (rule less_le_trans [OF unsigned_less]) simp

lemma unat_add_small:
  "unat (a :: u64) + unat b < 2 ^ 64 \<Longrightarrow> unat (a + b) = unat a + unat b"
  by (simp add: unat_word_ariths)

lemma check_entries_complete:
  assumes "\<And>e. e \<in> set es \<Longrightarrow> validate_name (fe_name e) = Inr () \<and> fe_size e \<le> po_max_file_size policy"
    and "unat s + sum_list (map (\<lambda>e. unat (fe_size e)) es) = unat t"
  shows "check_entries policy s es = Inr t"
  using assms
proof (induction es arbitrary: s)
  case Nil
  then show ?case by (simp add: word_unat_eq_iff)
next
  case (Cons e es)
  have lt: "unat s + unat (fe_size e) < 2 ^ 64"
    using Cons.prems(2) u64_bound [of t] by simp
  with Cons.prems(2) have "unat (s + fe_size e) + sum_list (map (\<lambda>e. unat (fe_size e)) es) = unat t"
    by (simp add: unat_add_small)
  from Cons.IH [OF _ this] Cons.prems(1) lt show ?case
    by (auto simp: checked_add_def not_less)
qed

section \<open>Building and verifying\<close>

text \<open>The manifest \<open>dhow_manifest_build\<close> signs.\<close>

definition unsigned_manifest ::
  "bytes \<Rightarrow> bytes \<Rightarrow> bytes \<Rightarrow> DhowSessionParams \<Rightarrow> u64 \<Rightarrow> DhowFileEntry list \<Rightarrow> Manifest" where
  "unsigned_manifest sid salt nonce params total_size raw =
     manifest_build (manifest_header_new sid (map entry_of raw) total_size salt nonce (to_session_params params))
       (map entry_of raw) (replicate 64 0)"

lemma unsigned_manifest_wf:
  assumes "length sid = 16" and "length salt = 32" and "length nonce = 24"
    and "length (dp_payload_digest params) = 32" and "length raw \<le> unat MAX_FILE_COUNT"
    and "list_all entry_accepted raw"
  shows "manifest_wf (unsigned_manifest sid salt nonce params total_size raw)"
proof -
  have n: "unat (of_nat (length raw) :: u32) = length raw"
    using assms(5) by (intro unat_of_nat_lt) (simp add: MAX_FILE_COUNT_def)
  have "list_all file_entry_wf (map entry_of raw)"
    using assms(6) by (auto simp: list_all_iff file_entry_wf_def entry_accepted_def)
  with assms n show ?thesis
    by (simp add: unsigned_manifest_def manifest_wf_def manifest_build_def manifest_header_new_def
        manifest_header_wf_def set_signature_def session_params_wf_def to_session_params_def
        word_le_nat_alt Let_def)
qed

lemma manifest_build_live:
  assumes E: "ed25519_signs E" and i: "lib_heap L i = Some (BoxIdentity k)" "i \<noteq> 0"
    and len: "length sid = 16" "length salt = 32" "length nonce = 24"
    and raw: "list_all entry_accepted raw"
    and tot: "sum_words checks 0 (map df_size raw) = Some total_size"
    and wf: "manifest_wf (unsigned_manifest sid salt nonce params total_size raw)"
    and m: "m = unsigned_manifest sid salt nonce params total_size raw"
    and sm: "signed_m = m\<lparr>mf_header := set_signature (mf_header m) (identity_sign E (di_inner k) (signing_bytes m))\<rparr>"
  shows "dhow_manifest_build E checks i (Some sid) (Some salt) (Some nonce) params (Some raw) (length raw) L =
    Returns (lib_next L) (L\<lparr>lib_last_error := text_message '''',
      lib_heap := (lib_heap L)(lib_next L \<mapsto> BoxManifest \<lparr>dm_manifest = signed_m,
        dm_bytes = sign_manifest E (di_inner k) m\<rparr>), lib_next := Suc (lib_next L)\<rparr>)"
proof -
  have "verify_signature E (identity_public E (di_inner k)) (sign_manifest E (di_inner k) m) = Inr signed_m"
    unfolding sm using sign_then_verify [OF E] wf m by blast
  then have p: "manifest_from_bytes (sign_manifest E (di_inner k) m) = Inr signed_m"
    by (simp add: verify_signature_iff manifest_parse_iff)
  have t: "sum_words checks 0 (map fe_size (map entry_of raw)) = Some total_size"
    using tot by (simp add: comp_def)
  show ?thesis
    unfolding dhow_manifest_build_def using i p raw t
    by (intro guards_return) (simp add: len entries_from_accepts deref_live Let_def
        m [unfolded unsigned_manifest_def, symmetric] into_raw_def del: map_map)
qed

text \<open>C15: a manifest built through the C interface verifies at the receiver. For any identity handle
  and any list of at most a million accepted entries within the receiver's size limits,
  \<open>dhow_manifest_build\<close> returns a handle, with or without overflow checks; and its bytes, given to
  \<open>dhow_manifest_verify\<close> with the public identity and the session, give the receiver a handle to the
  same manifest, which carries the session's identifier, salt, nonce and parameters and exactly the
  caller's names, sizes, digests and executable bits, in order.\<close>

theorem manifest_handle_roundtrip:
  assumes "ed25519_signs E" and "lib_heap Ls i = Some (BoxIdentity k)" "i \<noteq> 0"
    and "lib_heap Lr u = Some (BoxPublic \<lparr>du_inner = identity_public E (di_inner k)\<rparr>)" "u \<noteq> 0"
    and "length sid = 16" "length salt = 32" "length nonce = 24" "length (dp_payload_digest params) = 32"
    and "session_params_validate (to_session_params params) = Inr ()"
    and "length raw \<le> unat MAX_FILE_COUNT" and "list_all entry_accepted raw"
    and "\<And>e. e \<in> set raw \<Longrightarrow> df_size e \<le> po_max_file_size policy_default"
    and "sum_list (map (\<lambda>e. unat (df_size e)) raw) \<le> unat (po_max_total_size policy_default)"
  shows "\<exists>dm Ls' Lr'.
     dhow_manifest_build E checks i (Some sid) (Some salt) (Some nonce) params (Some raw) (length raw) Ls =
       Returns (lib_next Ls) Ls' \<and> lib_heap Ls' (lib_next Ls) = Some (BoxManifest dm) \<and>
     dhow_manifest_verify E u (Some (dm_bytes dm)) (length (dm_bytes dm)) (Some sid) Lr =
       Returns (lib_next Lr) Lr' \<and> lib_heap Lr' (lib_next Lr) = Some (BoxManifest dm) \<and>
     mf_entries (dm_manifest dm) = map entry_of raw \<and>
     (let h = mf_header (dm_manifest dm) in mh_session_id h = sid \<and> mh_salt h = salt \<and>
        mh_nonce h = nonce \<and> mh_params h = to_session_params params)"
proof -
  have lt: "unat (0 :: u64) + sum_list (map unat (map df_size raw)) < 2 ^ LENGTH(64)"
    using assms(14) u64_bound [of "po_max_total_size policy_default"] by (simp add: comp_def)
  from sum_words_exact [OF lt] obtain total_size where
    tot: "sum_words checks 0 (map df_size raw) = Some total_size"
    and t: "unat total_size = sum_list (map (\<lambda>e. unat (df_size e)) raw)"
    by (auto simp: comp_def)
  let ?m = "unsigned_manifest sid salt nonce params total_size raw"
  let ?s = "?m\<lparr>mf_header := set_signature (mf_header ?m) (identity_sign E (di_inner k) (signing_bytes ?m))\<rparr>"
  let ?bs = "sign_manifest E (di_inner k) ?m"
  have wf: "manifest_wf ?m" by (rule unsigned_manifest_wf [OF assms(6-9,11,12)])
  note build = manifest_build_live [OF assms(1-3,6-8,12) tot wf refl refl]
  note ver = sign_then_verify [OF assms(1) wf, of "di_inner k"]
  have f: "mf_entries ?s = map entry_of raw" "mh_session_id (mf_header ?s) = sid"
    "mh_salt (mf_header ?s) = salt" "mh_nonce (mf_header ?s) = nonce"
    "mh_params (mf_header ?s) = to_session_params params" "mh_total_size (mf_header ?s) = total_size"
    "mh_file_count (mf_header ?s) = of_nat (length raw)"
    by (simp_all add: unsigned_manifest_def manifest_build_def manifest_header_new_def set_signature_def Let_def)
  have n: "unat (of_nat (length raw) :: u32) = length raw"
    using assms(11) by (intro unat_of_nat_lt) (simp add: MAX_FILE_COUNT_def)
  have "check_entries policy_default 0 (map entry_of raw) = Inr total_size"
    using assms(12,13) t
    by (intro check_entries_complete) (auto simp: list_all_iff entry_accepted_def name_ok_def comp_def)
  then have pol: "check_policy ?s policy_default = Inr ()"
    unfolding check_policy_def Let_def f using assms(10,11,14) t n
    by (simp add: not_less word_le_nat_alt policy_default_def)
  have v: "verify_manifest_with E (identity_public E (di_inner k)) ?bs (Some sid) policy_default =
      Inr \<lparr>vm_manifest = ?s, vm_signer = identity_public E (di_inner k)\<rparr>"
    using ver pol f(2) by (simp add: verify_manifest_with_def)
  have "dhow_manifest_verify E u (Some ?bs) (length ?bs) (Some sid) Lr = Returns (lib_next Lr)
      (Lr\<lparr>lib_last_error := text_message '''', lib_heap := (lib_heap Lr)(lib_next Lr \<mapsto>
         BoxManifest \<lparr>dm_manifest = ?s, dm_bytes = ?bs\<rparr>), lib_next := Suc (lib_next Lr)\<rparr>)"
    using assms(4-6) v unfolding dhow_manifest_verify_def
    by (intro guards_return) (simp add: deref_live into_raw_def)
  with build f(1-5) show ?thesis
    by (intro exI [of _ "\<lparr>dm_manifest = ?s, dm_bytes = ?bs\<rparr>"]) (simp add: Let_def)
qed

theorem manifest_handle_roundtrip_witness:
  "\<exists>dm Ls' Lr'. \<exists>Lr :: (bytes, bytes, unit) library.
     dhow_manifest_build seed_only_ed25519 True 1 (Some (replicate 16 1)) (Some (replicate 32 2))
       (Some (replicate 24 3)) \<lparr>dp_payload_size = 64, dp_block_count = 1, dp_symbol_size = 64,
         dp_source_symbols_per_block = 1, dp_total_symbols_per_block = 2, dp_payload_digest = replicate 32 9\<rparr>
       (Some [\<lparr>df_name = Some [0x61, 0x2F, 0x62, 0, 7], df_size = 5, df_digest = replicate 32 4,
         df_executable = 1, df_reserved = replicate 7 0\<rparr>]) 1
       \<lparr>lib_heap = [1 \<mapsto> BoxIdentity \<lparr>di_inner = \<lparr>ik_signing = [1]\<rparr>\<rparr>], lib_next = 2,
         lib_last_error = text_message '''', lib_files = \<lambda>_. None\<rparr> = Returns 2 (Ls' :: (bytes, bytes, unit) library) \<and>
     lib_heap Ls' 2 = Some (BoxManifest dm) \<and>
     dhow_manifest_verify seed_only_ed25519 1 (Some (dm_bytes dm)) (length (dm_bytes dm))
       (Some (replicate 16 1)) Lr = Returns 2 Lr' \<and> lib_heap Lr' 2 = Some (BoxManifest dm) \<and>
     map fe_name (mf_entries (dm_manifest dm)) = [[0x61, 0x2F, 0x62]]"
proof -
  let ?E = seed_only_ed25519 and ?k = "\<lparr>di_inner = \<lparr>ik_signing = [1]\<rparr>\<rparr> :: bytes DhowIdentity"
  let ?e = "\<lparr>df_name = Some [0x61, 0x2F, 0x62, 0, 7], df_size = 5, df_digest = replicate 32 4,
         df_executable = 1, df_reserved = replicate 7 0\<rparr>"
  let ?p = "\<lparr>dp_payload_size = 64, dp_block_count = 1, dp_symbol_size = 64,
         dp_source_symbols_per_block = 1, dp_total_symbols_per_block = 2, dp_payload_digest = replicate 32 9\<rparr>"
  let ?lib = "\<lambda>b. \<lparr>lib_heap = [1 \<mapsto> b], lib_next = 2, lib_last_error = text_message '''', lib_files = \<lambda>_. None\<rparr>
      :: (bytes, bytes, unit) library"
  have nm: "entry_name ?e = [0x61, 0x2F, 0x62]" by (simp add: entry_name_def)
  have "name_ok [0x61, 0x2F, 0x62]" by code_simp
  then have acc: "list_all entry_accepted [?e]" by (simp add: entry_accepted_def nm)
  have par: "session_params_validate (to_session_params ?p) = Inr ()"
    by (simp add: session_params_validate_def to_session_params_def)
  from manifest_handle_roundtrip [OF seed_only_signs, of "?lib (BoxIdentity ?k)" 1 ?k
      "?lib (BoxPublic \<lparr>du_inner = identity_public ?E (di_inner ?k)\<rparr>)" 1 "replicate 16 1" "replicate 32 2"
      "replicate 24 3" ?p "[?e]" True] acc par
  obtain dm Ls' Lr' where r: "dhow_manifest_build ?E True 1 (Some (replicate 16 1)) (Some (replicate 32 2))
        (Some (replicate 24 3)) ?p (Some [?e]) (length [?e]) (?lib (BoxIdentity ?k)) = Returns 2 Ls'"
      "lib_heap Ls' 2 = Some (BoxManifest dm)"
      "dhow_manifest_verify ?E 1 (Some (dm_bytes dm)) (length (dm_bytes dm)) (Some (replicate 16 1))
        (?lib (BoxPublic \<lparr>du_inner = identity_public ?E (di_inner ?k)\<rparr>)) = Returns 2 Lr'"
      "lib_heap Lr' 2 = Some (BoxManifest dm)" "mf_entries (dm_manifest dm) = map entry_of [?e]"
    by (auto simp: MAX_FILE_COUNT_def policy_default_def)
  from r(5) have "map fe_name (mf_entries (dm_manifest dm)) = [[0x61, 0x2F, 0x62]]" by (simp add: nm)
  with r(1-4) show ?thesis by (intro exI [of _ dm] exI) (auto simp: nm)
qed

end
