(* ===== verification/Fuzz_Targets.thy ===== *)
theory Fuzz_Targets
  imports Parser_Runs
begin

text \<open>
  The fuzz targets of \<open>src/fuzz/fuzz_targets\<close>, each as the run of its body on the fuzzer's bytes: an
  assertion that fails and a panic of the code under test are both a panic of the run. A fuzzer
  tries inputs; the theorems here say that no input makes a target fail, with one exception that
  \<^const>\<open>resume_file_from_bytes_run\<close> explains. The targets call the panicking parsers of \<open>Parser_Runs\<close>.
\<close>

section \<open>The targets\<close>

subsection \<open>frame\_decode\<close>

definition FUZZ_SESSION_KEY :: bytes where "FUZZ_SESSION_KEY = replicate 32 0x5A"

definition frame_to_vec_run :: "bool \<Rightarrow> Frame \<Rightarrow> bytes run" where
  "frame_to_vec_run checks f = do {
     buf \<leftarrow> frame_header_to_vec_run checks (fr_header f);
     Some (buf @ fr_payload f)
   }"

definition check_frame :: "bool \<Rightarrow> Frame \<Rightarrow> unit run" where
  "check_frame checks frame = do {
     assert_that (length (fr_payload frame) = unat (fh_payload_length (fr_header frame)));
     bytes \<leftarrow> frame_to_vec_run checks frame;
     assert_that (length bytes = FRAME_HEADER_SIZE + length (fr_payload frame))
   }"

definition frame_decode_header :: "bool \<Rightarrow> bytes \<Rightarrow> unit run" where
  "frame_decode_header checks data = do {
     parsed \<leftarrow> frame_header_from_bytes_run data;
     case parsed of Inl _ \<Rightarrow> Some () | Inr header \<Rightarrow> do {
       round_tripped \<leftarrow> frame_header_to_vec_run checks header;
       assert_that (length round_tripped = FRAME_HEADER_SIZE);
       prefix \<leftarrow> range_at 0 FRAME_HEADER_SIZE data;
       assert_that (round_tripped = prefix);
       parsed_again \<leftarrow> frame_header_from_bytes_run data;
       again \<leftarrow> expect parsed_again;
       again_bytes \<leftarrow> frame_header_to_vec_run checks again;
       assert_that (again_bytes = round_tripped)
     }
   }"

definition frame_decode_whole :: "bool \<Rightarrow> (bytes \<Rightarrow> bytes \<Rightarrow> bytes) \<Rightarrow> bytes \<Rightarrow> unit run" where
  "frame_decode_whole checks kh data = do {
     parsed \<leftarrow> frame_from_bytes_run kh data FUZZ_SESSION_KEY;
     case parsed of Inl _ \<Rightarrow> Some () | Inr frame \<Rightarrow> check_frame checks frame
   }"

definition frame_decode_repaired :: "bool \<Rightarrow> (bytes \<Rightarrow> bytes \<Rightarrow> bytes) \<Rightarrow> bytes \<Rightarrow> unit run" where
  "frame_decode_repaired checks kh data =
     (if FRAME_HEADER_SIZE \<le> length data then do {
        head \<leftarrow> range_at 0 FRAME_HEADER_SIZE data;
        rest \<leftarrow> tail_at FRAME_HEADER_SIZE data;
        parsed \<leftarrow> frame_header_from_bytes_run head;
        case parsed of Inl _ \<Rightarrow> Some () | Inr header \<Rightarrow> do {
          body \<leftarrow> range_at 0 (min (length rest) (unat MAX_PAYLOAD_LEN)) rest;
          fresh \<leftarrow> frame_header_new (fh_frame_type header) (fh_session_id header) (fh_block_index header)
            (fh_symbol_index header) body;
          let repaired = set_mac fresh (compute_mac kh fresh FUZZ_SESSION_KEY);
          header_bytes \<leftarrow> frame_header_to_vec_run checks repaired;
          result \<leftarrow> frame_from_bytes_run kh (header_bytes @ body) FUZZ_SESSION_KEY;
          frame \<leftarrow> expect result;
          check_frame checks frame;
          assert_that (fr_payload frame = body)
        }
      }
      else Some ())"

definition frame_decode :: "bool \<Rightarrow> (bytes \<Rightarrow> bytes \<Rightarrow> bytes) \<Rightarrow> bytes \<Rightarrow> unit run" where
  "frame_decode checks kh data = do {
     frame_decode_header checks data;
     frame_decode_whole checks kh data;
     frame_decode_repaired checks kh data
   }"

subsection \<open>session\_header\<close>

definition session_header_target :: "bool \<Rightarrow> bytes \<Rightarrow> unit run" where
  "session_header_target checks data = do {
     parsed \<leftarrow> session_header_from_bytes_run data;
     case parsed of Inl _ \<Rightarrow> Some () | Inr header \<Rightarrow> do {
       round_tripped \<leftarrow> session_header_to_vec_run checks header;
       assert_that (length round_tripped = SESSION_HEADER_SIZE);
       prefix \<leftarrow> range_at 0 SESSION_HEADER_SIZE data;
       assert_that (round_tripped = prefix);
       let params = sh_params header;
       if is_ok (session_params_validate params) then do {
         assert_that (sp_block_count params > 0);
         assert_that (sp_symbol_size params > 0);
         assert_that (sp_total_symbols_per_block params \<ge> sp_source_symbols_per_block params)
       }
       else Some ()
     }
   }"

subsection \<open>manifest\_entry\<close>

definition manifest_entry :: "bytes \<Rightarrow> unit run" where
  "manifest_entry data = do {
     parsed \<leftarrow> file_entry_from_bytes_run data;
     case parsed of Inl _ \<Rightarrow> Some () | Inr (entry, consumed) \<Rightarrow> do {
       let name = fe_name entry;
       assert_that (consumed \<le> length data);
       assert_that (consumed = 43 + length name);
       assert_that (name \<noteq> []);
       assert_that (length name \<le> MAX_NAME_LEN);
       assert_that (\<not> (name \<noteq> [] \<and> hd name = 0x2F));
       assert_that (0x5C \<notin> set name);
       assert_that (0 \<notin> set name);
       assert_that (\<not> second_char_is 0x3A name);
       assert_that ([0x2E, 0x2E] \<notin> set (split_on 0x2F name));
       prefix \<leftarrow> range_at 0 consumed data;
       assert_that (file_entry_to_vec entry = prefix);
       assert_that (file_entry_flags entry AND NOT 1 = 0)
     }
   }"

subsection \<open>manifest\_verify\<close>

definition fuzz_signer :: "('sk, 'vk) ed25519 \<Rightarrow> 'sk IdentityKey" where
  "fuzz_signer E = identity_from_seed E (replicate 32 0x42)"

definition manifest_verify_parse :: "bool \<Rightarrow> bytes \<Rightarrow> unit run" where
  "manifest_verify_parse checks data = do {
     parsed \<leftarrow> manifest_from_bytes_run checks data;
     case parsed of Inl _ \<Rightarrow> Some () | Inr manifest \<Rightarrow> do {
       assert_that (length (mf_entries manifest) = unat (mh_file_count (mf_header manifest)));
       serialized \<leftarrow> manifest_to_vec_run checks manifest;
       assert_that (length serialized \<ge> MANIFEST_HEADER_SIZE);
       assert_that (length serialized = length data);
       assert_that (serialized = data);
       signing \<leftarrow> signing_bytes_run checks manifest;
       assert_that (length signing = length serialized)
     }
   }"

definition manifest_verify_signed :: "bool \<Rightarrow> ('sk, 'vk) ed25519 \<Rightarrow> bytes \<Rightarrow> unit run" where
  "manifest_verify_signed checks E data = do {
     let public = identity_public E (fuzz_signer E);
     result \<leftarrow> verify_manifest_with_run checks E public data None policy_default;
     case result of Inl _ \<Rightarrow> Some () | Inr verified \<Rightarrow> do {
       signing_result \<leftarrow> signing_bytes_of_run data;
       signing \<leftarrow> expect signing_result;
       let header = mf_header (vm_manifest verified);
       assert_that (public_verify E public signing (mh_signature header));
       summed \<leftarrow> sum_words checks 0 (map fe_size (mf_entries (vm_manifest verified)));
       assert_that (summed = mh_total_size header);
       assert_that (is_ok (session_params_validate (mh_params header)))
     }
   }"

definition manifest_verify :: "bool \<Rightarrow> ('sk, 'vk) ed25519 \<Rightarrow> bytes \<Rightarrow> unit run" where
  "manifest_verify checks E data = do {
     manifest_verify_parse checks data;
     manifest_verify_signed checks E data
   }"

subsection \<open>resume\_load\<close>

text \<open>\<open>for (index, entry) in file.entries().iter().enumerate()\<close>.\<close>

fun check_resume_entries :: "nat \<Rightarrow> BlockEntry list \<Rightarrow> unit run" where
  "check_resume_entries index [] = Some ()"
| "check_resume_entries index (entry # entries) = do {
     assert_that (unat (be_block_index entry) = index);
     assert_that (length (be_symbol_bitmap entry) = div_ceil_usize (unat (be_symbol_count entry)) 8);
     check_resume_entries (Suc index) entries
   }"

definition resume_load :: "bool \<Rightarrow> (bytes \<Rightarrow> bytes) \<Rightarrow> bytes \<Rightarrow> unit run" where
  "resume_load checks h data = do {
     parsed \<leftarrow> resume_file_from_bytes_run checks h data;
     case parsed of Inl _ \<Rightarrow> Some () | Inr file \<Rightarrow> do {
       assert_that (length (rf_entries file) = unat (rh_block_count (rf_header file)));
       check_resume_entries 0 (rf_entries file);
       serialized \<leftarrow> resume_file_to_vec_run checks file;
       assert_that (length serialized \<ge> RESUME_HEADER_SIZE);
       assert_that (length serialized = length data);
       assert_that (serialized = data)
     }
   }"

section \<open>No input fails\<close>

lemma check_frame_ok: "frame_valid kh key f \<Longrightarrow> check_frame checks f = Some ()"
  by (simp add: check_frame_def frame_to_vec_run_def frame_valid_def parser_runs fhdr.length_to_vec)

lemma frame_decode_header_ok: "frame_decode_header checks data = Some ()"
proof (cases "frame_header_from_bytes data")
  case (Inr h)
  then have "frame_header_wf h" "FRAME_HEADER_SIZE \<le> length data" "take FRAME_HEADER_SIZE data = frame_header_to_vec h"
    using fhdr.sound by blast+
  with Inr show ?thesis
    by (simp add: frame_decode_header_def parser_runs run_simps fhdr.length_to_vec slice_0_take)
qed (simp add: frame_decode_header_def parser_runs)

lemma frame_decode_whole_ok: "frame_decode_whole checks kh data = Some ()"
proof (cases "frame_from_bytes kh data FUZZ_SESSION_KEY")
  case (Inr f)
  then have "frame_valid kh FUZZ_SESSION_KEY f" by (simp add: frame_parse_iff)
  with Inr show ?thesis by (simp add: frame_decode_whole_def parser_runs check_frame_ok)
qed (simp add: frame_decode_whole_def parser_runs)

lemma frame_decode_repaired_ok:
  assumes "keyed_hash_32 kh"
  shows "frame_decode_repaired checks kh data = Some ()"
proof (cases "FRAME_HEADER_SIZE \<le> length data")
  case long: True
  let ?head = "slice 0 FRAME_HEADER_SIZE data" and ?rest = "drop FRAME_HEADER_SIZE data"
  show ?thesis
  proof (cases "frame_header_from_bytes ?head")
    case (Inl e)
    with long show ?thesis by (simp add: frame_decode_repaired_def run_simps parser_runs)
  next
    case (Inr h)
    let ?body = "slice 0 (min (length ?rest) (unat MAX_PAYLOAD_LEN)) ?rest"
    have sid: "length (fh_session_id h) = 16" using fhdr.sound [OF Inr] by (simp add: frame_header_wf_def)
    obtain f where f: "frame_header_new (fh_frame_type h) (fh_session_id h) (fh_block_index h)
        (fh_symbol_index h) ?body = Some f"
      by (simp add: frame_header_new_def)
    let ?r = "set_mac f (compute_mac kh f FUZZ_SESSION_KEY)"
    let ?frame = "\<lparr>fr_header = ?r, fr_payload = ?body\<rparr>"
    have v: "frame_valid kh FUZZ_SESSION_KEY ?frame"
      using frame_build_valid [OF assms sid f, of FUZZ_SESSION_KEY] by (simp add: frame_build_def frame_build_owned_def)
    then have wf: "frame_header_wf ?r" by (simp add: frame_valid_def)
    have parse: "frame_from_bytes kh (frame_header_to_vec ?r @ ?body) FUZZ_SESSION_KEY = Inr ?frame"
      using v by (auto simp: frame_parse_iff frame_to_vec_def)
    show ?thesis
      using long Inr f parse check_frame_ok [OF v, of checks]
      by (simp add: frame_decode_repaired_def run_simps parser_runs frame_header_to_vec_run_total [OF wf] Let_def)
  qed
qed (simp add: frame_decode_repaired_def)

lemma session_header_target_ok: "session_header_target checks data = Some ()"
proof (cases "session_header_from_bytes data")
  case (Inr h)
  then have "session_header_wf h" "SESSION_HEADER_SIZE \<le> length data"
      "take SESSION_HEADER_SIZE data = session_header_to_vec h"
    using shdr.sound by blast+
  with Inr show ?thesis
    by (auto simp: session_header_target_def parser_runs run_simps shdr.length_to_vec slice_0_take Let_def
        session_params_validate_def word_neq_0_conv not_less)
qed (simp add: session_header_target_def parser_runs)

lemma manifest_entry_ok: "manifest_entry data = Some ()"
proof (cases "file_entry_from_bytes data")
  case (Inr r)
  obtain e k where r: "r = (e, k)" by fastforce
  with Inr have s: "file_entry_wf e" "k \<le> length data" "take k data = file_entry_to_vec e"
    using fentry.sound by blast+
  then have "k = length (file_entry_to_vec e)" by (metis length_take min.absorb2)
  with s(1) have k: "k = 43 + length (fe_name e)" by (simp add: file_entry_to_vec_def file_entry_wf_def)
  from s(1) have v: "validate_name (fe_name e) = Inr ()" by (simp add: file_entry_wf_def name_ok_def)
  have "file_entry_flags e AND NOT 1 = 0" by (simp add: file_entry_flags_def ENTRY_FLAG_EXECUTABLE_def)
  with s k Inr r v show ?thesis
    by (auto simp: manifest_entry_def parser_runs run_simps slice_0_take Let_def validate_name_def split: if_splits)
qed (simp add: manifest_entry_def parser_runs)

lemma manifest_verify_parse_ok: "manifest_verify_parse checks data = Some ()"
proof (cases "manifest_from_bytes data")
  case (Inr m)
  then have wf: "manifest_wf m" and data: "data = manifest_to_vec m" by (simp_all add: manifest_parse_iff)
  have l: "length (manifest_header_to_vec (mf_header m)) = MANIFEST_HEADER_SIZE"
    using wf mhdr.length_to_vec by (simp add: manifest_wf_def)
  then have "MANIFEST_HEADER_SIZE \<le> length data" by (simp add: data manifest_to_vec_def)
  moreover from this have "length (signing_bytes m) = length data"
    by (simp add: signing_bytes_def data zero_signature_def manifest_sizes)
  ultimately show ?thesis
    using Inr wf by (simp add: manifest_verify_parse_def parser_runs) (simp add: manifest_wf_def flip: data)
qed (simp add: manifest_verify_parse_def parser_runs)

lemma manifest_verify_signed_ok: "manifest_verify_signed checks E data = Some ()"
proof (cases "verify_manifest_with E (identity_public E (fuzz_signer E)) data None policy_default")
  case (Inr v)
  let ?pk = "identity_public E (fuzz_signer E)" and ?m = "vm_manifest v"
  from Inr have m: "verify_signature E ?pk data = Inr ?m" and pol: "check_policy ?m policy_default = Inr ()"
    by (auto simp: verify_manifest_with_def split: if_splits)
  from m have wf: "manifest_wf ?m" and data: "data = manifest_to_vec ?m"
      and sig: "public_verify E ?pk (signing_bytes ?m) (mh_signature (mf_header ?m))"
    by (simp_all add: verify_signature_iff)
  have "MANIFEST_HEADER_SIZE \<le> length data"
    using wf mhdr.length_to_vec by (simp add: data manifest_to_vec_def manifest_wf_def)
  then have so: "signing_bytes_of data = Inr (signing_bytes ?m)"
    by (simp add: signing_bytes_of_def signing_bytes_def data)
  note total = check_policy_sound [OF pol]
  then have t: "unat (mh_total_size (mf_header ?m)) = unat (0 :: u64) + sum_list (map unat (map fe_size (mf_entries ?m)))"
    by (simp add: comp_def)
  with sum_words_exact [of 0 "map fe_size (mf_entries ?m)" checks] unsigned_less [of "mh_total_size (mf_header ?m)", where 'a = nat]
  have "sum_words checks 0 (map fe_size (mf_entries ?m)) = Some (mh_total_size (mf_header ?m))"
    by (auto simp: word_unat_eq_iff)
  with Inr so sig total show ?thesis
    by (simp add: manifest_verify_signed_def parser_runs Let_def)
qed (simp add: manifest_verify_signed_def parser_runs Let_def)

lemma check_resume_entries_ok:
  "list_all block_entry_wf es \<Longrightarrow> entries_indexed i es \<Longrightarrow> check_resume_entries i es = Some ()"
  by (induction es arbitrary: i) (simp_all add: block_entry_wf_def)

lemma resume_load_ok:
  assumes "\<not> checks \<or> length data < 2 ^ 29 + 140"
  shows "resume_load checks h data = Some ()"
proof (cases "resume_file_from_bytes h data")
  case (Inl e)
  then show ?thesis by (simp add: resume_load_def resume_run_total [OF assms])
next
  case (Inr f)
  then have wf: "resume_file_wf h f" and data: "data = resume_file_to_vec f" by (simp_all add: resume_parse_iff)
  have "RESUME_HEADER_SIZE \<le> length data"
    using wf rhdr.length_to_vec [of h "rf_header f"] by (simp add: data resume_file_to_vec_def resume_file_wf_def)
  moreover have "check_resume_entries 0 (rf_entries f) = Some ()"
    using wf by (intro check_resume_entries_ok) (simp_all add: resume_file_wf_def)
  ultimately show ?thesis
    using Inr wf
    by (simp add: resume_load_def resume_run_total [OF assms] resume_file_to_vec_run_total [OF wf])
      (simp add: resume_file_wf_def flip: data)
qed

section \<open>Properties\<close>

text \<open>C20: no input fails a fuzz target: every assertion of the five targets holds and nothing they call
  panics, on every byte string, with and without overflow checks; for the resume target with
  overflow checks, on every byte string shorter than half a gibibyte.\<close>

theorem fuzz_targets_never_fail:
  assumes "keyed_hash_32 kh"
  shows "frame_decode checks kh data = Some () \<and> session_header_target checks data = Some () \<and>
    manifest_entry data = Some () \<and> manifest_verify checks E data = Some () \<and>
    (\<not> checks \<or> length data < 2 ^ 29 + 140 \<longrightarrow> resume_load checks h data = Some ())"
  using assms
  by (simp add: frame_decode_def frame_decode_header_ok frame_decode_whole_ok frame_decode_repaired_ok
      session_header_target_ok manifest_entry_ok manifest_verify_def manifest_verify_parse_ok
      manifest_verify_signed_ok resume_load_ok)

theorem fuzz_targets_never_fail_witness:
  "frame_decode True (\<lambda>_ _. replicate 32 9) (replicate 60 0x44) = Some () \<and>
   manifest_verify True seed_only_ed25519 (manifest_to_vec one_file_manifest) = Some () \<and>
   resume_load True (\<lambda>_. replicate 32 7) [0x44] = Some ()"
proof -
  have "keyed_hash_32 (\<lambda>_ _. replicate 32 9)" by (simp add: keyed_hash_32_def)
  note ok = fuzz_targets_never_fail [OF this]
  show ?thesis
    using ok [of True "replicate 60 0x44" seed_only_ed25519 "\<lambda>_. []"]
      ok [of True "manifest_to_vec one_file_manifest" seed_only_ed25519 "\<lambda>_. []"]
      ok [of True "[0x44]" seed_only_ed25519 "\<lambda>_. replicate 32 7"]
    by simp
qed

text \<open>The comment of the session header target says that parameters which parse are ones the validator
  accepts. They are not: the parser never validates, and every parameter record of a
  well-formed header parses, zero blocks included.\<close>

theorem session_parser_accepts_invalid:
  "\<exists>data hd. session_header_from_bytes data = Inr hd \<and> \<not> is_ok (session_params_validate (sh_params hd))"
proof -
  let ?p = "\<lparr>sp_payload_size = 0, sp_block_count = 0, sp_symbol_size = 0, sp_source_symbols_per_block = 0,
    sp_total_symbols_per_block = 0, sp_raptorq = \<lparr>rq_z = 0, rq_n = 0, rq_psi = 0\<rparr>,
    sp_payload_digest = replicate 32 0\<rparr>"
  have "session_header_wf (session_header_new (replicate 16 1) ?p)"
    by (rule session_header_new_wf) (simp_all add: session_params_wf_def)
  note parse = shdr.parse_exact [OF this]
  have "sh_params (session_header_new (replicate 16 1) ?p) = ?p" by (simp add: session_header_new_def Let_def)
  then have "\<not> is_ok (session_params_validate (sh_params (session_header_new (replicate 16 1) ?p)))"
    by (simp add: session_params_validate_def)
  with parse show ?thesis by blast
qed

end
