(* ===== verification/Capacity_Table.thy ===== *)
theory Capacity_Table
  imports Panics Qr
begin

text \<open>
  \<open>examples/gen_capacity.rs\<close>: the program that prints the table of QR capacities as Markdown. Its output
  is the list of the lines it prints; both \<open>expect\<close> calls are panics. The table it prints is shown to be
  exact: every row states the encoder's own limits.
\<close>

definition table_header :: "string list" where
  "table_header =
     [''# QR Capacity Table'',
      '''',
      ''> GENERATED FILE. Do not edit by hand.'',
      ''> Regenerate with `scripts/gen_qr_capacity.sh`.'',
      '''',
      ''Bytes that fit in one QR code, and the largest codec symbol size that'',
      ''leaves room for a 46-byte frame header and a 4-byte RaptorQ payload'',
      ''identifier. Measured against the encoder, not transcribed from the'',
      ''specification: a hand-copied table can be optimistic by a byte, and that'',
      ''fails only for the frames that fill a version exactly.'',
      '''',
      ''A dash means the version is too small to hold even a frame header.'',
      '''',
      ''| Version | Modules | L bytes | L symbol | M bytes | M symbol | Q bytes | Q symbol | H bytes | H symbol |'',
      ''|--------:|--------:|--------:|---------:|--------:|---------:|--------:|---------:|--------:|---------:|'']"

text \<open>The loop over the levels: \<open>cells\<close> is the string built so far.\<close>

fun capacity_cells ::
  "(bytes \<Rightarrow> Ecc \<Rightarrow> u8 \<Rightarrow> 'qr option) \<Rightarrow> u8 \<Rightarrow> Ecc list \<Rightarrow> string \<Rightarrow> string run" where
  "capacity_cells enc v [] cells = Some cells"
| "capacity_cells enc v (ecc # eccs) cells = do {
     cap \<leftarrow> expect (capacity enc v ecc);
     size \<leftarrow> expect (max_symbol_size enc v ecc);
     let sym = (case size of Some s \<Rightarrow> decimal (unat s) | None \<Rightarrow> ''-'');
     capacity_cells enc v eccs (cells @ '' '' @ decimal cap @ '' | '' @ sym @ '' |'')
   }"

text \<open>The loop \<open>MIN_VERSION..=MAX_VERSION\<close>: the versions left and the lines printed so far.\<close>

fun capacity_rows ::
  "(bytes \<Rightarrow> Ecc \<Rightarrow> u8 \<Rightarrow> 'qr option) \<Rightarrow> u8 list \<Rightarrow> string list \<Rightarrow> string list run" where
  "capacity_rows enc [] printed = Some printed"
| "capacity_rows enc (v # vs) printed = do {
     let modules = 17 + 4 * unat v;
     cells \<leftarrow> capacity_cells enc v [Low, Medium, Quartile, High] [];
     capacity_rows enc vs (printed @ [''| '' @ decimal (unat v) @ '' | '' @ decimal modules @ '' |'' @ cells])
   }"

definition gen_capacity :: "(bytes \<Rightarrow> Ecc \<Rightarrow> u8 \<Rightarrow> 'qr option) \<Rightarrow> string list run" where
  "gen_capacity enc =
     capacity_rows enc (map of_nat [unat MIN_VERSION..<Suc (unat MAX_VERSION)]) table_header"

section \<open>What the table says\<close>

definition exact_cell :: "nat \<Rightarrow> string" where
  "exact_cell limit =
     '' '' @ decimal limit @ '' | '' @ (if limit \<le> 50 then ''-'' else decimal (limit - 50)) @ '' |''"

definition exact_row :: "(nat \<Rightarrow> Ecc \<Rightarrow> nat) \<Rightarrow> nat \<Rightarrow> string" where
  "exact_row limit v =
     ''| '' @ decimal v @ '' | '' @ decimal (17 + 4 * v) @ '' |'' @
     concat (map (\<lambda>e. exact_cell (limit v e)) [Low, Medium, Quartile, High])"

definition encoder_limit :: "(bytes \<Rightarrow> Ecc \<Rightarrow> u8 \<Rightarrow> 'qr option) \<Rightarrow> (nat \<Rightarrow> Ecc \<Rightarrow> nat) \<Rightarrow> bool" where
  "encoder_limit enc limit \<longleftrightarrow>
     (\<forall>v e data. 1 \<le> v \<and> v \<le> 40 \<longrightarrow> (enc data e (of_nat v) \<noteq> None \<longleftrightarrow> length data \<le> limit v e))"

lemma table_cell:
  assumes "qr_byte_mode enc" and "encoder_limit enc limit" and v: "1 \<le> v" "v \<le> 40"
  shows "capacity_cells enc (of_nat v) (e # es) cells =
     capacity_cells enc (of_nat v) es (cells @ exact_cell (limit v e))"
proof -
  have u: "unat (of_nat v :: u8) = v" using v by (intro unat_of_nat_lt) simp
  then have r: "MIN_VERSION \<le> (of_nat v :: u8) \<and> (of_nat v :: u8) \<le> MAX_VERSION"
    using v by (simp add: MIN_VERSION_def MAX_VERSION_def word_le_nat_alt)
  then obtain c where c: "capacity enc (of_nat v) e = Inr c" by (simp add: capacity_def)
  have same: "n \<le> c \<longleftrightarrow> n \<le> limit v e" for n
    using capacity_exact [OF assms(1) c, of "replicate n 0"] assms(2) v by (simp add: encoder_limit_def)
  then have lim: "c = limit v e" by (meson le_refl order_antisym)
  have "\<not> 4096 < c"
    using capacity_exact [OF assms(1) c, of "replicate c 0"] assms(1) by (auto simp: qr_byte_mode_def)
  then have "unat (of_nat (c - 50) :: u32) = c - 50" by (intro unat_of_nat_lt) simp
  with c lim show ?thesis
    by (simp add: max_symbol_size_def FRAME_OVERHEAD_def FRAME_HEADER_SIZE_def exact_cell_def
        del: of_nat_diff)
qed

lemma table_rows:
  assumes "qr_byte_mode enc" and "encoder_limit enc limit" and "\<And>v. v \<in> set vs \<Longrightarrow> 1 \<le> v \<and> v \<le> 40"
  shows "capacity_rows enc (map of_nat vs) printed = Some (printed @ map (exact_row limit) vs)"
  using assms(3)
proof (induction vs arbitrary: printed)
  case (Cons v vs)
  then have v: "1 \<le> v" "v \<le> 40" and IH: "\<And>p. capacity_rows enc (map of_nat vs) p = Some (p @ map (exact_row limit) vs)"
    by simp_all
  have "unat (of_nat v :: u8) = v" using v by (intro unat_of_nat_lt) simp
  moreover have "capacity_cells enc (of_nat v) [Low, Medium, Quartile, High] [] =
      Some (concat (map (\<lambda>e. exact_cell (limit v e)) [Low, Medium, Quartile, High]))"
    unfolding table_cell [OF assms(1,2) v] by simp
  ultimately show ?case
    by (simp del: capacity_cells.simps add: IH exact_row_def Let_def)
qed simp

section \<open>Properties\<close>

text \<open>The program ends without a panic and prints the heading and one row for every version from
  1 to 40. Each row is exact: its byte columns are the encoder's limits at the four levels, and its
  symbol columns are 50 bytes less, or a dash where no symbol fits.\<close>

theorem capacity_table_exact:
  assumes "qr_byte_mode enc"
  shows "\<exists>limit. encoder_limit enc limit \<and>
     gen_capacity enc = Some (table_header @ map (exact_row limit) [1..<41])"
proof -
  have "\<exists>c. \<forall>data. 1 \<le> v \<and> v \<le> 40 \<longrightarrow> (enc data e (of_nat v) \<noteq> None \<longleftrightarrow> length data \<le> c)" for v e
  proof (cases "1 \<le> v \<and> v \<le> 40")
    case True
    then have "unat (of_nat v :: u8) = v" by (intro unat_of_nat_lt) simp
    with True have "MIN_VERSION \<le> (of_nat v :: u8) \<and> (of_nat v :: u8) \<le> MAX_VERSION"
      by (simp add: MIN_VERSION_def MAX_VERSION_def word_le_nat_alt)
    then obtain c where "capacity enc (of_nat v) e = Inr c" by (simp add: capacity_def)
    from capacity_exact [OF assms this] show ?thesis by blast
  qed blast
  then obtain limit where l: "encoder_limit enc limit" unfolding encoder_limit_def by metis
  have "gen_capacity enc = capacity_rows enc (map of_nat [1..<41]) table_header"
    by (simp add: gen_capacity_def MIN_VERSION_def MAX_VERSION_def)
  also have "\<dots> = Some (table_header @ map (exact_row limit) [1..<41])"
    by (rule table_rows [OF assms l]) simp
  finally show ?thesis using l by blast
qed

end
