(* ===== verification/Property_Tests.thy ===== *)
theory Property_Tests
  imports Panics Chunker Crc32c
begin

text \<open>
  The property tests of \<open>chunker.rs\<close> and \<open>crc32c.rs\<close> (module \<open>tests\<close>, \<open>proptest!\<close>), each as the run of
  its body on one sample: \<open>unwrap\<close> and the assertions are panics. Proptest draws samples; the
  theorems say that every sample passes, and not only in the ranges the strategies draw from but
  for all parameters up to the constructors' own limits.
\<close>

section \<open>The chunker\<close>

text \<open>\<open>ChunkMap::new(ChunkParams::new(..).unwrap()).unwrap()\<close>, with which every test begins.\<close>

definition sample_map :: "u64 \<Rightarrow> u32 \<Rightarrow> u32 \<Rightarrow> ChunkMap run" where
  "sample_map payload_size block_count symbol_size = do {
     params \<leftarrow> expect (chunk_params_new payload_size block_count symbol_size);
     expect (chunk_map_new params)
   }"

definition block_indices :: "ChunkMap \<Rightarrow> u32 list" where
  "block_indices m = map of_nat [0..<unat (cm_block_count m)]"

definition test_round_trip_identity :: "bytes \<Rightarrow> u32 \<Rightarrow> u32 \<Rightarrow> unit run" where
  "test_round_trip_identity payload block_count symbol_size = do {
     m \<leftarrow> sample_map (of_nat (length payload)) block_count symbol_size;
     blocks \<leftarrow> collect_run (\<lambda>i. expect (extract_block m payload i)) (block_indices m);
     reassembled \<leftarrow> expect (reassemble m blocks);
     assert_that (reassembled = payload)
   }"

definition test_block_sizes_sum_to_payload :: "bool \<Rightarrow> u64 \<Rightarrow> u32 \<Rightarrow> u32 \<Rightarrow> unit run" where
  "test_block_sizes_sum_to_payload checks payload_size block_count symbol_size = do {
     m \<leftarrow> sample_map payload_size block_count symbol_size;
     total \<leftarrow> sum_words checks 0 (map bi_size (cm_blocks m));
     assert_that (total = payload_size)
   }"

definition test_block_offsets_continuous :: "bool \<Rightarrow> u64 \<Rightarrow> u32 \<Rightarrow> u32 \<Rightarrow> unit run" where
  "test_block_offsets_continuous checks payload_size block_count symbol_size = do {
     m \<leftarrow> sample_map payload_size block_count symbol_size;
     for_run (\<lambda>i. do {
       block \<leftarrow> expect (block_info m i);
       if i > 0 then do {
         prev \<leftarrow> expect (block_info m (i - 1));
         fin \<leftarrow> sum_words checks (bi_start prev) [bi_size prev];
         assert_that (bi_start block = fin)
       }
       else Some ()
     }) (block_indices m)
   }"

definition test_symbol_count_correct :: "u64 \<Rightarrow> u32 \<Rightarrow> u32 \<Rightarrow> unit run" where
  "test_symbol_count_correct payload_size block_count symbol_size = do {
     m \<leftarrow> sample_map payload_size block_count symbol_size;
     for_run (\<lambda>block.
       if bi_size block = 0 then assert_that (bi_symbol_count block = 0)
       else assert_that (bi_symbol_count block = ucast (div_ceil (bi_size block) (ucast symbol_size))))
     (cm_blocks m)
   }"

definition test_symbol_extraction_padded :: "u64 \<Rightarrow> u32 \<Rightarrow> u32 \<Rightarrow> unit run" where
  "test_symbol_extraction_padded payload_size block_count symbol_size = do {
     m \<leftarrow> sample_map payload_size block_count symbol_size;
     for_run (\<lambda>block_idx. do {
       block \<leftarrow> expect (block_info m block_idx);
       if bi_symbol_count block > 0 then do {
         last_sym \<leftarrow> expect (symbol_info m block_idx (bi_symbol_count block - 1));
         if bi_size block mod ucast symbol_size \<noteq> 0 then do {
           assert_that (si_padded last_sym);
           assert_that (si_size last_sym = bi_size block mod ucast symbol_size)
         }
         else do {
           assert_that (\<not> si_padded last_sym);
           assert_that (si_size last_sym = ucast symbol_size)
         }
       }
       else Some ()
     }) (block_indices m)
   }"

section \<open>The checksum\<close>

definition prop_crc32c_streaming_arbitrary_chunks :: "bytes \<Rightarrow> nat \<Rightarrow> unit run" where
  "prop_crc32c_streaming_arbitrary_chunks data chunk_size = do {
     let one_shot = crc32c_digest data;
     pieces \<leftarrow> chunks chunk_size data;
     let hasher = foldl crc_hasher_update crc_hasher_new pieces;
     assert_that (crc_hasher_finalize hasher = one_shot)
   }"

section \<open>Every sample passes\<close>

lemma sample_map_for:
  assumes "unat S < 2 ^ 32" and "0 < B" "B \<le> 1024" and "0 < n" "n \<le> 65535"
  obtains m where "sample_map S B n = Some m"
    and "map_for \<lparr>cp_payload_size = S, cp_block_count = B, cp_symbol_size = n\<rparr> m"
proof -
  let ?p = "\<lparr>cp_payload_size = S, cp_block_count = B, cp_symbol_size = n\<rparr>"
  have v: "params_valid ?p"
    using assms by (auto simp: params_valid_def word_less_nat_alt word_le_nat_alt)
  then have new: "chunk_params_new S B n = Inr ?p" by (simp add: chunk_params_new_valid)
  have "S \<noteq> 2 ^ 32" using assms(1) by auto
  then have "\<not> symbol_overflow ?p" by (simp add: symbol_overflow_def)
  then obtain m where "chunk_map_new ?p = Inr m" using chunk_map_new_eq [OF v] by simp
  with v new that show ?thesis by (simp add: sample_map_def map_for_def)
qed

lemma block_indices_for:
  "map_for p m \<Longrightarrow> block_indices m = map of_nat [0..<unat (cp_block_count p)]"
  by (simp add: block_indices_def map_for_block_count)

lemma index_below:
  assumes "map_for p m" and "i \<in> set (block_indices m)"
  shows "unat i < unat (cp_block_count p)"
proof -
  from assms obtain k where k: "i = of_nat k" "k < unat (cp_block_count p)"
    by (auto simp: block_indices_for)
  moreover have "unat (of_nat k :: u32) = k"
    using k(2) unsigned_less [of "cp_block_count p", where 'a = nat] by (intro unat_of_nat_lt) simp
  ultimately show ?thesis by simp
qed

lemma extract_all:
  assumes mf: "map_for p m" and S: "length payload = unat (cp_payload_size p)"
  shows "collect_run (\<lambda>i. expect (extract_block m payload i)) (block_indices m) = Some (payload_blocks p payload)"
proof -
  have v: "params_valid p" using mf by (simp add: map_for_def)
  have "collect_run (\<lambda>i. expect (extract_block m payload i)) (block_indices m) =
      Some (map (\<lambda>i. payload_blocks p payload ! unat i) (block_indices m))"
    by (rule collect_run_ok) (use extract_block_payload_blocks [OF mf] index_below [OF mf] S in simp)
  also have "map (\<lambda>i. payload_blocks p payload ! unat i) (block_indices m) = payload_blocks p payload"
  proof (rule nth_equalityI)
    show "length (map (\<lambda>i. payload_blocks p payload ! unat i) (block_indices m)) =
        length (payload_blocks p payload)"
      using payload_blocks_props(1) [OF v S] by (simp add: block_indices_for [OF mf])
    fix k assume "k < length (map (\<lambda>i. payload_blocks p payload ! unat i) (block_indices m))"
    then have k: "k < unat (cp_block_count p)" by (simp add: block_indices_for [OF mf])
    then have "unat (of_nat k :: u32) = k"
      using unsigned_less [of "cp_block_count p", where 'a = nat] by (intro unat_of_nat_lt) simp
    with k show "map (\<lambda>i. payload_blocks p payload ! unat i) (block_indices m) ! k = payload_blocks p payload ! k"
      by (simp add: block_indices_for [OF mf])
  qed
  finally show ?thesis .
qed

lemma round_trip_passes:
  assumes "length payload < 2 ^ 32" and "0 < B" "B \<le> 1024" and "0 < n" "n \<le> 65535"
  shows "test_round_trip_identity payload B n = Some ()"
proof -
  let ?S = "of_nat (length payload) :: u64"
  have S: "unat ?S = length payload" using assms(1) by (intro unat_of_nat_lt) simp
  obtain m where m: "sample_map ?S B n = Some m"
    and mf: "map_for \<lparr>cp_payload_size = ?S, cp_block_count = B, cp_symbol_size = n\<rparr> m"
    using sample_map_for [of ?S B n] assms S by auto
  show ?thesis
    using extract_all [OF mf, of payload] reassemble_payload_blocks [OF mf, of payload] S m
    by (simp add: test_round_trip_identity_def)
qed

lemma unat_pred: "0 < c \<Longrightarrow> unat c = Suc (unat (c - 1))" for c :: u32
proof -
  assume "0 < c"
  then have "c \<noteq> 0" "0 < unat c" by (auto simp: word_less_nat_alt)
  then show ?thesis using unat_minus_one [of c] by simp
qed

lemma block_sizes_sum: "sum_list (map (block_size S B) [0..<k]) = block_start S B k"
  by (induction k) (simp_all add: block_start_Suc)

lemma sizes_sum_passes:
  assumes "unat S < 2 ^ 32" and "0 < B" "B \<le> 1024" and "0 < n" "n \<le> 65535"
  shows "test_block_sizes_sum_to_payload checks S B n = Some ()"
proof -
  obtain m where m: "sample_map S B n = Some m"
    and mf: "map_for \<lparr>cp_payload_size = S, cp_block_count = B, cp_symbol_size = n\<rparr> m" (is "map_for ?p m")
    using sample_map_for [of S B n] assms by auto
  have v: "params_valid ?p" using mf by (simp add: map_for_def)
  have "map unat (map bi_size (cm_blocks m)) = map (block_size (unat S) (unat B)) [0..<unat B]"
    using layout_block_fields(3) [OF v] by (simp add: map_for_blocks [OF mf])
  moreover have "block_start (unat S) (unat B) (unat B) = unat S"
    using assms(2) by (intro block_start_end) (simp add: word_less_nat_alt)
  ultimately have sum: "sum_list (map unat (map bi_size (cm_blocks m))) = unat S"
    by (simp add: block_sizes_sum)
  then have "unat (0 :: u64) + sum_list (map unat (map bi_size (cm_blocks m))) < 2 ^ LENGTH(64)"
    using assms(1) by simp
  from sum_words_exact [OF this, of checks] obtain t where
    "sum_words checks 0 (map bi_size (cm_blocks m)) = Some t" "unat t = unat S"
    unfolding sum by auto
  then show ?thesis using m by (simp add: test_block_sizes_sum_to_payload_def word_unat_eq_iff)
qed

lemma offsets_pass:
  assumes "unat S < 2 ^ 32" and "0 < B" "B \<le> 1024" and "0 < n" "n \<le> 65535"
  shows "test_block_offsets_continuous checks S B n = Some ()"
proof -
  obtain m where m: "sample_map S B n = Some m"
    and mf: "map_for \<lparr>cp_payload_size = S, cp_block_count = B, cp_symbol_size = n\<rparr> m" (is "map_for ?p m")
    using sample_map_for [of S B n] assms by auto
  have v: "params_valid ?p" using mf by (simp add: map_for_def)
  have B: "0 < unat B" using assms(2) by (simp add: word_less_nat_alt)
  have body: "sum_words checks (bi_start (layout_block ?p (unat (i - 1)))) [bi_size (layout_block ?p (unat (i - 1)))] =
      Some (bi_start (layout_block ?p (unat i)))" "unat (i - 1) < unat B"
    if i: "unat i < unat B" "i > 0" for i :: u32
  proof -
    have k: "unat i = Suc (unat (i - 1))" using i(2) by (rule unat_pred)
    with i(1) show lt: "unat (i - 1) < unat B" by simp
    have start: "unat (bi_start (layout_block ?p (unat i))) =
        unat (bi_start (layout_block ?p (unat (i - 1)))) + unat (bi_size (layout_block ?p (unat (i - 1))))"
      using layout_block_fields [OF v] i(1) lt by (simp add: k block_start_Suc)
    then show "sum_words checks (bi_start (layout_block ?p (unat (i - 1)))) [bi_size (layout_block ?p (unat (i - 1)))] =
        Some (bi_start (layout_block ?p (unat i)))"
      using unsigned_less [of "bi_start (layout_block ?p (unat i))", where 'a = nat]
      by (simp add: checked_add_def word_unat_eq_iff unat_add_lem [THEN iffD1])
  qed
  show ?thesis
    unfolding test_block_offsets_continuous_def m Option.bind.bind_lunit
    by (rule for_run_ok) (use body index_below [OF mf] in \<open>auto simp: block_info_eq [OF mf]\<close>)
qed

lemma symbol_counts_pass:
  assumes "unat S < 2 ^ 32" and "0 < B" "B \<le> 1024" and "0 < n" "n \<le> 65535"
  shows "test_symbol_count_correct S B n = Some ()"
proof -
  obtain m where m: "sample_map S B n = Some m"
    and mf: "map_for \<lparr>cp_payload_size = S, cp_block_count = B, cp_symbol_size = n\<rparr> m" (is "map_for ?p m")
    using sample_map_for [of S B n] assms by auto
  have v: "params_valid ?p" using mf by (simp add: map_for_def)
  have n: "0 < unat (ucast n :: u64)" "unat (ucast n :: u64) = unat n"
    using assms(4) by (simp_all add: word_less_nat_alt unat_ucast_ge)
  have count: "bi_symbol_count (layout_block ?p i) = ucast (div_ceil (bi_size (layout_block ?p i)) (ucast n))"
    if "i < unat B" for i
  proof -
    have eq: "unat (bi_symbol_count (layout_block ?p i)) = unat (div_ceil (bi_size (layout_block ?p i)) (ucast n :: u64))"
      using layout_symbol_count [OF mf, of i] layout_block_fields(3) [OF v, of i] that n
      by (simp add: unat_div_ceil)
    have "bi_symbol_count (layout_block ?p i) = of_nat (unat (bi_symbol_count (layout_block ?p i)))" by simp
    then show ?thesis unfolding eq by simp
  qed
  have zero: "div_ceil 0 (ucast n :: u64) = 0" by (simp add: div_ceil_def)
  show ?thesis
    unfolding test_symbol_count_correct_def m Option.bind.bind_lunit
    by (rule for_run_ok) (use count zero in \<open>fastforce simp: map_for_blocks [OF mf]\<close>)
qed

lemma padding_passes:
  assumes "unat S < 2 ^ 32" and "0 < B" "B \<le> 1024" and "0 < n" "n \<le> 65535"
  shows "test_symbol_extraction_padded S B n = Some ()"
proof -
  obtain m where m: "sample_map S B n = Some m"
    and mf: "map_for \<lparr>cp_payload_size = S, cp_block_count = B, cp_symbol_size = n\<rparr> m" (is "map_for ?p m")
    using sample_map_for [of S B n] assms by auto
  have params: "cm_params m = ?p" using map_for_blocks [OF mf] by simp
  have n: "0 < (ucast n :: u64)" using assms(4) by (simp add: word_less_nat_alt unat_ucast_ge)
  have last: "\<not> c \<le> c - 1" if "0 < c" for c :: u32 using unat_pred [OF that] by (simp add: word_le_nat_alt)
  show ?thesis
    unfolding test_symbol_extraction_padded_def m Option.bind.bind_lunit
    by (rule for_run_ok)
      (use index_below [OF mf] last n word_mod_less_divisor [OF n] in
        \<open>auto simp: symbol_info_def block_info_eq [OF mf] params Let_def\<close>)
qed

lemma streaming_passes: "0 < k \<Longrightarrow> prop_crc32c_streaming_arbitrary_chunks data k = Some ()"
  by (simp add: prop_crc32c_streaming_arbitrary_chunks_def chunks_def crc_streaming_equals_one_shot
      concat_chunks Let_def)

section \<open>Properties\<close>

text \<open>Every sample passes every property test, for all payloads below \<open>2 ^ 32\<close> bytes, all block counts
  and symbol sizes the constructor admits, and all chunk sizes: no assertion fails, no \<open>unwrap\<close> and
  no sum panics, with or without overflow checks.\<close>

theorem property_tests_pass:
  assumes "length payload < 2 ^ 32" and "unat S < 2 ^ 32" and "0 < B" "B \<le> MAX_BLOCK_COUNT"
    and "0 < n" "n \<le> MAX_SYMBOL_SIZE" and "0 < k"
  shows "test_round_trip_identity payload B n = Some () \<and>
    test_block_sizes_sum_to_payload checks S B n = Some () \<and>
    test_block_offsets_continuous checks S B n = Some () \<and>
    test_symbol_count_correct S B n = Some () \<and>
    test_symbol_extraction_padded S B n = Some () \<and>
    prop_crc32c_streaming_arbitrary_chunks data k = Some ()"
  using assms
  by (simp add: round_trip_passes sizes_sum_passes offsets_pass symbol_counts_pass padding_passes
      streaming_passes MAX_BLOCK_COUNT_def MAX_SYMBOL_SIZE_def)

end
