(* ===== verification/Fec.thy ===== *)
theory Fec
  imports Pipeline Float64
begin

text \<open>
  The forward-error-correction wrappers of \<open>core/dhow-codec/src/fec.rs\<close>. RaptorQ is external:
  its encoder constructor \<open>Encoder::with_defaults\<close> and \<open>get_config\<close> are the parameters \<open>mk\<close> and
  \<open>conf\<close>, the remaining operations the record \<open>raptorq\<close> of the pipeline.
\<close>

definition DEFAULT_MTU :: u16 where "DEFAULT_MTU = 1024"

record FecParams =
  fec_mtu :: u16

definition fec_params_new :: FecParams where
  "fec_params_new = \<lparr>fec_mtu = DEFAULT_MTU\<rparr>"

text \<open>\<open>with_mtu\<close> asserts: \<^const>\<open>None\<close> is the panic.\<close>

definition with_mtu :: "u16 \<Rightarrow> FecParams option" where
  "with_mtu mtu = (if mtu \<ge> 64 then Some \<lparr>fec_mtu = mtu\<rparr> else None)"

definition try_with_mtu :: "u16 \<Rightarrow> FecError + FecParams" where
  "try_with_mtu mtu = (if mtu < 64 then Inl (MtuTooSmall mtu 64) else Inr \<lparr>fec_mtu = mtu\<rparr>)"

record 'enc EncoderWrapper =
  ew_params :: FecParams
  ew_inner :: 'enc

definition fec_encode :: "(bytes \<Rightarrow> u16 \<Rightarrow> 'enc) \<Rightarrow> bytes \<Rightarrow> FecParams \<Rightarrow> 'enc EncoderWrapper" where
  "fec_encode mk data params = \<lparr>ew_params = params, ew_inner = mk data (fec_mtu params)\<rparr>"

definition fec_config :: "('enc \<Rightarrow> 'cfg) \<Rightarrow> 'enc EncoderWrapper \<Rightarrow> 'cfg" where
  "fec_config conf w = conf (ew_inner w)"

definition fec_packets ::
  "('cfg, 'enc, 'pkt, 'dec) raptorq \<Rightarrow> 'enc EncoderWrapper \<Rightarrow> u32 \<Rightarrow> 'pkt list" where
  "fec_packets R w repair_packets_per_block =
     rq_get_encoded_packets R (ew_inner w) repair_packets_per_block"

definition source_packets ::
  "('cfg, 'enc, 'pkt, 'dec) raptorq \<Rightarrow> 'enc EncoderWrapper \<Rightarrow> 'pkt list" where
  "source_packets R w = rq_get_encoded_packets R (ew_inner w) 0"

definition repair_packets ::
  "('cfg, 'enc, 'pkt, 'dec) raptorq \<Rightarrow> 'enc EncoderWrapper \<Rightarrow> u32 \<Rightarrow> 'pkt list" where
  "repair_packets R w n_repair =
     (let all = rq_get_encoded_packets R (ew_inner w) n_repair;
          repair_start = length all - unat n_repair
      in drop repair_start all)"

definition repair_packets_for_loss_rate ::
  "('cfg, 'enc, 'pkt, 'dec) raptorq \<Rightarrow> 'enc EncoderWrapper \<Rightarrow> f64 \<Rightarrow> 'pkt list" where
  "repair_packets_for_loss_rate R w loss_rate =
     (let source_count = f64_of_nat (length (source_packets R w));
          repair_count = f64_as_u32 (f64_ceil (f64_mult source_count loss_rate))
      in repair_packets R w (of_int repair_count))"

record 'dec FecDecoder =
  fd_inner :: 'dec

definition fec_decoder_new :: "('cfg, 'enc, 'pkt, 'dec) raptorq \<Rightarrow> 'cfg \<Rightarrow> 'dec FecDecoder" where
  "fec_decoder_new R config = \<lparr>fd_inner = rq_decoder_new R config\<rparr>"

definition fec_add_packet ::
  "('cfg, 'enc, 'pkt, 'dec) raptorq \<Rightarrow> 'dec FecDecoder \<Rightarrow> 'pkt \<Rightarrow> 'dec FecDecoder" where
  "fec_add_packet R d packet = d\<lparr>fd_inner := rq_add_new_packet R (fd_inner d) packet\<rparr>"

definition fec_decoder_decode ::
  "('cfg, 'enc, 'pkt, 'dec) raptorq \<Rightarrow> 'dec FecDecoder \<Rightarrow> bytes option" where
  "fec_decoder_decode R d = rq_get_result R (fd_inner d)"

definition fec_decode ::
  "('cfg, 'enc, 'pkt, 'dec) raptorq \<Rightarrow> 'pkt list \<Rightarrow> 'cfg \<Rightarrow> bytes option" where
  "fec_decode R packets config =
     rq_get_result R (foldl (rq_add_new_packet R) (rq_decoder_new R config) packets)"

section \<open>Lemmas\<close>

lemma fec_fold: "fd_inner (foldl (fec_add_packet R) d ps) = foldl (rq_add_new_packet R) (fd_inner d) ps"
  by (induction ps arbitrary: d) (simp_all add: fec_add_packet_def)

text \<open>What the crate documents of \<open>get_encoded_packets\<close>: the source packets come first, then the
  requested number of repair packets.\<close>

definition repairs_follow_sources :: "('cfg, 'enc, 'pkt, 'dec) raptorq \<Rightarrow> bool" where
  "repairs_follow_sources R \<longleftrightarrow> (\<forall>enc n. \<exists>rep. length rep = unat n \<and>
     rq_get_encoded_packets R enc n = rq_get_encoded_packets R enc 0 @ rep)"

section \<open>Properties\<close>

text \<open>\<open>repair_packets\<close> returns exactly the repair packets: appended to the source packets they
  give the full set, and there are as many as asked for.\<close>

theorem repair_packets_exact:
  assumes "repairs_follow_sources R"
  shows "source_packets R w @ repair_packets R w n_repair = fec_packets R w n_repair \<and>
     length (repair_packets R w n_repair) = unat n_repair"
proof -
  obtain rep where "length rep = unat n_repair"
    "rq_get_encoded_packets R (ew_inner w) n_repair = rq_get_encoded_packets R (ew_inner w) 0 @ rep"
    using assms unfolding repairs_follow_sources_def by blast
  then show ?thesis
    by (simp add: source_packets_def repair_packets_def fec_packets_def Let_def)
qed

text \<open>The repair packets for a loss rate are not enough to survive that rate of loss: with one half,
  from four source packets on (any even number), losing half of what was sent leaves fewer packets than
  the block has source packets, and no code recovers a block from fewer.\<close>

theorem half_loss_not_covered:
  assumes "repairs_follow_sources R" and "length (source_packets R w) = 2 * m" and "2 \<le> m" and "m < 2 ^ 31"
  shows "let sent = source_packets R w @ repair_packets_for_loss_rate R w (Finite (1 / 2)) in
     length sent = 3 * m \<and> length sent - length sent div 2 < length (source_packets R w)"
proof -
  have n: "f64_of_nat (2 * m) = Finite (of_nat (2 * m))" using assms(4) by (intro f64_of_nat_exact) simp
  have "f64_mult (Finite (of_nat (2 * m))) (Finite (1 / 2)) = f64_round (of_int (2 * int m) / 2)" by simp
  also have "\<dots> = Finite (of_int (2 * int m) / 2)" using assms(4) by (intro f64_round_half_integer) auto
  finally have p: "f64_mult (Finite (of_nat (2 * m))) (Finite (1 / 2)) = Finite (of_int (int m))" by simp
  have "f64_as_u32 (f64_ceil (Finite (of_int (int m)))) = int m"
    using assms(4) by (simp add: Let_def del: of_int_of_nat_eq)
  then have "repair_packets_for_loss_rate R w (Finite (1 / 2)) = repair_packets R w (of_nat m)"
    by (simp add: repair_packets_for_loss_rate_def assms(2) n [simplified] p [simplified])
  moreover have "unat (of_nat m :: u32) = m" using assms(4) by (intro unat_of_nat_lt) simp
  ultimately have "length (repair_packets_for_loss_rate R w (Finite (1 / 2))) = m"
    using repair_packets_exact [OF assms(1)] by simp
  with assms(2,3) show ?thesis by (simp add: Let_def)
qed

text \<open>Feeding packets one by one to the stateful decoder and asking it for the payload is the
  one-shot \<open>decode\<close> of the same packets, and the two constructors of parameters accept the same MTUs.\<close>

theorem fec_decoder_equals_decode:
  "fec_decoder_decode R (foldl (fec_add_packet R) (fec_decoder_new R config) packets) =
     fec_decode R packets config \<and>
   (with_mtu mtu = None \<longleftrightarrow> try_with_mtu mtu = Inl (MtuTooSmall mtu 64))"
  by (auto simp: fec_decoder_decode_def fec_decode_def fec_fold fec_decoder_new_def with_mtu_def
      try_with_mtu_def not_less)

end
