(* ===== verification/Bench_Data_Path.thy ===== *)
theory Bench_Data_Path
  imports Property_Tests Fec
begin

text \<open>
  \<open>benches/data_path.rs\<close>: the work that one iteration of each benchmark measures, on the benchmark's
  own data, as a run (the \<open>unwrap\<close> calls panic). The harness that times them, Criterion, is outside
  the repository. That a benchmark measures what its comments say is a statement about these runs:
  they do not panic, and the two forms that are compared with each other compute the same.
\<close>

definition SIZES :: "nat list" where "SIZES = [4 * 1024, 256 * 1024, 4 * 1024 * 1024]"

definition data_of :: "nat \<Rightarrow> bytes" where
  "data_of len = map (\<lambda>i. of_nat (i mod 251)) [0..<len]"

definition bench_blake3 :: "(bytes \<Rightarrow> bytes) \<Rightarrow> bytes \<Rightarrow> bytes run" where
  "bench_blake3 h data = Some (blake3_digest h data)"

definition bench_blake3_streaming :: "(bytes \<Rightarrow> bytes) \<Rightarrow> bytes \<Rightarrow> bytes run" where
  "bench_blake3_streaming h data = do {
     pieces \<leftarrow> chunks (64 * 1024) data;
     let hasher = foldl blake3_hasher_update blake3_hasher_new pieces;
     Some (blake3_hasher_finalize h hasher)
   }"

definition bench_crc32c :: "bytes \<Rightarrow> u32 run" where
  "bench_crc32c data = Some (crc32c_digest data)"

definition bench_extract_blocks :: "bytes \<Rightarrow> bytes list run" where
  "bench_extract_blocks data = do {
     params \<leftarrow> expect (chunk_params_new (of_nat (length data)) 4 1024);
     chunker \<leftarrow> expect (chunk_map_new params);
     collect_run (\<lambda>block. expect (extract_block chunker data block)) (block_indices chunker)
   }"

definition bench_encode ::
  "('cfg, 'enc, 'pkt, 'dec) raptorq \<Rightarrow> (bytes \<Rightarrow> u16 \<Rightarrow> 'enc) \<Rightarrow> bytes \<Rightarrow> 'pkt list run" where
  "bench_encode R mk data = Some (fec_packets R (fec_encode mk data fec_params_new) 0)"

definition bench_decode ::
  "('cfg, 'enc, 'pkt, 'dec) raptorq \<Rightarrow> (bytes \<Rightarrow> u16 \<Rightarrow> 'enc) \<Rightarrow> ('enc \<Rightarrow> 'cfg) \<Rightarrow> bytes \<Rightarrow> bytes run" where
  "bench_decode R mk conf data =
     (let encoder = fec_encode mk data fec_params_new;
          packets = fec_packets R encoder 0;
          config = fec_config conf encoder
      in fec_decode R packets config)"

definition BENCH_KEY :: bytes where "BENCH_KEY = replicate 32 0xAB"

definition bench_serialize :: "(bytes \<Rightarrow> bytes \<Rightarrow> bytes) \<Rightarrow> bytes \<Rightarrow> bytes run" where
  "bench_serialize kh payload = do {
     header \<leftarrow> frame_header_new FtRepair (replicate 16 0x42) 0 0 payload;
     Some (frame_to_vec (frame_build kh header payload BENCH_KEY))
   }"

definition bench_parse :: "(bytes \<Rightarrow> bytes \<Rightarrow> bytes) \<Rightarrow> bytes \<Rightarrow> Frame run" where
  "bench_parse kh payload = do {
     header \<leftarrow> frame_header_new FtRepair (replicate 16 0x42) 0 0 payload;
     expect (frame_from_bytes kh (frame_to_vec (frame_build kh header payload BENCH_KEY)) BENCH_KEY)
   }"

section \<open>What is measured\<close>

lemma length_data_of [simp]: "length (data_of n) = n"
  by (simp add: data_of_def)

text \<open>The two forms of the digest that are compared agree, on the benchmark's data and any other.\<close>

theorem bench_digests_agree: "bench_blake3_streaming h data = bench_blake3 h data"
  using blake3_streaming_equals_one_shot [of h "chunks_of (64 * 1024) data"]
  by (simp add: bench_blake3_streaming_def bench_blake3_def chunks_def concat_chunks Let_def)

text \<open>The chunker's benchmark, at every size it runs at, extracts four blocks that make up the data.\<close>

theorem bench_chunker_runs:
  assumes "n \<in> set SIZES"
  shows "\<exists>blocks. bench_extract_blocks (data_of n) = Some blocks \<and> length blocks = 4 \<and>
     concat blocks = data_of n"
proof -
  let ?data = "data_of n"
  have lt: "n < 2 ^ 32" using assms by (auto simp: SIZES_def)
  then have S: "unat (of_nat n :: u64) = n" by (intro unat_of_nat_lt) simp
  obtain m where m: "sample_map (of_nat n) 4 1024 = Some m"
    and mf: "map_for \<lparr>cp_payload_size = of_nat n, cp_block_count = 4, cp_symbol_size = 1024\<rparr> m" (is "map_for ?p m")
    using sample_map_for [of "of_nat n" 4 1024] lt S by auto
  have v: "params_valid ?p" using mf by (simp add: map_for_def)
  show ?thesis
    using extract_all [OF mf, of ?data] payload_blocks_props [OF v, of ?data] m S
    by (auto simp: bench_extract_blocks_def sample_map_def bind_eq_Some_conv)
qed

text \<open>The frame benchmarks: the frame built is parsed back with its payload, at any size of a symbol.\<close>

theorem bench_frame_runs:
  assumes "keyed_hash_32 kh" and "length payload \<le> 65535"
  shows "\<exists>bytes frame. bench_serialize kh payload = Some bytes \<and> bench_parse kh payload = Some frame \<and>
     fr_payload frame = payload \<and> length bytes = FRAME_HEADER_SIZE + length payload"
proof -
  obtain h where h: "frame_header_new FtRepair (replicate 16 0x42) 0 0 payload = Some h"
    using assms(2) by (simp add: frame_header_new_def MAX_PAYLOAD_LEN_def)
  let ?f = "frame_build kh h payload BENCH_KEY"
  have v: "frame_valid kh BENCH_KEY ?f" by (rule frame_build_valid [OF assms(1) _ h]) simp
  then have "frame_from_bytes kh (frame_to_vec ?f) BENCH_KEY = Inr ?f" by (auto simp: frame_parse_iff)
  moreover have "length (frame_to_vec ?f) = FRAME_HEADER_SIZE + length (fr_payload ?f)"
    using v by (simp add: frame_to_vec_def frame_valid_def fhdr.length_to_vec)
  moreover have "fr_payload ?f = payload" by (simp add: frame_build_def frame_build_owned_def)
  ultimately show ?thesis by (simp add: bench_serialize_def bench_parse_def h)
qed

end
