(* ===== verification/Ffi_Threads.thy ===== *)
theory Ffi_Threads
  imports Ffi_Contract
begin

text \<open>
  Several threads in one process (\<open>error.rs\<close>, "Threading"). The boxes behind the handles and the
  files are shared; \<open>LAST_ERROR\<close> is \<open>thread_local!\<close>, so every thread has its own slot, empty at first.
  A call is one step of its thread, with \<^const>\<open>lib_last_error\<close> standing for the slot of the thread that
  makes it. That is faithful to any schedule of calls that do not overlap on a handle: \<open>docs/FFI.md\<close>
  ("Threading") forbids two threads to use one handle at the same time, and calls on different handles
  touch different boxes and different slots.
\<close>

type_synonym thread = nat

record ('sk, 'vk, 'dec) process =
  pr_library :: "('sk, 'vk, 'dec) library"
  pr_errors :: "thread \<Rightarrow> message"

definition process_new :: "files \<Rightarrow> ('sk, 'vk, 'dec) process" where
  "process_new F = \<lparr>pr_library = library_new F, pr_errors = \<lambda>_. text_message []\<rparr>"

definition on_thread :: "thread \<Rightarrow> ('sk, 'vk, 'dec) process \<Rightarrow> ('sk, 'vk, 'dec) library" where
  "on_thread t P = (pr_library P)\<lparr>lib_last_error := pr_errors P t\<rparr>"

definition off_thread ::
  "thread \<Rightarrow> ('sk, 'vk, 'dec) library \<Rightarrow> ('sk, 'vk, 'dec) process \<Rightarrow> ('sk, 'vk, 'dec) process" where
  "off_thread t L P = \<lparr>pr_library = L, pr_errors = (pr_errors P)(t := lib_last_error L)\<rparr>"

text \<open>\<open>thread_run V ts P P'\<close>: calls by the threads \<open>ts\<close>, in this order, take \<open>P\<close> to \<open>P'\<close>.\<close>

inductive thread_run ::
  "('cfg, 'enc, 'pkt, 'dec, 'sk, 'vk, 'qr) env \<Rightarrow> thread list \<Rightarrow>
   ('sk, 'vk, 'dec) process \<Rightarrow> ('sk, 'vk, 'dec) process \<Rightarrow> bool"
  for V where
  idle: "thread_run V [] P P"
| call: "ffi_call V (on_thread t P) L \<Longrightarrow> thread_run V ts (off_thread t L P) P' \<Longrightarrow> thread_run V (t # ts) P P'"


section \<open>Lemmas\<close>

lemma library_ok_last_error [simp]: "library_ok B (L\<lparr>lib_last_error := m\<rparr>) = library_ok B L"
  by (simp add: library_ok_def)

lemma thread_run_keeps:
  "thread_run V ts P P' \<Longrightarrow> library_ok (box_ok (ev_ed25519 V)) (pr_library P) \<Longrightarrow>
   library_ok (box_ok (ev_ed25519 V)) (pr_library P')"
proof (induction rule: thread_run.induct)
  case (call t P L ts P')
  then have "library_ok (box_ok (ev_ed25519 V)) (on_thread t P)" by (simp add: on_thread_def)
  from handles.call_keeps [OF call(1) this] call(3) show ?case by (simp add: off_thread_def)
qed

lemma thread_run_errors: "thread_run V ts P P' \<Longrightarrow> t \<notin> set ts \<Longrightarrow> pr_errors P' t = pr_errors P t"
  by (induction rule: thread_run.induct) (auto simp: off_thread_def)

lemma last_error_message_reads_slot:
  "dhow_last_error_message display buf len L = Returns r M \<Longrightarrow> lib_last_error L' = lib_last_error L \<Longrightarrow>
   \<exists>M'. dhow_last_error_message display buf len L' = Returns r M'"
  by (cases buf)
    (auto simp: dhow_last_error_message_def guard_with_def catch_unwind_def copy_to_def Let_def
      split: if_splits outcome.splits)

section \<open>Properties\<close>

text \<open>A thread reads its own last error. After a call by a thread, whatever the other threads call in
  between, \<open>dhow_last_error_message\<close> on that thread returns and writes exactly what it would have right after the
  call.\<close>

theorem thread_reads_own_error:
  assumes "ffi_call V (on_thread t P) L" and "thread_run V ts (off_thread t L P) P'" and "t \<notin> set ts"
    and "dhow_last_error_message display buf len L = Returns r M"
  shows "\<exists>M'. dhow_last_error_message display buf len (on_thread t P') = Returns r M'"
proof -
  have "lib_last_error (on_thread t P') = lib_last_error L"
    using thread_run_errors [OF assms(2,3)] by (simp add: on_thread_def off_thread_def)
  from last_error_message_reads_slot [OF assms(4) this] show ?thesis .
qed

text \<open>C7: whatever calls any number of threads make, in whatever order they interleave, a live handle to a
  manifest stands for the parse of its bytes with a signature that verifies under some identity, a
  live decoder satisfies the receiver's invariant, and the null handle is never live.\<close>

theorem threads_keep_handles_sound:
  assumes "thread_run V ts (process_new F) P"
  shows "lib_heap (pr_library P) 0 = None \<and>
    (\<forall>a m. lib_heap (pr_library P) a = Some (BoxManifest m) \<longrightarrow>
       manifest_from_bytes (dm_bytes m) = Inr (dm_manifest m) \<and>
       (ed25519_signs (ev_ed25519 V) \<longrightarrow> (\<exists>pk. public_verify (ev_ed25519 V) pk
          (signing_bytes (dm_manifest m)) (mh_signature (mf_header (dm_manifest m)))))) \<and>
    (\<forall>a d. lib_heap (pr_library P) a = Some (BoxDecoder d) \<longrightarrow> decoder_wf (dd_inner d))"
proof -
  have "library_ok (box_ok (ev_ed25519 V)) (pr_library (process_new F))"
    by (simp add: library_ok_def process_new_def library_new_def)
  from thread_run_keeps [OF assms this] have L: "library_ok (box_ok (ev_ed25519 V)) (pr_library P)" .
  then have b: "box_ok (ev_ed25519 V) b" if "lib_heap (pr_library P) a = Some b" for a b
    using that by (simp add: library_ok_def)
  have "lib_heap (pr_library P) 0 = None" using L by (simp add: library_ok_def)
  with b [of _ "BoxManifest _"] b [of _ "BoxDecoder _"] show ?thesis by simp
qed

text \<open>In the examples thread 0 passes a null decoder and thread 1 makes a hasher.\<close>

lemma two_threads:
  fixes V :: "('cfg, 'enc, 'pkt, 'dec, 'sk, 'vk, 'qr) env"
  defines "P \<equiv> process_new (\<lambda>_. None) :: ('sk, 'vk, 'dec) process"
  obtains L P' where "ffi_call V (on_thread 0 P) L" and "lib_last_error L = text_message ''decoder handle was null''"
    and "thread_run V [1] (off_thread 0 L P) P'" and "thread_run V [0, 1] P P'"
    and "lib_heap (pr_library P') 1 = Some (BoxHasher \<lparr>dh_inner = blake3_hasher_new\<rparr>)"
    and "lib_last_error (on_thread 1 P') = text_message []"
proof -
  obtain L where L: "dhow_decoder_resume_verify (ev_checks V) (ev_hash V) 0 None 0 (on_thread 0 P) = Returns StNullArgument L"
    and e: "lib_last_error L = text_message ''decoder handle was null''"
    and heap: "lib_heap L = (\<lambda>_. None)" "lib_next L = 1"
    by (simp add: dhow_decoder_resume_verify_def guard_def guard_with_def catch_unwind_def on_thread_def P_def
        process_new_def library_new_def)
  have c: "ffi_call V (on_thread 0 P) L" by (rule call_decoder_resume_verify [OF L])
  let ?P1 = "off_thread 0 L P"
  obtain M where M: "dhow_hasher_new (on_thread 1 ?P1) = Returns 1 M"
    and h: "lib_heap M 1 = Some (BoxHasher \<lparr>dh_inner = blake3_hasher_new\<rparr>)" and m: "lib_last_error M = text_message []"
    by (simp add: dhow_hasher_new_def guard_ptr_def guard_with_def catch_unwind_def into_raw_def on_thread_def
        off_thread_def P_def process_new_def library_new_def heap)
  let ?P2 = "off_thread 1 M ?P1"
  have r: "thread_run V [1] ?P1 ?P2"
    by (rule thread_run.call [OF call_hasher_new [OF M] thread_run.idle])
  show thesis
    by (rule that [OF c e r thread_run.call [OF c r]]) (simp_all add: off_thread_def on_thread_def h m del: One_nat_def)
qed

theorem threads_keep_handles_sound_witness:
  "\<forall>V :: (unit, bytes, bytes, bytes option, bytes, bytes, unit) env. \<exists>P.
     thread_run V [0, 1] (process_new (\<lambda>_. None)) P \<and>
     lib_heap (pr_library P) 1 = Some (BoxHasher \<lparr>dh_inner = blake3_hasher_new\<rparr>) \<and> lib_heap (pr_library P) 0 = None"
proof
  fix V :: "(unit, bytes, bytes, bytes option, bytes, bytes, unit) env"
  obtain P :: "(bytes, bytes, bytes option) process" where "thread_run V [0, 1] (process_new (\<lambda>_. None)) P"
    and "lib_heap (pr_library P) 1 = Some (BoxHasher \<lparr>dh_inner = blake3_hasher_new\<rparr>)"
    by (rule two_threads)
  with threads_keep_handles_sound [OF this(1)]
  show "\<exists>P. thread_run V [0, 1] (process_new (\<lambda>_. None)) P \<and>
      lib_heap (pr_library P) 1 = Some (BoxHasher \<lparr>dh_inner = blake3_hasher_new\<rparr>) \<and> lib_heap (pr_library P) 0 = None"
    by blast
qed

end
