(* ===== verification/Error_Texts.thy ===== *)
theory Error_Texts
  imports Ffi_Contract
begin

text \<open>
  The texts of the errors: the \<open>Display\<close> that \<open>thiserror\<close> generates from the \<open>#[error(..)]\<close> strings of
  \<open>dhow-codec/src/lib.rs\<close>, \<open>dhow-codec/src/qr.rs\<close> and \<open>dhow-crypt/src/lib.rs\<close>, with the formatting of
  the standard library that they use, and the text of a message of the C interface. \<open>sys\<close> is the text
  of an error of the operating system or of an external crate. The texts say what a
  caller reads through \<open>dhow_last_error_message\<close>: which messages are complete C strings, what a failed
  decryption or a refused key file discloses, and that the name of a refused manifest
  entry is copied into the message as it is.
\<close>

section \<open>Formatting\<close>

text \<open>An argument is a number, an array printed with \<open>{:?}\<close>, or a text. A placeholder ends with \<open>:#010x\<close>,
  \<open>:#04x\<close> or \<open>:#o\<close> where it asks for another base than ten.\<close>

datatype arg = Num nat | Arr bytes | Text bytes

function radix :: "nat \<Rightarrow> nat \<Rightarrow> string" where
  "radix base n =
     (if n < base \<or> base < 2 then [hex_digit n] else radix base (n div base) @ [hex_digit (n mod base)])"
  by pat_completeness auto
termination by (relation "measure snd") (auto intro: div_less_dividend)

declare radix.simps [simp del]

definition zero_padded :: "nat \<Rightarrow> string \<Rightarrow> string" where
  "zero_padded width digits = replicate (width - length digits) (CHR ''0'') @ digits"

definition show_num :: "string \<Rightarrow> nat \<Rightarrow> string" where
  "show_num placeholder n =
     (let spec = dropWhile (\<lambda>c. c \<noteq> CHR '':'') placeholder in
      if spec = '':#010x'' then ''0x'' @ zero_padded 8 (radix 16 n)
      else if spec = '':#04x'' then ''0x'' @ zero_padded 2 (radix 16 n)
      else if spec = '':#o'' then ''0o'' @ radix 8 n
      else decimal n)"

fun show_items :: "bytes \<Rightarrow> string" where
  "show_items [] = ''''"
| "show_items [b] = decimal (unat b)"
| "show_items (b # bs) = decimal (unat b) @ '', '' @ show_items bs"

fun show_arg :: "string \<Rightarrow> arg \<Rightarrow> bytes" where
  "show_arg placeholder (Num n) = ascii (show_num placeholder n)"
| "show_arg placeholder (Arr bs) = ascii (''['' @ show_items bs @ '']'')"
| "show_arg placeholder (Text t) = t"

text \<open>\<open>format!(template, args..)\<close>: every placeholder takes the next argument.\<close>

function format_args :: "string \<Rightarrow> arg list \<Rightarrow> bytes" where
  "format_args [] args = []"
| "format_args (c # cs) args =
     (if c = CHR ''{'' then
        (let name = takeWhile (\<lambda>x. x \<noteq> CHR ''}'') cs;
             rest = drop (Suc (length name)) cs
         in case args of
              [] \<Rightarrow> format_args rest []
            | a # as \<Rightarrow> show_arg name a @ format_args rest as)
      else of_nat (of_char c) # format_args cs args)"
  by pat_completeness auto
termination by (relation "measure (\<lambda>(cs, args). length cs)") auto

text \<open>The placeholders of a template. The arguments a \<^typ>\<open>detail\<close> keeps are the numbers of its template;
  where it prints an array or a name, their bytes.\<close>

function placeholders :: "string \<Rightarrow> string list" where
  "placeholders [] = []"
| "placeholders (c # cs) =
     (if c = CHR ''{'' then
        (let name = takeWhile (\<lambda>x. x \<noteq> CHR ''}'') cs in name # placeholders (drop (Suc (length name)) cs))
      else placeholders cs)"
  by pat_completeness auto
termination by (relation "measure length") auto

fun detail_text :: "bytes \<Rightarrow> detail \<Rightarrow> bytes" where
  "detail_text sys (Detail t args) =
     (let ps = placeholders t in
      format_args t
        (if '':?'' \<in> set ps then [Arr (map of_nat args)]
         else if ''name'' \<in> set ps then [Text (map of_nat (butlast args)), Num (last args)]
         else if ''e'' \<in> set ps then [Text sys]
         else map Num args))"

section \<open>The errors of the codec\<close>

fun chunk_error_text :: "ChunkError \<Rightarrow> bytes" where
  "chunk_error_text (PayloadTooLarge sz mx) =
     format_args ''payload size {size} exceeds maximum {max}'' [Num (unat sz), Num (unat mx)]"
| "chunk_error_text (InvalidBlockCount n) = format_args ''invalid block count: {count}'' [Num (unat n)]"
| "chunk_error_text (InvalidSymbolSize n) = format_args ''invalid symbol size: {size}'' [Num (unat n)]"
| "chunk_error_text EmptyPayload = format_args ''payload is empty'' []"
| "chunk_error_text (BlockIndexOutOfRange i n) =
     format_args ''block index {index} out of range (0..{count})'' [Num (unat i), Num (unat n)]"
| "chunk_error_text (SymbolIndexOutOfRange i n) =
     format_args ''symbol index {index} out of range (0..{count})'' [Num (unat i), Num (unat n)]"
| "chunk_error_text (ChunkTruncated e a) =
     format_args ''payload truncated: expected {expected} bytes, got {actual}'' [Num e, Num a]"

fun frame_error_text :: "FrameError \<Rightarrow> bytes" where
  "frame_error_text (FrameInvalidMagic g) =
     format_args ''invalid magic bytes: expected DHOW, got {got:?}'' [Arr g]"
| "frame_error_text (FrameUnsupportedVersion v) = format_args ''unsupported version: {version}'' [Num (unat v)]"
| "frame_error_text (FrameCrcMismatch e a) =
     format_args ''CRC32C mismatch: expected {expected:#010x}, got {actual:#010x}'' [Num (unat e), Num (unat a)]"
| "frame_error_text (FramePayloadTooLarge n) =
     format_args ''payload length {length} exceeds maximum 65535'' [Num (unat n)]"
| "frame_error_text (FrameTruncated e a) =
     format_args ''frame truncated: expected {expected} bytes, got {actual}'' [Num e, Num a]"
| "frame_error_text (UnknownFrameType t) = format_args ''unknown frame type: {frame_type}'' [Num (unat t)]"
| "frame_error_text (FrameSessionMismatch e a) =
     format_args ''session ID mismatch: expected {expected:?}, got {actual:?}'' [Arr e, Arr a]"
| "frame_error_text MacVerificationFailed = format_args ''MAC verification failed'' []"
| "frame_error_text (HeaderTooShort n) =
     format_args ''frame header too short: {length} bytes (minimum 46)'' [Num n]"
| "frame_error_text (ReservedFieldNonZero v) =
     format_args ''reserved field must be zero, got {value}'' [Num (unat v)]"

fun session_error_text :: "bytes \<Rightarrow> SessionError \<Rightarrow> bytes" where
  "session_error_text sys NotInitialized = format_args ''session not initialized'' []"
| "session_error_text sys InvalidSessionId = format_args ''session ID is all zeros'' []"
| "session_error_text sys (InvalidParameters d) =
     format_args ''invalid session parameters: {details}'' [Text (detail_text sys d)]"
| "session_error_text sys DigestMismatch = format_args ''payload digest mismatch'' []"

fun resume_error_text :: "bytes \<Rightarrow> ResumeError \<Rightarrow> bytes" where
  "resume_error_text sys (ResumeInvalidMagic g) =
     format_args ''invalid resume file magic: expected DHRS, got {got:?}'' [Arr g]"
| "resume_error_text sys (ResumeUnsupportedVersion v) =
     format_args ''unsupported resume version: {version}'' [Num (unat v)]"
| "resume_error_text sys IntegrityCheckFailed =
     format_args ''resume file integrity check failed (possible tampering)'' []"
| "resume_error_text sys (ResumeTruncated e a) =
     format_args ''resume file truncated: expected {expected} bytes, got {actual}'' [Num e, Num a]"
| "resume_error_text sys ResumeSessionMismatch = format_args ''resume session ID mismatch'' []"
| "resume_error_text sys (ResumeBlockIndexOutOfRange i) =
     format_args ''resume block index {index} out of range'' [Num (unat i)]"
| "resume_error_text sys (InvalidSymbolCount n) = format_args ''invalid symbol count: {count}'' [Num (unat n)]"
| "resume_error_text sys (ReservedNotZero o') =
     format_args ''reserved field at offset {offset} is not zero'' [Num o']"
| "resume_error_text sys (HeldCountMismatch d b) =
     format_args ''resume block declares {declared} symbols held but its bitmap has {bitmap}''
       [Num (unat d), Num (unat b)]"
| "resume_error_text sys (ResumeTrailingBytes n) =
     format_args ''resume file has {extra} trailing bytes after the last block entry'' [Num n]"
| "resume_error_text sys (JournalMismatch d) =
     format_args ''resume state does not describe this journal: {details}'' [Text (detail_text sys d)]"

fun manifest_error_text :: "bytes \<Rightarrow> ManifestError \<Rightarrow> bytes" where
  "manifest_error_text sys (ManifestInvalidMagic g) =
     format_args ''invalid manifest magic: expected DHMF, got {got:?}'' [Arr g]"
| "manifest_error_text sys (ManifestUnsupportedVersion v) =
     format_args ''unsupported manifest version: {version}'' [Num (unat v)]"
| "manifest_error_text sys SignatureVerificationFailed =
     format_args ''manifest signature verification failed'' []"
| "manifest_error_text sys ManifestCrcMismatch = format_args ''manifest CRC mismatch'' []"
| "manifest_error_text sys (ManifestTruncated e a) =
     format_args ''manifest truncated: expected {expected} bytes, got {actual}'' [Num e, Num a]"
| "manifest_error_text sys (PathTraversal n) =
     format_args ''path traversal detected in file name: {name}'' [Text n]"
| "manifest_error_text sys (FileNameTooLong l) =
     format_args ''file name too long: {length} bytes (max 4096)'' [Num l]"
| "manifest_error_text sys (FileSizeTooLarge sz mx) =
     format_args ''file size {size} exceeds maximum {max}'' [Num (unat sz), Num (unat mx)]"
| "manifest_error_text sys (InvalidFileCount n) =
     format_args ''invalid file count in manifest: {count}'' [Num (unat n)]"
| "manifest_error_text sys ManifestSessionMismatch = format_args ''manifest session ID mismatch'' []"
| "manifest_error_text sys (Malformed d) =
     format_args ''malformed manifest: {details}'' [Text (detail_text sys d)]"

fun fec_error_text :: "bytes \<Rightarrow> FecError \<Rightarrow> bytes" where
  "fec_error_text sys FecPayloadTooLarge = format_args ''payload too large for FEC encoding'' []"
| "fec_error_text sys (InvalidSourceBlock d) =
     format_args ''invalid source block size: {details}'' [Text (detail_text sys d)]"
| "fec_error_text sys InsufficientPackets = format_args ''decoding failed: insufficient packets'' []"
| "fec_error_text sys (MtuTooSmall m n) =
     format_args ''MTU {mtu} is below minimum {min}'' [Num (unat m), Num (unat n)]"

text \<open>The parenthesis that is not closed is the source's.\<close>

fun codec_error_text :: "bytes \<Rightarrow> CodecError \<Rightarrow> bytes" where
  "codec_error_text sys (CodecChunk e) = format_args ''chunking error: {0}'' [Text (chunk_error_text e)]"
| "codec_error_text sys (CodecFrame e) = format_args ''frame error: {0}'' [Text (frame_error_text e)]"
| "codec_error_text sys (CodecFramePayloadTooLarge l m) =
     format_args ''frame payload too large: {length} bytes (max {max}'' [Num l, Num m]"
| "codec_error_text sys (CodecSession e) = format_args ''session error: {0}'' [Text (session_error_text sys e)]"
| "codec_error_text sys (CodecManifest e) = format_args ''manifest error: {0}'' [Text (manifest_error_text sys e)]"
| "codec_error_text sys (CodecResume e) = format_args ''resume error: {0}'' [Text (resume_error_text sys e)]"
| "codec_error_text sys (CodecRaptorQ d) = format_args ''raptorq error: {details}'' [Text (detail_text sys d)]"
| "codec_error_text sys (CodecFec e) = format_args ''FEC error: {0}'' [Text (fec_error_text sys e)]"
| "codec_error_text sys (CodecInternal d) = format_args ''internal error: {details}'' [Text (detail_text sys d)]"

fun ecc_debug :: "Ecc \<Rightarrow> string" where
  "ecc_debug Low = ''Low''"
| "ecc_debug Medium = ''Medium''"
| "ecc_debug Quartile = ''Quartile''"
| "ecc_debug High = ''High''"

fun qr_error_text :: "QrError \<Rightarrow> bytes" where
  "qr_error_text (DataTooLong l v e) =
     format_args ''data too large for QR encoding: {length} bytes exceeds the capacity of version {version} at {ecc:?}''
       [Num l, Num (unat v), Text (ascii (ecc_debug e))]"
| "qr_error_text (InvalidVersion v) =
     format_args ''invalid QR version {version}, must be 1..=40'' [Num (unat v)]"

section \<open>The errors of the crypto crate\<close>

fun key_error_text :: "bytes \<Rightarrow> KeyError \<Rightarrow> bytes" where
  "key_error_text sys (GenerationFailed d) =
     format_args ''key generation failed: {details}'' [Text (detail_text sys d)]"
| "key_error_text sys (KeyInvalidMagic e g) =
     format_args ''invalid key file magic: expected {expected:?}, got {got:?}'' [Arr e, Arr g]"
| "key_error_text sys (KeyUnsupportedVersion v) =
     format_args ''unsupported key file version: {version}'' [Num (unat v)]"
| "key_error_text sys (KeyTruncated e a) =
     format_args ''key file truncated: expected {expected} bytes, got {actual}'' [Num e, Num a]"
| "key_error_text sys (InsecurePermissions p) =
     format_args ''key file permissions too permissive: {perms:#o} (expected 0600)'' [Num (unat p)]"
| "key_error_text sys (InvalidKey d) = format_args ''invalid key data: {details}'' [Text (detail_text sys d)]"
| "key_error_text sys ZeroizationFailed = format_args ''key zeroization failed'' []"

fun aead_error_text :: "bytes \<Rightarrow> AeadError \<Rightarrow> bytes" where
  "aead_error_text sys (EncryptionFailed d) = format_args ''encryption failed: {details}'' [Text (detail_text sys d)]"
| "aead_error_text sys (DecryptionFailed d) = format_args ''decryption failed: {details}'' [Text (detail_text sys d)]"
| "aead_error_text sys (InvalidNonce d) = format_args ''invalid nonce: {details}'' [Text (detail_text sys d)]"
| "aead_error_text sys (KeyDerivationFailed d) =
     format_args ''key derivation failed: {details}'' [Text (detail_text sys d)]"

fun crypt_manifest_error_text :: "bytes \<Rightarrow> CryptManifestError \<Rightarrow> bytes" where
  "crypt_manifest_error_text sys (CmInvalidMagic g) =
     format_args ''invalid manifest magic: expected DHMF, got {got:?}'' [Arr g]"
| "crypt_manifest_error_text sys (CmUnsupportedVersion v) =
     format_args ''unsupported manifest version: {version}'' [Num (unat v)]"
| "crypt_manifest_error_text sys CmSignatureVerificationFailed =
     format_args ''manifest signature verification failed'' []"
| "crypt_manifest_error_text sys CmCrcMismatch = format_args ''manifest CRC mismatch'' []"
| "crypt_manifest_error_text sys (CmTruncated e a) =
     format_args ''manifest truncated: expected {expected} bytes, got {actual}'' [Num e, Num a]"
| "crypt_manifest_error_text sys (CmPathTraversal n) =
     format_args ''path traversal detected in file name: {name}'' [Text n]"
| "crypt_manifest_error_text sys (CmFileNameTooLong l) =
     format_args ''file name too long: {length} bytes (max 4096)'' [Num l]"
| "crypt_manifest_error_text sys (CmFileSizeTooLarge sz mx) =
     format_args ''file size {size} exceeds maximum {max}'' [Num (unat sz), Num (unat mx)]"
| "crypt_manifest_error_text sys (CmInvalidBlockCount n) =
     format_args ''invalid block count in manifest: {count}'' [Num (unat n)]"
| "crypt_manifest_error_text sys CmSessionMismatch = format_args ''manifest session ID mismatch'' []"
| "crypt_manifest_error_text sys (CmMalformed d) =
     format_args ''malformed manifest: {details}'' [Text (detail_text sys d)]"

text \<open>Two types of the crate's interface that no function of it returns: the errors of signing, and the
  sum of all errors, whose \<open>From\<close> conversions are its constructors.\<close>

datatype SigningError =
    SigningFailed detail
  | VerificationFailed
  | InvalidPublicKey detail
  | InvalidSignature detail

fun signing_error_text :: "bytes \<Rightarrow> SigningError \<Rightarrow> bytes" where
  "signing_error_text sys (SigningFailed d) = format_args ''signing failed: {details}'' [Text (detail_text sys d)]"
| "signing_error_text sys VerificationFailed = format_args ''signature verification failed'' []"
| "signing_error_text sys (InvalidPublicKey d) =
     format_args ''invalid public key: {details}'' [Text (detail_text sys d)]"
| "signing_error_text sys (InvalidSignature d) =
     format_args ''invalid signature: {details}'' [Text (detail_text sys d)]"

datatype CryptError =
    CryptKey KeyError
  | CryptAead AeadError
  | CryptSigning SigningError
  | CryptManifest CryptManifestError
  | CryptInternal detail

fun crypt_error_text :: "bytes \<Rightarrow> CryptError \<Rightarrow> bytes" where
  "crypt_error_text sys (CryptKey e) = format_args ''key error: {0}'' [Text (key_error_text sys e)]"
| "crypt_error_text sys (CryptAead e) = format_args ''aead error: {0}'' [Text (aead_error_text sys e)]"
| "crypt_error_text sys (CryptSigning e) = format_args ''signing error: {0}'' [Text (signing_error_text sys e)]"
| "crypt_error_text sys (CryptManifest e) =
     format_args ''manifest error: {0}'' [Text (crypt_manifest_error_text sys e)]"
| "crypt_error_text sys (CryptInternal d) = format_args ''internal error: {details}'' [Text (detail_text sys d)]"

section \<open>Messages\<close>

fun message_text :: "bytes \<Rightarrow> message \<Rightarrow> bytes" where
  "message_text sys (Msg d) = detail_text sys d"
| "message_text sys (MsgCodec e) = codec_error_text sys e"
| "message_text sys (MsgKey e) = key_error_text sys e"
| "message_text sys (MsgAead e) = aead_error_text sys e"
| "message_text sys (MsgResume e) = resume_error_text sys e"
| "message_text sys (MsgQr e) = qr_error_text e"
| "message_text sys (MsgManifest e) = crypt_manifest_error_text sys e"
| "message_text sys (MsgNotParsedBack e) =
     format_args ''signed manifest did not parse back: {e}'' [Text (manifest_error_text sys e)]"
| "message_text sys (MsgFileEntry i e) =
     format_args ''file entry {i}: {e}'' [Num i, Text (manifest_error_text sys e)]"

section \<open>Texts without a NUL\<close>

lemma of_char_zero: "of_nat (of_char c) = (0 :: u8) \<longleftrightarrow> c = CHR 0x00"
proof -
  let ?w = "of_nat (of_char c) :: u8"
  have u: "unat ?w = of_char c"
    using nat_of_char_less_256 [of c] by (intro unat_of_nat_lt) simp
  have "?w = 0 \<longleftrightarrow> unat ?w = 0" by (rule unat_eq_zero [symmetric])
  also have "\<dots> \<longleftrightarrow> of_char c = (of_char (CHR 0x00) :: nat)" unfolding u by simp
  finally show ?thesis by (simp only: of_char_eq_iff)
qed

lemma zero_ascii [simp]: "0 \<in> set (ascii s) \<longleftrightarrow> CHR 0x00 \<in> set s"
  by (auto simp: ascii_def image_iff of_char_zero dest: sym [of 0])

lemma char_of_no_nul: "0 < n \<Longrightarrow> n < 256 \<Longrightarrow> char_of n \<noteq> CHR 0x00" for n :: nat
proof
  assume n: "0 < n" "n < 256" and c: "char_of n = CHR 0x00"
  have "of_char (char_of n) = n" using n by simp
  with c n show False by simp
qed

lemma decimal_no_nul [simp]: "CHR 0x00 \<notin> set (decimal n)"
proof (induction n rule: decimal.induct)
  case (1 n)
  have "char_of (48 + n mod 10) \<noteq> CHR 0x00" "n < 10 \<Longrightarrow> char_of (48 + n) \<noteq> CHR 0x00"
    by (rule char_of_no_nul, simp_all)+
  with 1 show ?case by (subst decimal.simps) auto
qed

lemma hex_digit_no_nul: "n < 16 \<Longrightarrow> hex_digit n \<noteq> CHR 0x00"
proof -
  have "list_all (\<lambda>n. hex_digit n \<noteq> CHR 0x00) [0..<16]" by code_simp
  then show "n < 16 \<Longrightarrow> hex_digit n \<noteq> CHR 0x00" by (simp add: list_all_iff)
qed

lemma radix_no_nul [simp]: "2 \<le> b \<Longrightarrow> b \<le> 16 \<Longrightarrow> CHR 0x00 \<notin> set (radix b n)"
proof (induction b n rule: radix.induct)
  case (1 b n)
  have "n mod b < 16" using 1(2,3) by (meson le_less_trans less_le_trans mod_less_divisor not_less zero_less_numeral le_trans)
  then have "hex_digit (n mod b) \<noteq> CHR 0x00" by (rule hex_digit_no_nul)
  moreover have "n < b \<Longrightarrow> hex_digit n \<noteq> CHR 0x00" using 1(3) by (intro hex_digit_no_nul) simp
  ultimately show ?case using 1 by (subst radix.simps) auto
qed

lemma show_num_no_nul [simp]: "CHR 0x00 \<notin> set (show_num p n)"
  by (simp add: show_num_def zero_padded_def Let_def)

lemma show_items_no_nul [simp]: "CHR 0x00 \<notin> set (show_items bs)"
  by (induction bs rule: show_items.induct) simp_all

fun arg_nul :: "arg \<Rightarrow> bool" where
  "arg_nul (Text t) = (0 \<in> set t)"
| "arg_nul _ = False"

lemma show_arg_nul: "0 \<in> set (show_arg p a) \<longleftrightarrow> arg_nul a"
  by (cases a) simp_all

text \<open>A formatted text has a NUL only where its template or an argument that is a text has one.\<close>

lemma format_args_nul:
  "0 \<in> set (format_args t args) \<Longrightarrow> CHR 0x00 \<in> set t \<or> (\<exists>a \<in> set args. arg_nul a)"
proof (induction t args rule: format_args.induct)
  case (2 c cs args)
  then show ?case
    by (auto simp: of_char_zero show_arg_nul Let_def split: if_splits list.splits dest: in_set_dropD)
qed simp

text \<open>The texts of frame errors and of the refusals of a receiver are C strings as they are.\<close>

lemma frame_error_no_nul: "0 \<notin> set (frame_error_text e)"
  by (cases e) (auto dest!: format_args_nul)

lemma rejected_no_nul:
  "decoder_accept R kh d f = (Inl e, d') \<Longrightarrow> 0 \<notin> set (codec_error_text sys e)"
  by (auto simp: decoder_accept_def Let_def frame_error_no_nul dest!: format_args_nul
      split: sum.splits if_splits BlockState.splits option.splits)

section \<open>The texts of failed decryptions\<close>

lemma decrypt_error:
  assumes "keyed_hash_32 kh" and "transfer_keys_derive kh key salt = Inr keys"
    and "decrypt_payload_in_place A keys nonce sid ct = Inl e"
  shows "message_text sys (MsgAead e) = ascii (if length ct < 16
     then ''decryption failed: ciphertext is shorter than the 16-byte tag''
     else ''decryption failed: authentication failed'')"
proof -
  have "cipher_key_ok (tk_payload_key keys)"
    using assms(1,2) by (auto simp: transfer_keys_derive_def derive_key_eq keyed_hash_32_def cipher_key_ok_def)
  with assms(3) show ?thesis
    by (auto simp: decrypt_payload_in_place_def TAG_LEN_def Let_def ascii_def show_num_def decimal.simps
        split: if_splits option.splits)
qed

lemma call_bind_returns:
  "call_bind m f L = Returns x L' \<longleftrightarrow> (\<exists>y M. m L = Returns y M \<and> f y M = Returns x L')"
  by (cases "m L") simp_all

lemma slice_from_keeps: "slice_from q n L = Returns r L' \<Longrightarrow> L' = L"
  by (auto simp: slice_from_def split: option.splits if_splits)

lemma write_out_status: "write_out data buf len written L = Returns (st, out) L' \<Longrightarrow> st \<noteq> StCryptoFailed"
  by (auto simp: write_out_def copy_to_def Let_def split: option.splits if_splits)

lemma finish_crypto_failed:
  assumes "dhow_decoder_finish kh h A p k sid salt nonce buf len written L = Returns (StCryptoFailed, out) L'"
  shows "\<exists>d key s sa n ct keys e. lib_heap L p = Some (BoxDecoder d) \<and> decoder_finish h (dd_inner d) = Inr ct \<and>
     transfer_keys_derive kh key sa = Inr keys \<and> decrypt_payload_in_place A keys n s ct = Inl e \<and>
     lib_last_error L' = MsgAead e"
  using assms unfolding dhow_decoder_finish_def guard_out_def
proof (elim guard_with_cases, goal_cases)
  case 1
  then show ?case
  proof (clarsimp simp: call_bind_returns deref_returns simp del: call_bind_apply split: if_splits
      dest!: slice_from_keeps, goal_cases)
    case (1 a b c)
    then show ?case
      by (cases a; cases b; cases c; simp_all add: call_bind_returns deref_returns del: call_bind_apply)
        (clarsimp split: if_splits; clarsimp split: sum.splits; blast dest: write_out_status)
  qed
qed simp

text \<open>The error of a refused key file depends on its length and its first eight bytes.\<close>

lemma key_file_error_public:
  assumes "take 8 file = take 8 file'" and "length file = length file'"
    and "decode_key_file h file = Inl e" and "decode_key_file h file' = Inl e'"
  shows "e = e'"
proof (cases "length file = KEY_FILE_SIZE")
  case True
  have s: "slice a b file = slice a b file'" if "a \<le> b" "b \<le> 8" for a b
  proof -
    have "take b file = take b file'"
      using arg_cong [OF assms(1), of "take b"] that by (simp add: min_absorb1)
    then show ?thesis using that by (simp add: slice_def take_drop)
  qed
  have n: "file ! i = file' ! i" if "i < 8" for i
    using that arg_cong [OF assms(1), of "\<lambda>xs. xs ! i"] by simp
  show ?thesis
    using assms(2-4) True s [of 0 4] s [of 6 8] n [of 4] n [of 5]
    by (cases "key_kind_from_u8 (file ! 5)") (auto simp: decode_key_file_def split: if_splits)
qed (use assms in \<open>simp add: decode_key_file_def\<close>)

section \<open>Names in messages\<close>

lemma length_takeWhile_nul: "length (takeWhile (\<lambda>b. b \<noteq> 0) xs) < length xs \<longleftrightarrow> 0 \<in> set xs"
  by (induction xs) auto

lemma traversal_entry_refused:
  assumes "utf8_valid name" and "validate_name name = Inl (PathTraversal name)" and "41 \<le> length rest"
  shows "file_entry_from_bytes (u16_to_le_bytes (of_nat (length name)) @ name @ rest) = Inl (PathTraversal name)"
proof -
  let ?bs = "u16_to_le_bytes (of_nat (length name)) @ name @ rest"
  have n: "length name \<le> 4096"
    using assms(2) by (auto simp: validate_name_def MAX_NAME_LEN_def split: if_splits)
  have "[?bs ! 0, ?bs ! Suc 0] = slice 0 (0 + 2) ?bs"
    using assms(3) by (intro pair_slice) simp
  then have nl: "unat (u16_from_le_bytes [?bs ! 0, ?bs ! 1]) = length name"
    using n by (simp only: One_nat_def) (simp add: wire_simps unat_of_nat)
  have "slice 2 (2 + length name) ?bs = name" by (simp add: wire_simps)
  with assms n nl show ?thesis
    by (simp add: file_entry_from_bytes_def Let_def MAX_NAME_LEN_def ENTRY_FIXED_LEN_def)
qed

lemma entries_loop_refused:
  "list_all file_entry_wf es \<Longrightarrow> length es < n \<Longrightarrow> drop off bs = concat (map file_entry_to_vec es) @ rest \<Longrightarrow>
   rest \<noteq> [] \<Longrightarrow> file_entry_from_bytes rest = Inl e \<Longrightarrow> manifest_entries_loop n bs off acc = Inl e"
proof (induction es arbitrary: n off acc)
  case Nil
  then obtain k where "n = Suc k" by (cases n) auto
  moreover have "off < length bs" using Nil.prems(3,4) by (metis append_Nil concat.simps(1) drop_eq_Nil list.map(1) not_le)
  ultimately show ?case using Nil.prems by simp
next
  case (Cons x es)
  then obtain k where k: "n = Suc k" by (cases n) auto
  have d: "drop off bs = file_entry_to_vec x @ (concat (map file_entry_to_vec es) @ rest)"
    using Cons.prems by simp
  then have "drop off bs \<noteq> []" using file_entry_nonempty [of x] by simp
  then have "off < length bs" by simp
  moreover have "file_entry_from_bytes (drop off bs) = Inr (x, length (file_entry_to_vec x))"
    unfolding d using Cons.prems by (intro fentry.accepts) simp
  ultimately show ?case
    using Cons.IH [OF _ _ drop_after [OF d], of k "acc @ [x]"] Cons.prems k by simp
qed

lemma later_entry_refused:
  assumes "manifest_header_wf hdr" and "mh_file_count hdr \<le> MAX_FILE_COUNT"
    and "list_all file_entry_wf es" and "length es < unat (mh_file_count hdr)"
    and "file_entry_from_bytes rest = Inl e" and "rest \<noteq> []"
  shows "manifest_from_bytes (manifest_header_to_vec hdr @ concat (map file_entry_to_vec es) @ rest) = Inl e"
proof -
  let ?bs = "manifest_header_to_vec hdr @ concat (map file_entry_to_vec es) @ rest"
  have "drop MANIFEST_HEADER_SIZE ?bs = concat (map file_entry_to_vec es) @ rest"
    using mhdr.length_to_vec [OF assms(1)] by simp
  from entries_loop_refused [OF assms(3,4) this assms(6,5)]
  have "manifest_entries_loop (unat (mh_file_count hdr)) ?bs MANIFEST_HEADER_SIZE [] = Inl e" .
  moreover have "manifest_header_from_bytes ?bs = Inr hdr" by (rule mhdr.accepts [OF assms(1)])
  ultimately show ?thesis using leD [OF assms(2)] by (simp add: manifest_from_bytes_def)
qed

lemma finish_undecryptable:
  assumes "lib_heap L p = Some (BoxDecoder d)" and "p \<noteq> 0" and "lib_heap L k = Some (BoxKey key)"
    and "k \<noteq> 0" and "length sid = 16" and "length salt = 32" and "length nonce = 24"
    and "transfer_keys_derive kh (ok_bytes (dk_inner key)) salt = Inr keys"
    and "decoder_finish h (dd_inner d) = Inr ct"
    and "decrypt_payload_in_place A keys nonce sid ct = Inl e"
  shows "dhow_decoder_finish kh h A p k (Some sid) (Some salt) (Some nonce) buf len written L =
    Returns (StCryptoFailed, buf, written) (L\<lparr>lib_last_error := MsgAead e\<rparr>)"
  using assms finish_verified [OF assms(9)] unfolding dhow_decoder_finish_def
  by (intro guards_return) (simp add: deref_live)

section \<open>Properties\<close>

text \<open>C13: the name of a file entry that is refused as a path traversal (an empty name, or one with a NUL, a
  backslash, a drive, a leading slash or a parent component) goes into the message as it is, at whatever
  position the entry stands and before any signature is checked: whoever can show a manifest chooses
  bytes of the message. A caller who reads a C string gets the whole of it, unless the name
  contains a NUL: then \<open>dhow_last_error_message\<close> writes that too, and the C string, cut at the first NUL of
  the name, is shorter than the bytes reported.\<close>

theorem refused_name_in_message:
  assumes "utf8_valid name" and "validate_name name = Inl (PathTraversal name)" and "41 \<le> length rest"
    and "manifest_header_wf hdr" and "mh_file_count hdr \<le> MAX_FILE_COUNT"
    and "list_all file_entry_wf es" and "length es < unat (mh_file_count hdr)"
    and "lib_heap L public = Some (BoxPublic k)" and "public \<noteq> 0"
  defines "bs \<equiv> manifest_header_to_vec hdr @ concat (map file_entry_to_vec es) @
      u16_to_le_bytes (of_nat (length name)) @ name @ rest"
    and "prefix \<equiv> ascii ''path traversal detected in file name: ''"
  assumes "length mem = length prefix + length name + 1"
  shows "\<exists>L' mem'. dhow_manifest_verify E public (Some bs) (length bs) None L = Returns 0 L' \<and>
     dhow_last_error_message (message_text sys) (Some mem) (length mem) L' =
       Returns (of_nat (length mem), Some mem') L' \<and>
     mem' = prefix @ name @ [0] \<and>
     takeWhile (\<lambda>b. b \<noteq> 0) mem' = prefix @ takeWhile (\<lambda>b. b \<noteq> 0) name \<and>
     (length (takeWhile (\<lambda>b. b \<noteq> 0) mem') + 1 < length mem \<longleftrightarrow> 0 \<in> set name)"
proof -
  let ?L = "L\<lparr>lib_last_error := MsgManifest (CmPathTraversal name)\<rparr>"
  have "manifest_from_bytes bs = Inl (PathTraversal name)"
    unfolding bs_def using assms(3)
    by (intro later_entry_refused [OF assms(4-7) traversal_entry_refused [OF assms(1-3)]]) auto
  moreover have "bs \<noteq> []" using assms(3) by (auto simp: bs_def)
  ultimately have v: "dhow_manifest_verify E public (Some bs) (length bs) None L = Returns 0 ?L"
    using assms(8,9) by (simp add: dhow_manifest_verify_def guard_ptr_def guard_with_def catch_unwind_def
        verify_manifest_with_def verify_signature_def cm_parse_def deref_def slice_from_def)
  have msg: "message_text sys (MsgManifest (CmPathTraversal name)) = prefix @ name"
    by (simp add: prefix_def ascii_def Let_def)
  have "0 \<notin> set prefix" by (simp add: prefix_def)
  then have cut: "takeWhile (\<lambda>b. b \<noteq> 0) (prefix @ name @ [0]) = prefix @ takeWhile (\<lambda>b. b \<noteq> 0) name"
    by (subst takeWhile_append2) (auto simp: takeWhile_append takeWhile_eq_all_conv [THEN iffD2])
  have "dhow_last_error_message (message_text sys) (Some mem) (length mem) ?L =
      Returns (of_nat (length mem), Some (prefix @ name @ [0])) ?L"
    using assms(12) by (simp add: dhow_last_error_message_def guard_with_def catch_unwind_def msg copy_to_def Let_def
        del: message_text.simps)
  with v cut show ?thesis using assms(12) length_takeWhile_nul [of name] by auto
qed

theorem refused_name_in_message_witness:
  "\<exists>bs L L' mem'. dhow_manifest_verify seed_only_ed25519 1 (Some bs) (length bs) None
       (L :: (bytes, bytes, bytes option) library) = Returns 0 L' \<and>
     dhow_last_error_message (message_text []) (Some (replicate 42 255)) 42 L' = Returns (42, Some mem') L' \<and>
     takeWhile (\<lambda>b. b \<noteq> 0) mem' = ascii ''path traversal detected in file name: a''"
proof -
  let ?hdr = "mf_header one_file_manifest" and ?name = "[0x61, 0, 0x62] :: bytes"
  let ?L = "(library_new (\<lambda>_. None))\<lparr>lib_heap := [1 \<mapsto> BoxPublic \<lparr>du_inner = \<lparr>pi_verifying = [7]\<rparr>\<rparr>]\<rparr>
    :: (bytes, bytes, bytes option) library"
  have wf: "manifest_header_wf ?hdr" and u1: "unat (mh_file_count ?hdr) = 1"
    using one_file_manifest_ok by (auto simp: manifest_parse_iff manifest_wf_def one_file_manifest_entries)
  from u1 have n: "mh_file_count ?hdr \<le> MAX_FILE_COUNT" "length [] < unat (mh_file_count ?hdr)"
    by (simp_all add: word_le_nat_alt MAX_FILE_COUNT_def)
  have u: "utf8_valid ?name" and r: "validate_name ?name = Inl (PathTraversal ?name)" by code_simp+
  have p: "length (ascii ''path traversal detected in file name: '') = 38" by (simp add: ascii_def)
  let ?bs = "manifest_header_to_vec ?hdr @ concat (map file_entry_to_vec []) @
    u16_to_le_bytes (of_nat (length ?name)) @ ?name @ replicate 41 0"
  have live: "lib_heap ?L 1 = Some (BoxPublic \<lparr>du_inner = \<lparr>pi_verifying = [7]\<rparr>\<rparr>)" by simp
  have len: "length (replicate 42 255 :: bytes) = length (ascii ''path traversal detected in file name: '') + length ?name + 1"
    by (simp add: p)
  from refused_name_in_message [OF u r _ wf n(1) _ n(2) live _ len, of "replicate 41 0" seed_only_ed25519 "[]"]
  obtain L' mem' where v: "dhow_manifest_verify seed_only_ed25519 1 (Some ?bs) (length ?bs) None ?L = Returns 0 L'"
    and m: "dhow_last_error_message (message_text []) (Some (replicate 42 255)) (length (replicate 42 255 :: bytes)) L' =
      Returns (of_nat (length (replicate 42 255 :: bytes)), Some mem') L'"
    and t: "takeWhile (\<lambda>b. b \<noteq> 0) mem' = ascii ''path traversal detected in file name: '' @ takeWhile (\<lambda>b. b \<noteq> 0) ?name"
    by auto
  have "takeWhile (\<lambda>b. b \<noteq> 0) mem' = ascii ''path traversal detected in file name: a''"
    unfolding t by (simp add: ascii_def)
  with v m show ?thesis
    by (intro exI [of _ ?bs] exI [of _ ?L] exI [of _ L'] exI [of _ mem']) simp
qed

text \<open>C9: what failures disclose of secrets. When a transfer does not decrypt, the message is one of two
  fixed texts, chosen by the length of the ciphertext, whatever key, salt, nonce, tag or data made it
  fail; and two refused key files that agree in length and in their first eight bytes, which are
  public, are refused with the same error, whatever secrets they hold.\<close>

theorem failure_texts_hide_secrets:
  assumes "keyed_hash_32 kh"
  shows "(dhow_decoder_finish kh h A p k sid salt nonce buf len written L = Returns (StCryptoFailed, out) L' \<longrightarrow>
      (\<exists>d ct. lib_heap L p = Some (BoxDecoder d) \<and> decoder_finish h (dd_inner d) = Inr ct \<and>
         message_text sys (lib_last_error L') = ascii (if length ct < 16
           then ''decryption failed: ciphertext is shorter than the 16-byte tag''
           else ''decryption failed: authentication failed''))) \<and>
    (take 8 file = take 8 file' \<and> length file = length file' \<and>
       decode_key_file h file = Inl e \<and> decode_key_file h file' = Inl e' \<longrightarrow>
       key_error_text sys e = key_error_text sys e')"
proof (intro conjI impI)
  assume "dhow_decoder_finish kh h A p k sid salt nonce buf len written L = Returns (StCryptoFailed, out) L'"
  from finish_crypto_failed [OF this] decrypt_error [OF assms, of _ _ _ A _ _ _ _ sys] show "\<exists>d ct.
      lib_heap L p = Some (BoxDecoder d) \<and> decoder_finish h (dd_inner d) = Inr ct \<and>
      message_text sys (lib_last_error L') = ascii (if length ct < 16
        then ''decryption failed: ciphertext is shorter than the 16-byte tag''
        else ''decryption failed: authentication failed'')"
    by fastforce
next
  assume f: "take 8 file = take 8 file' \<and> length file = length file' \<and>
      decode_key_file h file = Inl e \<and> decode_key_file h file' = Inl e'"
  show "key_error_text sys e = key_error_text sys e'"
    using key_file_error_public f by blast
qed

theorem failure_texts_hide_secrets_witness:
  "(\<exists>L L'. dhow_decoder_finish demo_kh demo_h (tagging_cipher\<lparr>ae_decrypt_in_place := \<lambda>k n a c. None\<rparr>) 2 1
       (Some (replicate 16 7)) (Some (replicate 32 2)) (Some (replicate 24 3)) None 0 None L =
     Returns (StCryptoFailed, None, None) (L' :: (bytes, bytes, bytes option) library) \<and>
     message_text [] (lib_last_error L') = ascii ''decryption failed: authentication failed'') \<and>
   (\<exists>e e'. decode_key_file demo_h (KEY_MAGIC @ [KEY_VERSION, 1, 0, 0] @ replicate 64 5) = Inl e \<and>
     decode_key_file demo_h (KEY_MAGIC @ [KEY_VERSION, 1, 0, 0] @ replicate 64 6) = Inl e' \<and>
     key_error_text [] e = key_error_text [] e')"
proof
  let ?A = "tagging_cipher\<lparr>ae_decrypt_in_place := \<lambda>k n a c. None\<rparr>"
  obtain p d frames where
    ok: "session_ok whole_block_code demo_kh (replicate 16 7) (replicate 32 0) (small_session demo_h demo_ct) demo_ct p d"
    and enc: "encode_to_bytes whole_block_code demo_kh p demo_ct = Inr frames"
    by (rule demo_session)
  let ?d = "\<lparr>dd_inner = receive whole_block_code demo_kh d frames\<rparr> :: bytes option DhowDecoder"
  let ?L = "demo_library\<lparr>lib_heap := (lib_heap demo_library)(2 \<mapsto> BoxDecoder ?d)\<rparr>"
  have "decoder_finish demo_h (receive whole_block_code demo_kh d frames) = Inr demo_ct"
    by (rule delivered [OF ok _ enc _ all_frames_suffice [OF ok enc order_refl]])
      (simp_all add: small_session_def blake3_digest_def session_stream_def)
  then have f: "decoder_finish demo_h (dd_inner ?d) = Inr demo_ct" by simp
  have dec: "decrypt_payload_in_place ?A \<lparr>tk_payload_key = replicate 32 0, tk_session_key = replicate 32 0\<rparr>
      (replicate 24 3) (replicate 16 7) demo_ct = Inl (DecryptionFailed (Detail ''authentication failed'' []))"
    by (simp add: decrypt_payload_in_place_def demo_facts(5) TAG_LEN_def cipher_key_ok_def)
  have L: "lib_heap ?L 2 = Some (BoxDecoder ?d)"
    "lib_heap ?L 1 = Some (BoxKey \<lparr>dk_inner = \<lparr>ok_bytes = replicate 32 6\<rparr>\<rparr>)"
    using demo_library_facts(1) by simp_all
  note r = finish_undecryptable [OF L(1) _ L(2) _ _ _ _ demo_facts(2) f dec, of "replicate 32 2" None 0 None, simplified]
  from failure_texts_hide_secrets [OF demo_facts(1), THEN conjunct1, THEN mp, OF r] L(1) f
  show "\<exists>L L'. dhow_decoder_finish demo_kh demo_h ?A 2 1 (Some (replicate 16 7)) (Some (replicate 32 2))
       (Some (replicate 24 3)) None 0 None L = Returns (StCryptoFailed, None, None) (L' :: (bytes, bytes, bytes option) library) \<and>
     message_text [] (lib_last_error L') = ascii ''decryption failed: authentication failed''"
    using r demo_facts(5) by fastforce
next
  let ?file = "\<lambda>b. KEY_MAGIC @ [KEY_VERSION, 1, 0, 0] @ replicate 64 b :: bytes"
  have "\<exists>e. decode_key_file demo_h (?file b) = Inl e" if "b \<noteq> 0" for b
    using that by (auto simp: decode_key_file_def KEY_FILE_SIZE_def KEY_MAGIC_def KEY_VERSION_def
        key_kind_from_u8_def CHECKSUM_OFFSET_def slice_def replicate_eq_replicate)
  then obtain e e' where "decode_key_file demo_h (?file 5) = Inl e" "decode_key_file demo_h (?file 6) = Inl e'"
    by fastforce
  moreover have "take 8 (?file 5) = take 8 (?file 6)" by (simp add: KEY_MAGIC_def)
  ultimately show "\<exists>e e'. decode_key_file demo_h (?file 5) = Inl e \<and> decode_key_file demo_h (?file 6) = Inl e' \<and>
      key_error_text [] e = key_error_text [] e'"
    using failure_texts_hide_secrets [OF demo_facts(1), THEN conjunct2, of "?file 5" "?file 6"] by fastforce
qed

end
