(* ===== verification/Ffi_Messages.thy ===== *)
theory Ffi_Messages
  imports Error_Texts
begin

text \<open>
  Every message the C interface stores is a C string, with one exception. For each type of error a
  predicate says which of its values print without a NUL: those whose details and names have none.
  Every operation of the crates returns only such errors, the refusal of a file name excepted, and so
  every entry point keeps a last error that has no NUL or is the refusal of a name.
\<close>

section \<open>Errors that print without a NUL\<close>

text \<open>A detail without a NUL in its template; where it prints a name, without one in the name.\<close>

fun detail_ok :: "detail \<Rightarrow> bool" where
  "detail_ok (Detail t args) \<longleftrightarrow> CHR 0x00 \<notin> set t \<and>
     (''name'' \<in> set (placeholders t) \<longrightarrow> (0 :: u8) \<notin> of_nat ` set (butlast args))"

fun session_error_ok :: "SessionError \<Rightarrow> bool" where
  "session_error_ok (InvalidParameters d) = detail_ok d"
| "session_error_ok _ = True"

fun resume_error_ok :: "ResumeError \<Rightarrow> bool" where
  "resume_error_ok (JournalMismatch d) = detail_ok d"
| "resume_error_ok _ = True"

fun manifest_error_ok :: "ManifestError \<Rightarrow> bool" where
  "manifest_error_ok (PathTraversal name) = (0 \<notin> set name)"
| "manifest_error_ok (Malformed d) = detail_ok d"
| "manifest_error_ok _ = True"

fun codec_error_ok :: "CodecError \<Rightarrow> bool" where
  "codec_error_ok (CodecSession e) = session_error_ok e"
| "codec_error_ok (CodecManifest e) = manifest_error_ok e"
| "codec_error_ok (CodecResume e) = resume_error_ok e"
| "codec_error_ok (CodecRaptorQ d) = detail_ok d"
| "codec_error_ok (CodecFec (InvalidSourceBlock d)) = detail_ok d"
| "codec_error_ok (CodecInternal d) = detail_ok d"
| "codec_error_ok _ = True"

fun key_error_ok :: "KeyError \<Rightarrow> bool" where
  "key_error_ok (GenerationFailed d) = detail_ok d"
| "key_error_ok (InvalidKey d) = detail_ok d"
| "key_error_ok _ = True"

fun aead_error_ok :: "AeadError \<Rightarrow> bool" where
  "aead_error_ok (EncryptionFailed d) = detail_ok d"
| "aead_error_ok (DecryptionFailed d) = detail_ok d"
| "aead_error_ok (InvalidNonce d) = detail_ok d"
| "aead_error_ok (KeyDerivationFailed d) = detail_ok d"

fun crypt_manifest_error_ok :: "CryptManifestError \<Rightarrow> bool" where
  "crypt_manifest_error_ok (CmPathTraversal name) = (0 \<notin> set name)"
| "crypt_manifest_error_ok (CmMalformed d) = detail_ok d"
| "crypt_manifest_error_ok _ = True"

fun message_ok :: "message \<Rightarrow> bool" where
  "message_ok (Msg d) = detail_ok d"
| "message_ok (MsgCodec e) = codec_error_ok e"
| "message_ok (MsgKey e) = key_error_ok e"
| "message_ok (MsgAead e) = aead_error_ok e"
| "message_ok (MsgResume e) = resume_error_ok e"
| "message_ok (MsgQr e) = True"
| "message_ok (MsgManifest e) = crypt_manifest_error_ok e"
| "message_ok (MsgNotParsedBack e) = manifest_error_ok e"
| "message_ok (MsgFileEntry i e) = manifest_error_ok e"

lemma detail_no_nul: "0 \<notin> set sys \<Longrightarrow> detail_ok d \<Longrightarrow> 0 \<notin> set (detail_text sys d)"
  by (cases d) (auto simp: Let_def dest!: format_args_nul)

lemma chunk_no_nul: "0 \<notin> set (chunk_error_text e)"
  by (cases e) (auto dest!: format_args_nul)

lemma qr_no_nul: "0 \<notin> set (qr_error_text e)"
proof -
  have "CHR 0x00 \<notin> set (ecc_debug l)" for l by (cases l) simp_all
  then show ?thesis by (cases e) (auto dest!: format_args_nul)
qed

lemma session_no_nul: "0 \<notin> set sys \<Longrightarrow> session_error_ok e \<Longrightarrow> 0 \<notin> set (session_error_text sys e)"
  by (cases e) (auto dest!: format_args_nul dest: detail_no_nul)

lemma resume_no_nul: "0 \<notin> set sys \<Longrightarrow> resume_error_ok e \<Longrightarrow> 0 \<notin> set (resume_error_text sys e)"
  by (cases e) (auto dest!: format_args_nul dest: detail_no_nul)

lemma manifest_no_nul: "0 \<notin> set sys \<Longrightarrow> manifest_error_ok e \<Longrightarrow> 0 \<notin> set (manifest_error_text sys e)"
  by (cases e) (auto dest!: format_args_nul dest: detail_no_nul)

lemma fec_no_nul: "0 \<notin> set sys \<Longrightarrow> codec_error_ok (CodecFec e) \<Longrightarrow> 0 \<notin> set (fec_error_text sys e)"
  by (cases e) (auto dest!: format_args_nul dest: detail_no_nul)

lemmas parts_no_nul = detail_no_nul session_no_nul resume_no_nul manifest_no_nul fec_no_nul

lemma codec_no_nul: "0 \<notin> set sys \<Longrightarrow> codec_error_ok e \<Longrightarrow> 0 \<notin> set (codec_error_text sys e)"
  by (cases e) (auto simp: chunk_no_nul frame_error_no_nul dest!: format_args_nul dest: parts_no_nul)

lemma key_no_nul: "0 \<notin> set sys \<Longrightarrow> key_error_ok e \<Longrightarrow> 0 \<notin> set (key_error_text sys e)"
  by (cases e) (auto dest!: format_args_nul dest: detail_no_nul)

lemma aead_no_nul: "0 \<notin> set sys \<Longrightarrow> aead_error_ok e \<Longrightarrow> 0 \<notin> set (aead_error_text sys e)"
  by (cases e) (auto dest!: format_args_nul dest: detail_no_nul)

lemma crypt_manifest_no_nul:
  "0 \<notin> set sys \<Longrightarrow> crypt_manifest_error_ok e \<Longrightarrow> 0 \<notin> set (crypt_manifest_error_text sys e)"
  by (cases e) (auto dest!: format_args_nul dest: detail_no_nul)

lemma message_no_nul: "0 \<notin> set sys \<Longrightarrow> message_ok m \<Longrightarrow> 0 \<notin> set (message_text sys m)"
  by (cases m) (auto simp: qr_no_nul dest!: format_args_nul
      dest: codec_no_nul key_no_nul aead_no_nul crypt_manifest_no_nul parts_no_nul)

section \<open>The operations return such errors\<close>

named_theorems printable \<open>errors of an operation print without a NUL\<close>

lemma key_errors [printable]:
  "operator_generate rnd = Inl e \<Longrightarrow> key_error_ok e"
  "identity_generate E rnd = Inl e \<Longrightarrow> key_error_ok e"
  "load_public E S p F = Inl e \<Longrightarrow> key_error_ok e"
  "save_public E S umask p pk F = (Inl e, F') \<Longrightarrow> key_error_ok e"
  "write_owner_only S umask p bs F = (Inl e, states) \<Longrightarrow> key_error_ok e"
  "check_permissions S p F = Inl e \<Longrightarrow> key_error_ok e"
  "decode_key_file h bs = Inl e \<Longrightarrow> key_error_ok e"
  by (auto simp: operator_generate_def identity_generate_def random_bytes_def load_public_def public_from_bytes_def
      save_public_def write_owner_only_def check_permissions_def decode_key_file_def key_kind_from_u8_def Let_def
      split: option.splits if_splits)

lemma load_errors:
  "load_secret h E S p F = Inl e \<Longrightarrow> key_error_ok e"
  by (auto simp: load_secret_def res_bind_eq_Inl split: option.splits dest: key_errors)

lemma key_file_errors [printable]:
  "load_operator h E S p F = Inl e \<Longrightarrow> key_error_ok e"
  "load_identity h E S p F = Inl e \<Longrightarrow> key_error_ok e"
  "save_operator h S umask p k F = (Inl e, states) \<Longrightarrow> key_error_ok e"
  "save_identity h E S umask p i F = (Inl e, states) \<Longrightarrow> key_error_ok e"
  by (auto simp: load_operator_def load_identity_def save_operator_def save_identity_def res_bind_eq_Inl
      split: SecretKey.splits dest: load_errors key_errors)
    (metis SecretKey.exhaust)+

lemma aead_errors [printable]:
  "transfer_keys_derive kh operator salt = Inl e \<Longrightarrow> aead_error_ok e"
  "encrypt_payload A keys nonce sid data = Inl e \<Longrightarrow> aead_error_ok e"
  "decrypt_payload_in_place A keys nonce sid data = Inl e \<Longrightarrow> aead_error_ok e"
  by (auto simp: transfer_keys_derive_def derive_key_def kdf_derive_def hkdf_expand_def encrypt_payload_def
      decrypt_payload_in_place_def res_bind_eq_Inl split: option.splits if_splits)

lemma params_errors: "session_params_validate p = Inl e \<Longrightarrow> session_error_ok e"
  by (auto simp: session_params_validate_def split: if_splits)

lemma session_errors [printable]:
  "pipeline_new sid p key = Inl e \<Longrightarrow> codec_error_ok e"
  "decoder_new R sid p key = Inl e \<Longrightarrow> codec_error_ok e"
  by (auto simp: pipeline_new_def decoder_new_def validate_params_def chunk_map_for_def res_bind_eq_Inl
      Let_def split: if_splits dest: params_errors)

lemma encode_packets_errors: "encode_packets R kh p b i packets = Inl e \<Longrightarrow> codec_error_ok e"
  by (induction R kh p b i packets rule: encode_packets.induct) (auto simp: Let_def res_bind_eq_Inl split: if_splits)

lemma encode_blocks_errors: "encode_blocks R kh p payload repair blocks = Inl e \<Longrightarrow> codec_error_ok e"
  by (induction R kh p payload repair blocks rule: encode_blocks.induct)
    (auto simp: encode_block_def Let_def res_bind_eq_Inl split: if_splits dest: encode_packets_errors)

lemma encode_errors [printable]: "encode_to_bytes R kh p payload = Inl e \<Longrightarrow> codec_error_ok e"
  by (auto simp: encode_to_bytes_def pipeline_encode_def Let_def res_bind_eq_Inl split: if_splits
      dest: encode_blocks_errors)

lemma finish_collect_errors: "finish_collect i states = Inl e \<Longrightarrow> codec_error_ok e"
  by (induction i states rule: finish_collect.induct) (auto simp: res_bind_eq_Inl)

lemma receiver_errors [printable]:
  "fst (decoder_accept R kh d f) = Inl e \<Longrightarrow> codec_error_ok e"
  "decoder_finish h d = Inl e \<Longrightarrow> codec_error_ok e"
  by (auto simp: decoder_accept_def decoder_finish_def Let_def res_bind_eq_Inl
      split: sum.splits if_splits BlockState.splits option.splits dest: finish_collect_errors)

lemma verify_entries_errors: "verify_entries d es = Some (Inl e) \<Longrightarrow> codec_error_ok e"
  by (induction d es rule: verify_entries.induct) (auto simp: Let_def split: if_splits)

lemma try_run_eq_error:
  "try_run r f = Some (Inl e) \<longleftrightarrow> r = Some (Inl e) \<or> (\<exists>a. r = Some (Inr a) \<and> f a = Some (Inl e))"
  by (cases r; cases "the r") auto

lemma resume_entries_errors:
  "resume_entries_loop_run checks n i bs offset es = Some (Inl e) \<Longrightarrow> resume_error_ok e"
proof (induction checks n i bs offset es rule: resume_entries_loop_run.induct)
  case (2 checks n i bs offset es)
  have "block_entry_from_bytes_run checks b = Some (Inl e) \<Longrightarrow> resume_error_ok e" for b
    by (auto simp: block_entry_from_bytes_run_def Let_def bind_eq_Some_conv split: if_splits)
  with 2 show ?case
    by (auto simp: bind_eq_Some_conv try_run_eq_error split: if_splits prod.splits)
qed simp

lemma resume_errors [printable]:
  "resume_file_from_bytes_run checks h bs = Some (Inl e) \<Longrightarrow> resume_error_ok e"
  "verify_resume h d f = Some (Inl e') \<Longrightarrow> codec_error_ok e'"
  by (auto simp: resume_file_from_bytes_run_def resume_header_run_total try_run_eq_error resume_header_from_bytes_def
      verify_resume_def Let_def bind_eq_Some_conv split: if_splits prod.splits
      dest: resume_entries_errors verify_entries_errors)

text \<open>The refusal of a name is the exception.\<close>

lemma validate_name_errors:
  "validate_name name = Inl e \<Longrightarrow> manifest_error_ok e \<or> e = PathTraversal name"
  by (auto simp: validate_name_def split: if_splits)

lemma valid_name_no_nul: "validate_name name = Inr u \<Longrightarrow> 0 \<notin> set name"
  by (auto simp: validate_name_def split: if_splits)

lemma file_entry_errors:
  "file_entry_from_bytes bs = Inl e \<Longrightarrow> manifest_error_ok e \<or> (\<exists>name. e = PathTraversal name)"
  by (auto simp: file_entry_from_bytes_def res_bind_eq_Inl Let_def image_iff split: if_splits
      dest!: validate_name_errors valid_name_no_nul)

lemma manifest_entries_errors:
  "manifest_entries_loop n bs offset es = Inl e \<Longrightarrow> manifest_error_ok e \<or> (\<exists>name. e = PathTraversal name)"
  by (induction n bs offset es rule: manifest_entries_loop.induct)
    (auto simp: res_bind_eq_Inl split: if_splits dest: file_entry_errors)

lemma manifest_errors:
  "manifest_from_bytes bs = Inl e \<Longrightarrow> manifest_error_ok e \<or> (\<exists>name. e = PathTraversal name)"
  by (auto simp: manifest_from_bytes_def manifest_header_from_bytes_def res_bind_eq_Inl Let_def split: if_splits
      dest: manifest_entries_errors)

lemma check_entries_errors:
  "check_entries policy s es = Inl e \<Longrightarrow> crypt_manifest_error_ok e \<or> (\<exists>name. e = CmPathTraversal name)"
  by (induction policy s es rule: check_entries.induct)
    (auto simp: res_bind_eq_Inl validate_name_def split: if_splits option.splits)

lemma verify_errors:
  assumes "verify_manifest_with E pk bs sid policy = Inl e"
  shows "crypt_manifest_error_ok e \<or> (\<exists>name. e = CmPathTraversal name)"
proof -
  have conv: "crypt_manifest_error_ok (convert_codec_error e') \<or> (\<exists>name. convert_codec_error e' = CmPathTraversal name)"
    if "manifest_error_ok e' \<or> (\<exists>name. e' = PathTraversal name)" for e'
    using that by (cases e') auto
  have params: "crypt_manifest_error_ok (CmMalformed (session_error_string e'))"
    if "session_params_validate p = Inl e'" for p e'
    using that by (auto simp: session_params_validate_def split: if_splits)
  from assms consider "verify_signature E pk bs = Inl e" | "e = CmSessionMismatch" | m where "check_policy m policy = Inl e"
    by (auto simp: verify_manifest_with_def res_bind_eq_Inl split: if_splits)
  then show ?thesis
  proof cases
    case 1
    then consider e' where "manifest_from_bytes bs = Inl e'" "e = convert_codec_error e'"
      | e' where "signing_bytes_of bs = Inl e'" "e = convert_codec_error e'" | "e = CmSignatureVerificationFailed"
      by (auto simp: verify_signature_def cm_parse_def res_bind_eq_Inl map_err_eq_Inl split: if_splits)
    then show ?thesis
    proof cases
      case 1
      then show ?thesis using conv [OF manifest_errors [OF 1(1)]] by simp
    next
      case 2
      then show ?thesis by (auto simp: signing_bytes_of_def split: if_splits)
    qed simp
  next
    case 3
    then show ?thesis
      by (auto simp: check_policy_def Let_def res_bind_eq_Inl split: if_splits dest: check_entries_errors params)
  qed simp
qed

text \<open>A manifest built here parses back or is refused for its number of files.\<close>

lemma built_errors:
  assumes "manifest_header_wf (mf_header m)" and "list_all file_entry_wf (mf_entries m)"
    and "mh_file_count (mf_header m) = of_nat (length (mf_entries m))"
    and "manifest_from_bytes (manifest_to_vec m) = Inl e"
  shows "manifest_error_ok e"
proof -
  let ?es = "mf_entries m" and ?n = "unat (mh_file_count (mf_header m))"
  let ?bs = "manifest_to_vec m"
  have n: "?n \<le> length ?es" using assms(3) by (simp add: unat_of_nat)
  have l: "length (manifest_header_to_vec (mf_header m)) = MANIFEST_HEADER_SIZE"
    using mhdr.length_to_vec [OF assms(1)] .
  have split: "concat (map file_entry_to_vec ?es) =
      concat (map file_entry_to_vec (take ?n ?es)) @ concat (map file_entry_to_vec (drop ?n ?es))"
    by (metis append_take_drop_id concat_append map_append)
  have "drop MANIFEST_HEADER_SIZE ?bs =
      concat (map file_entry_to_vec (take ?n ?es)) @ concat (map file_entry_to_vec (drop ?n ?es))"
    unfolding manifest_to_vec_def split using l by simp
  moreover have "list_all file_entry_wf (take ?n ?es)"
    using assms(2) by (auto simp: list_all_iff dest: in_set_takeD)
  moreover have len: "length (take ?n ?es) = ?n" using n by simp
  ultimately obtain off where loop: "manifest_entries_loop ?n ?bs MANIFEST_HEADER_SIZE [] = Inr (take ?n ?es, off)"
    using manifest_entries_loop_complete [of "take ?n ?es" MANIFEST_HEADER_SIZE ?bs _ "[]", unfolded len append_Nil]
    by blast
  have header: "manifest_header_from_bytes ?bs = Inr (mf_header m)"
    unfolding manifest_to_vec_def by (rule mhdr.accepts [OF assms(1)])
  show ?thesis
    using assms(4) unfolding manifest_from_bytes_def header res_bind.simps loop prod.case
    by (auto split: if_splits)
qed

lemma signed_errors:
  assumes "ed25519_signs E" and "length sid = 16" "length salt = 32" "length nonce = 24"
    and "length (dp_payload_digest p) = 32" and "\<forall>e \<in> set es. file_entry_wf e"
    and "manifest_from_bytes (sign_manifest E k (manifest_build
      (manifest_header_new sid es total_size salt nonce (to_session_params p)) es (replicate 64 0))) = Inl e"
  shows "manifest_error_ok e"
proof -
  let ?u = "manifest_build (manifest_header_new sid es total_size salt nonce (to_session_params p)) es (replicate 64 0)"
  let ?m = "?u\<lparr>mf_header := set_signature (mf_header ?u) (identity_sign E k (signing_bytes ?u))\<rparr>"
  have u: "manifest_header_wf (mf_header ?u)"
    using assms(2-5) by (simp add: manifest_header_wf_def manifest_build_def manifest_header_new_def
        set_signature_def session_params_wf_def to_session_params_def Let_def)
  have "length (identity_sign E k (signing_bytes ?u)) = 64"
    using assms(1) by (simp add: identity_sign_def ed25519_signs_def)
  with u have "manifest_header_wf (mf_header ?m)"
    by (simp add: manifest_header_wf_def set_signature_def)
  moreover have "list_all file_entry_wf (mf_entries ?m)" "mh_file_count (mf_header ?m) = of_nat (length (mf_entries ?m))"
    using assms(6) by (simp_all add: list_all_iff manifest_build_def manifest_header_new_def set_signature_def Let_def)
  moreover have "manifest_from_bytes (manifest_to_vec ?m) = Inl e"
    using assms(7) unfolding sign_manifest_to_vec [OF assms(1) u] .
  ultimately show ?thesis by (rule built_errors)
qed

section \<open>What the calls store\<close>

definition storable :: "message \<Rightarrow> bool" where
  "storable m \<longleftrightarrow> message_ok m \<or> (\<exists>name. m = MsgManifest (CmPathTraversal name))"

definition stored :: "('sk, 'vk, 'dec) library \<Rightarrow> bool" where
  "stored L \<longleftrightarrow> storable (lib_last_error L)"

lemma printed_ok: "detail_ok d \<Longrightarrow> storable (Msg d)"
  by (simp add: storable_def)

named_theorems stored_intros \<open>rules for the triples of the stored message\<close>

lemma stored_errors [stored_intros]:
  "storable m \<Longrightarrow> keeps stored (set_last_error m)"
  "keeps stored clear_last_error"
  "storable m1 \<Longrightarrow> Q1 st \<Longrightarrow> valid stored (fail st m1) Q1"
  "storable m2 \<Longrightarrow> Q2 (st, out) \<Longrightarrow> valid stored (fail_out out st m2) Q2"
  "storable m3 \<Longrightarrow> Q3 0 \<Longrightarrow> valid stored (fail_ptr m3) Q3"
  by (simp_all add: valid_def stored_def storable_def)

lemma stored_state [stored_intros]:
  "keeps stored get_files"
  "keeps stored (put_files F)"
  "keeps stored (deref sel p)"
  "keeps stored (assign p b)"
  "keeps stored (into_raw b)"
  "keeps stored (from_raw_drop sel p)"
  "keeps stored (copy_to data mem)"
  "valid stored (c_string mem) (\<lambda>s. 0 \<notin> set s)"
  "valid stored (slice_from ptr n) (\<lambda>r. \<forall>bs. r = Some bs \<longrightarrow> length bs = n)"
  by (auto simp: valid_def stored_def deref_def into_raw_def from_raw_drop_def copy_to_def c_string_def
      slice_from_def dest: set_takeWhileD split: option.splits if_splits)

lemma stored_guard_with: "keeps stored m \<Longrightarrow> keeps stored (guard_with r m)"
  unfolding guard_with_def
  by (rule TrueI stored_intros valid_intros valid_catch_unwind | assumption | simp add: PANIC_MESSAGE_def storable_def)+

lemma stored_guards [stored_intros]:
  "keeps stored m1 \<Longrightarrow> keeps stored (guard m1)"
  "keeps stored m2 \<Longrightarrow> keeps stored (guard_out out m2)"
  "keeps stored m3 \<Longrightarrow> keeps stored (guard_ptr m3)"
  "keeps stored m4 \<Longrightarrow> keeps stored (guard_unit m4)"
  "keeps stored m5 \<Longrightarrow> keeps stored (guard_int m5)"
  by (simp_all add: guard_def guard_out_def guard_ptr_def guard_unit_def guard_int_def stored_guard_with)

lemma storable_texts [stored_intros]:
  "detail_ok d \<Longrightarrow> storable (Msg d)"
  "key_error_ok k \<Longrightarrow> storable (MsgKey k)"
  "aead_error_ok a \<Longrightarrow> storable (MsgAead a)"
  "codec_error_ok c \<Longrightarrow> storable (MsgCodec c)"
  "resume_error_ok r \<Longrightarrow> storable (MsgResume r)"
  "storable (MsgQr q)"
  by (simp_all add: storable_def)

lemma stored_write_out [stored_intros]: "keeps stored (write_out data buf len written)"
  unfolding write_out_def by (rule TrueI stored_intros valid_intros | fastforce)+

lemma stored_path_from [stored_intros]: "keeps stored (path_from path)"
  unfolding path_from_def by (rule TrueI stored_intros valid_intros)+

lemma stored_entry_at [stored_intros]: "keeps stored (entry_at p i)"
  unfolding entry_at_def by (rule TrueI stored_intros valid_intros | fastforce)+

lemma key_calls_store:
  "keeps stored (dhow_key_generate rnd)"
  "keeps stored (dhow_key_load h E S path)"
  "keeps stored (dhow_key_save h S umask p path)"
  "keeps stored (dhow_key_free p)"
  unfolding dhow_key_generate_def dhow_key_load_def dhow_key_save_def dhow_key_free_def
  by (rule TrueI stored_intros valid_intros | fastforce dest: printable)+

lemma accept_pair [printable]: "decoder_accept_run R kh d f = (Some (Inl e), d') \<Longrightarrow> codec_error_ok e"
  using receiver_errors(1) [of R kh d f e] by (cases rule: accept_run_cases [of R kh d f]) simp_all

lemma encoder_calls_store:
  "keeps stored (dhow_encoder_new R kh h A p sid salt nonce params payload len)"
  "keeps stored (dhow_encoder_params p params_out)"
  "keeps stored (dhow_encoder_frame_count p)"
  "keeps stored (dhow_encoder_frame p i buf len written)"
  "keeps stored (dhow_encoder_free p)"
  unfolding dhow_encoder_new_def dhow_encoder_params_def dhow_encoder_frame_count_def
    dhow_encoder_frame_def dhow_encoder_free_def
  by (rule TrueI stored_intros valid_intros | fastforce dest: printable)+

lemma decoder_calls_store:
  "keeps stored (dhow_decoder_new R kh key sid salt params)"
  "keeps stored (dhow_decoder_accept R kh p frame len)"
  "keeps stored (dhow_decoder_is_complete p)"
  "keeps stored (dhow_decoder_blocks_complete p)"
  "keeps stored (dhow_decoder_finish kh h A p key sid salt nonce buf len written)"
  "keeps stored (dhow_decoder_resume_state h p journal_bytes buf len written)"
  "keeps stored (dhow_resume_state_read checks h st len sid_out journal_out blocks_out)"
  "keeps stored (dhow_decoder_resume_verify checks h p st len)"
  "keeps stored (dhow_decoder_free p)"
  unfolding dhow_decoder_new_def dhow_decoder_accept_def dhow_decoder_is_complete_def
    dhow_decoder_blocks_complete_def dhow_decoder_finish_def dhow_decoder_resume_state_def
    dhow_resume_state_read_def dhow_decoder_resume_verify_def dhow_decoder_free_def
  by (rule TrueI stored_intros valid_intros | fastforce dest: printable)+

lemma digest_calls_store:
  "keeps stored (dhow_blake3 h data len out)"
  "keeps stored dhow_hasher_new"
  "keeps stored (dhow_hasher_update p data len)"
  "keeps stored (dhow_hasher_finish h p out)"
  "keeps stored (dhow_hasher_free p)"
  "keeps stored (dhow_qr_capacity enc version ecc)"
  "keeps stored (dhow_qr_max_symbol_size enc version ecc)"
  "keeps stored (dhow_qr_encode_frame enc encb gsize gmod frame len version ecc buf blen size_out written)"
  unfolding dhow_blake3_def dhow_hasher_new_def dhow_hasher_update_def dhow_hasher_finish_def
    dhow_hasher_free_def dhow_qr_capacity_def dhow_qr_max_symbol_size_def dhow_qr_encode_frame_def
  by (rule TrueI stored_intros valid_intros | fastforce)+

lemma identity_calls_store:
  "keeps stored (dhow_identity_generate E rnd)"
  "keeps stored (dhow_identity_load h E S path)"
  "keeps stored (dhow_identity_save h E S umask p path)"
  "keeps stored (dhow_identity_public E p)"
  "keeps stored (dhow_identity_free p)"
  "keeps stored (dhow_public_load E S path)"
  "keeps stored (dhow_public_save E S umask p path)"
  "keeps stored (dhow_public_bytes E p out)"
  "keeps stored (dhow_public_fingerprint h E p buf len written)"
  "keeps stored (dhow_public_free p)"
  unfolding dhow_identity_generate_def dhow_identity_load_def dhow_identity_save_def
    dhow_identity_public_def dhow_identity_free_def dhow_public_load_def dhow_public_save_def
    dhow_public_bytes_def dhow_public_fingerprint_def dhow_public_free_def
  by (rule TrueI stored_intros valid_intros | fastforce dest: printable)+

lemma manifest_calls_store:
  "keeps stored (dhow_manifest_bytes p buf len written)"
  "keeps stored (dhow_manifest_session_id p out)"
  "keeps stored (dhow_manifest_salt p out)"
  "keeps stored (dhow_manifest_nonce p out)"
  "keeps stored (dhow_manifest_params p params_out)"
  "keeps stored (dhow_manifest_file_count p)"
  "keeps stored (dhow_manifest_file_name p i buf len written)"
  "keeps stored (dhow_manifest_file_size p i size_out)"
  "keeps stored (dhow_manifest_file_digest p i out)"
  "keeps stored (dhow_manifest_file_executable p i)"
  "keeps stored (dhow_manifest_free p)"
  unfolding dhow_manifest_bytes_def dhow_manifest_session_id_def dhow_manifest_salt_def
    dhow_manifest_nonce_def manifest_field_def dhow_manifest_params_def dhow_manifest_file_count_def
    dhow_manifest_file_name_def dhow_manifest_file_size_def dhow_manifest_file_digest_def
    dhow_manifest_file_executable_def dhow_manifest_free_def
  by (rule TrueI stored_intros valid_intros | fastforce)+

lemma last_error_message_stores: "keeps stored (dhow_last_error_message display buf len)"
proof -
  have "keeps stored (\<lambda>L.
      let bytes = display (lib_last_error L); needed = length bytes + 1
      in case buf of None \<Rightarrow> ret (of_nat needed, None) L
         | Some mem \<Rightarrow> if len < needed then ret (status_code StBufferTooSmall, Some mem) L
             else call_bind (copy_to (bytes @ [0]) mem) (\<lambda>mem'. ret (of_nat needed, Some mem')) L)"
    by (rule validI) (auto simp: Let_def copy_to_def split: option.splits if_splits)
  then show ?thesis unfolding dhow_last_error_message_def by (rule stored_guard_with)
qed

text \<open>The errors of a manifest.\<close>

lemma storable_verify [stored_intros]:
  "verify_manifest_with E pk bs sid policy = Inl e \<Longrightarrow> storable (MsgManifest e)"
  by (auto simp: storable_def dest: verify_errors)

lemma storable_signed [stored_intros]: "manifest_error_ok e \<Longrightarrow> storable (MsgNotParsedBack e)"
  by (simp add: storable_def)

lemma verify_stores: "keeps stored (dhow_manifest_verify E p bytes len sid)"
  unfolding dhow_manifest_verify_def
  by (rule TrueI stored_intros valid_intros | assumption | fastforce)+

lemma c_name_errors: "validate_name (takeWhile (\<lambda>b. b \<noteq> 0) mem) = Inl e \<Longrightarrow> manifest_error_ok e"
  using validate_name_errors [of "takeWhile (\<lambda>b. b \<noteq> 0) mem" e] set_takeWhileD [of 0 "\<lambda>b. b \<noteq> 0" mem] by auto

lemma entries_loop_errors: "entries_loop i raw L = Returns (Inl e) L' \<Longrightarrow> storable e"
  by (induction i raw arbitrary: L' rule: entries_loop.induct)
    (auto simp: c_string_def storable_def dest: c_name_errors split: option.splits if_splits sum.splits outcome.splits)

lemma stored_entries_from:
  assumes "abi_entries entries"
  shows "valid stored (entries_from entries n) (\<lambda>r. (\<forall>e. r = Inl e \<longrightarrow> storable e) \<and>
     (\<forall>es. r = Inr es \<longrightarrow> (\<forall>e \<in> set es. file_entry_wf e)))"
proof (rule validI)
  fix L r L' assume L: "stored L" and r: "entries_from entries n L = Returns r L'"
  have loop: "L' = L \<and> (\<forall>e. r = Inl e \<longrightarrow> storable e) \<and> (\<forall>es. r = Inr es \<longrightarrow> (\<forall>e \<in> set es. file_entry_wf e))"
    if "entries_loop 0 (take n raw) L = Returns r L'" "entries = Some raw" for raw
    using entries_loop_result [OF that(1)] entries_loop_errors that assms
    by (fastforce simp: file_entry_wf_def name_ok_def abi_entries_def dest: in_set_takeD)
  show "stored L' \<and> (\<forall>e. r = Inl e \<longrightarrow> storable e) \<and> (\<forall>es. r = Inr es \<longrightarrow> (\<forall>e \<in> set es. file_entry_wf e))"
    using r L loop by (auto simp: entries_from_def storable_def split: if_splits option.splits)
next
  fix L L' assume "stored L" and "entries_from entries n L = Panics L'"
  then show "stored L'"
    using entries_loop_no_panic by (auto simp: entries_from_def split: if_splits option.splits)
qed

lemma build_stores:
  assumes "ed25519_signs E" and "length (dp_payload_digest params) = 32" and "abi_entries entries"
  shows "keeps stored (dhow_manifest_build E checks p sid salt nonce params entries n)"
proof -
  have box: "keeps stored (call_bind (deref as_identity p) (\<lambda>k.
      case manifest_from_bytes (sign_manifest E (di_inner k) (manifest_build
          (manifest_header_new sid' es total_size salt' nonce' (to_session_params params)) es (replicate 64 0))) of
        Inr manifest \<Rightarrow> into_raw (BoxManifest \<lparr>dm_manifest = manifest,
          dm_bytes = sign_manifest E (di_inner k) (manifest_build
            (manifest_header_new sid' es total_size salt' nonce' (to_session_params params)) es (replicate 64 0))\<rparr>)
      | Inl e \<Rightarrow> fail_ptr (MsgNotParsedBack e)))"
    if "length sid' = 16" "length salt' = 32" "length nonce' = 24" "\<forall>e \<in> set es. file_entry_wf e"
    for sid' salt' nonce' es total_size
    by (rule TrueI signed_errors [OF assms(1) that(1-3) assms(2) that(4)] stored_intros valid_intros | assumption)+
  show ?thesis
    unfolding dhow_manifest_build_def Let_def
    by (rule TrueI stored_entries_from [OF assms(3)] box stored_intros valid_intros | assumption | simp)+
qed

lemmas calls_store = last_error_message_stores key_calls_store encoder_calls_store decoder_calls_store
  digest_calls_store identity_calls_store manifest_calls_store verify_stores build_stores

lemma still_stored: "stored L \<Longrightarrow> m L = Returns r L' \<Longrightarrow> keeps stored m \<Longrightarrow> stored L'"
  by (blast dest: validD(1))

lemma call_stores:
  assumes "ed25519_signs (ev_ed25519 V)"
  shows "ffi_call V L L' \<Longrightarrow> stored L \<Longrightarrow> stored L'"
  by (induction rule: ffi_call.induct) (erule still_stored, assumption, rule calls_store, ((rule assms | assumption)+)?)+

lemma reached_stored:
  assumes "ed25519_signs (ev_ed25519 V)" and "ffi_reaches V (library_new F) L"
  shows "stored L"
  using assms(2)
proof (induction rule: ffi_reaches.induct)
  case start
  show ?case by (simp add: library_new_def stored_def storable_def)
next
  case (call L L')
  then show ?case using call_stores [OF assms(1)] by blast
qed

text \<open>C14: whatever calls were made, a caller that asks for the last error with a buffer that is long enough reads
  the whole text up to the first NUL, unless the last error is the refusal of a file name with a NUL in a
  manifest that came from outside. The text of an error of the operating system is taken to have no NUL.\<close>

theorem stored_messages_are_c_strings:
  assumes "ed25519_signs (ev_ed25519 V)" and "ffi_reaches V (library_new F) L" and "0 \<notin> set sys"
    and "length (message_text sys (lib_last_error L)) < length mem"
  shows "(\<exists>n mem'. dhow_last_error_message (message_text sys) (Some mem) (length mem) L = Returns (n, Some mem') L \<and>
      takeWhile (\<lambda>b. b \<noteq> 0) mem' = message_text sys (lib_last_error L)) \<or>
    (\<exists>name. 0 \<in> set name \<and> lib_last_error L = MsgManifest (CmPathTraversal name))"
proof (cases "message_ok (lib_last_error L)")
  case True
  let ?t = "message_text sys (lib_last_error L)"
  have "takeWhile (\<lambda>b. b \<noteq> 0) (?t @ 0 # rest) = ?t" for rest
    using message_no_nul [OF assms(3) True] by (subst takeWhile_append2) auto
  then show ?thesis
    using assms(4) by (simp add: dhow_last_error_message_def guard_with_def catch_unwind_def copy_to_def Let_def
        del: message_text.simps)
next
  case False
  then show ?thesis
    using reached_stored [OF assms(1,2)] by (auto simp: stored_def storable_def)
qed

theorem stored_messages_are_c_strings_witness:
  "\<exists>(L :: (bytes, bytes, bytes option) library) n mem'.
     dhow_decoder_accept whole_block_code demo_kh 0 None 0 (library_new (\<lambda>_. None)) = Returns StNullArgument L \<and>
     dhow_last_error_message (message_text []) (Some (replicate 24 255)) 24 L = Returns (n, Some mem') L \<and>
     takeWhile (\<lambda>b. b \<noteq> 0) mem' = ascii ''decoder handle was null''"
proof -
  let ?L = "(library_new (\<lambda>_. None) :: (bytes, bytes, bytes option) library)
    \<lparr>lib_last_error := text_message ''decoder handle was null''\<rparr>"
  have c: "dhow_decoder_accept whole_block_code demo_kh 0 None 0 (library_new (\<lambda>_. None)) = Returns StNullArgument ?L"
    by (simp add: dhow_decoder_accept_def guard_def guard_with_def catch_unwind_def)
  have "dhow_decoder_accept (ev_raptorq demo_env) (ev_keyed_hash demo_env) 0 None 0 (library_new (\<lambda>_. None)) =
      Returns StNullArgument ?L"
    using c by (simp add: demo_env_def)
  then have r: "ffi_reaches demo_env (library_new (\<lambda>_. None)) ?L"
    by (rule ffi_reaches.call [OF ffi_reaches.start call_decoder_accept])
  have t: "message_text [] (lib_last_error ?L) = ascii ''decoder handle was null''"
    by (simp add: ascii_def)
  have "ed25519_signs (ev_ed25519 demo_env)" by (simp add: demo_env_def seed_only_signs)
  from stored_messages_are_c_strings [OF this r, of "[]" "replicate 24 255"]
  obtain n mem' where "dhow_last_error_message (message_text []) (Some (replicate 24 255)) 24 ?L = Returns (n, Some mem') ?L"
    "takeWhile (\<lambda>b. b \<noteq> 0) mem' = ascii ''decoder handle was null''"
    unfolding t by (auto simp: ascii_def)
  with c show ?thesis by blast
qed

end
