(* ===== verification/Unit_Tests.thy ===== *)
theory Unit_Tests
  imports Property_Tests Session_Header
begin

text \<open>
  The unit tests with fixed examples in \<open>chunker.rs\<close>, \<open>crc32c.rs\<close> and \<open>blake3.rs\<close> (module \<open>tests\<close> of
  each), as runs: a failed assertion and an \<open>unwrap\<close> of an error are panics. That every run returns says
  that the model agrees with what the authors of the code expect of it. The test of \<open>blake3.rs\<close> on
  known answers is a test of the external function and is left out.
\<close>

unbundle bit_operations_syntax

section \<open>The chunker\<close>

definition test_chunk_params_validation :: "unit run" where
  "test_chunk_params_validation = do {
     assert_that (is_ok (chunk_params_new 0 1 256));
     assert_that (is_ok (chunk_params_new 1000 1 256));
     assert_that (is_ok (chunk_params_new 1000 2 256));
     assert_that (is_ok (chunk_params_new 1000 1 1));
     assert_that (is_ok (chunk_params_new 1000 1 65535));
     assert_that (\<not> is_ok (chunk_params_new (MAX_PAYLOAD_SIZE + 1) 1 256));
     assert_that (\<not> is_ok (chunk_params_new 1000 0 256));
     assert_that (\<not> is_ok (chunk_params_new 1000 (MAX_BLOCK_COUNT + 1) 256));
     assert_that (\<not> is_ok (chunk_params_new 1000 1 0));
     assert_that (\<not> is_ok (chunk_params_new 1000 1 (MAX_SYMBOL_SIZE + 1)))
   }"

definition test_chunk_map_simple :: "unit run" where
  "test_chunk_map_simple = do {
     m \<leftarrow> sample_map 1000 2 256;
     assert_that (cm_block_count m = 2);
     assert_that (total_symbols m = 4);
     block0 \<leftarrow> expect (block_info m 0);
     assert_that (bi_start block0 = 0);
     assert_that (bi_size block0 = 500);
     assert_that (bi_symbol_count block0 = 2);
     block1 \<leftarrow> expect (block_info m 1);
     assert_that (bi_start block1 = 500);
     assert_that (bi_size block1 = 500);
     assert_that (bi_symbol_count block1 = 2)
   }"

definition test_block_boundaries :: "unit run" where
  "test_block_boundaries = do {
     m \<leftarrow> sample_map 1001 2 256;
     block0 \<leftarrow> expect (block_info m 0);
     assert_that (bi_start block0 = 0);
     assert_that (bi_size block0 = 501);
     block1 \<leftarrow> expect (block_info m 1);
     assert_that (bi_start block1 = 501);
     assert_that (bi_size block1 = 500)
   }"

definition test_symbol_boundaries :: "unit run" where
  "test_symbol_boundaries = do {
     m \<leftarrow> sample_map 1000 2 256;
     sym0 \<leftarrow> expect (symbol_info m 0 0);
     assert_that (si_start sym0 = 0);
     assert_that (si_size sym0 = 256);
     assert_that (\<not> si_padded sym0);
     sym1 \<leftarrow> expect (symbol_info m 0 1);
     assert_that (si_start sym1 = 256);
     assert_that (si_size sym1 = 244);
     assert_that (si_padded sym1)
   }"

text \<open>\<open>(0..n).map(|i| (i % 256) as u8).collect()\<close>.\<close>

definition ramp :: "nat \<Rightarrow> bytes" where
  "ramp n = map (\<lambda>i. of_nat (i mod 256)) [0..<n]"

definition test_block_extraction :: "unit run" where
  "test_block_extraction = do {
     m \<leftarrow> sample_map 1000 2 256;
     block0 \<leftarrow> expect (extract_block m (ramp 1000) 0);
     assert_that (length block0 = 500);
     head0 \<leftarrow> range_at 0 4 block0;
     assert_that (head0 = [0, 1, 2, 3]);
     block1 \<leftarrow> expect (extract_block m (ramp 1000) 1);
     assert_that (length block1 = 500);
     head1 \<leftarrow> range_at 0 4 block1;
     assert_that (head1 = [244, 245, 246, 247])
   }"

definition test_symbol_extraction :: "unit run" where
  "test_symbol_extraction = do {
     m \<leftarrow> sample_map 1000 2 256;
     block \<leftarrow> expect (extract_block m (ramp 1000) 0);
     sym0 \<leftarrow> expect (extract_symbol m block 0 0);
     assert_that (length sym0 = 256);
     head0 \<leftarrow> range_at 0 4 sym0;
     assert_that (head0 = [0, 1, 2, 3]);
     sym1 \<leftarrow> expect (extract_symbol m block 0 1);
     assert_that (length sym1 = 256);
     head1 \<leftarrow> range_at 0 4 sym1;
     assert_that (head1 = [0, 1, 2, 3]);
     padding \<leftarrow> range_at 244 256 sym1;
     assert_that (padding = [0, 0, 0, 0, 0, 0, 0, 0, 0, 0, 0, 0])
   }"

definition test_reassembly :: "unit run" where
  "test_reassembly = do {
     m \<leftarrow> sample_map 1000 2 256;
     block0 \<leftarrow> expect (extract_block m (ramp 1000) 0);
     block1 \<leftarrow> expect (extract_block m (ramp 1000) 1);
     reassembled \<leftarrow> expect (reassemble m [block0, block1]);
     assert_that (reassembled = ramp 1000)
   }"

definition test_block_index_out_of_range :: "unit run" where
  "test_block_index_out_of_range = do {
     m \<leftarrow> sample_map 1000 2 256;
     assert_that (\<not> is_ok (block_info m 2))
   }"

definition test_symbol_index_out_of_range :: "unit run" where
  "test_symbol_index_out_of_range = do {
     m \<leftarrow> sample_map 1000 1 256;
     assert_that (\<not> is_ok (symbol_info m 0 4))
   }"

definition test_payload_size_zero :: "unit run" where
  "test_payload_size_zero = do {
     m \<leftarrow> sample_map 0 1 256;
     assert_that (cm_block_count m = 1);
     assert_that (total_symbols m = 0);
     block \<leftarrow> expect (block_info m 0);
     assert_that (bi_size block = 0);
     assert_that (bi_symbol_count block = 0)
   }"

definition test_payload_size_one :: "unit run" where
  "test_payload_size_one = do {
     m \<leftarrow> sample_map 1 1 256;
     assert_that (cm_block_count m = 1);
     assert_that (total_symbols m = 1);
     block \<leftarrow> expect (block_info m 0);
     assert_that (bi_size block = 1);
     sym \<leftarrow> expect (symbol_info m 0 0);
     assert_that (si_size sym = 1);
     assert_that (si_padded sym)
   }"

definition test_payload_size_exact_multiple :: "unit run" where
  "test_payload_size_exact_multiple = do {
     m \<leftarrow> sample_map 1024 2 256;
     assert_that (cm_block_count m = 2);
     assert_that (total_symbols m = 4);
     for_run (\<lambda>i. do {
       block \<leftarrow> expect (block_info m i);
       assert_that (bi_size block = 512);
       assert_that (bi_symbol_count block = 2);
       for_run (\<lambda>j. do {
         sym \<leftarrow> expect (symbol_info m i j);
         assert_that (si_size sym = 256);
         assert_that (\<not> si_padded sym)
       }) [0, 1]
     }) [0, 1]
   }"

definition test_payload_size_max_simulated :: "unit run" where
  "test_payload_size_max_simulated = do {
     m \<leftarrow> sample_map (1024 * 1024) 4 4096;
     assert_that (cm_block_count m = 4);
     for_run (\<lambda>i. do {
       block \<leftarrow> expect (block_info m i);
       assert_that (bi_size block = 256 * 1024);
       assert_that (bi_symbol_count block = 64)
     }) [0, 1, 2, 3]
   }"

definition test_symbol_size_one :: "unit run" where
  "test_symbol_size_one = do {
     m \<leftarrow> sample_map 10 2 1;
     assert_that (cm_block_count m = 2);
     assert_that (total_symbols m = 10);
     for_run (\<lambda>i. do {
       block \<leftarrow> expect (block_info m i);
       assert_that (bi_size block = 5);
       assert_that (bi_symbol_count block = 5);
       for_run (\<lambda>j. do {
         sym \<leftarrow> expect (symbol_info m i j);
         assert_that (si_size sym = 1);
         assert_that (\<not> si_padded sym)
       }) [0, 1, 2, 3, 4]
     }) [0, 1]
   }"

definition test_symbol_size_max :: "unit run" where
  "test_symbol_size_max = do {
     m \<leftarrow> sample_map 65535 1 65535;
     assert_that (cm_block_count m = 1);
     assert_that (total_symbols m = 1);
     sym \<leftarrow> expect (symbol_info m 0 0);
     assert_that (si_size sym = 65535);
     assert_that (\<not> si_padded sym)
   }"

definition test_reassemble_wrong_block_count :: "unit run" where
  "test_reassemble_wrong_block_count = do {
     m \<leftarrow> sample_map 1000 2 256;
     block0 \<leftarrow> expect (extract_block m (replicate 1000 0) 0);
     assert_that (\<not> is_ok (reassemble m [block0]))
   }"

definition test_extract_block_truncated :: "unit run" where
  "test_extract_block_truncated = do {
     m \<leftarrow> sample_map 1000 2 256;
     assert_that (\<not> is_ok (extract_block m (replicate 400 0) 1))
   }"

definition test_extract_symbol_truncated :: "unit run" where
  "test_extract_symbol_truncated = do {
     m \<leftarrow> sample_map 1000 1 256;
     assert_that (\<not> is_ok (extract_symbol m (replicate 100 0) 0 0))
   }"

definition test_block_count_one :: "unit run" where
  "test_block_count_one = do {
     m \<leftarrow> sample_map 1000 1 256;
     assert_that (cm_block_count m = 1);
     block \<leftarrow> expect (block_info m 0);
     assert_that (bi_start block = 0);
     assert_that (bi_size block = 1000)
   }"

definition test_block_count_max :: "unit run" where
  "test_block_count_max = do {
     m \<leftarrow> sample_map 1024 MAX_BLOCK_COUNT 1;
     assert_that (cm_block_count m = MAX_BLOCK_COUNT);
     for_run (\<lambda>i. do {
       block \<leftarrow> expect (block_info m i);
       assert_that (bi_size block = 1)
     }) (map of_nat [0..<unat MAX_BLOCK_COUNT])
   }"

definition test_off_by_one_payload_size :: "unit run" where
  "test_off_by_one_payload_size =
     for_run (\<lambda>sz. do {
       m \<leftarrow> sample_map sz 1 256;
       block \<leftarrow> expect (block_info m 0);
       assert_that (bi_size block = sz);
       assert_that (bi_symbol_count block = ucast (div_ceil sz 256))
     }) [255, 256, 257, 511, 512, 513, 1023, 1024, 1025]"

definition test_off_by_one_block_count :: "bool \<Rightarrow> unit run" where
  "test_off_by_one_block_count checks =
     for_run (\<lambda>block_count. do {
       m \<leftarrow> sample_map 1000 block_count 256;
       total \<leftarrow> sum_words checks 0 (map bi_size (cm_blocks m));
       assert_that (total = 1000)
     }) [1, 2, 3, 4, 5]"

definition test_off_by_one_symbol_size :: "unit run" where
  "test_off_by_one_symbol_size =
     for_run (\<lambda>symbol_size. do {
       m \<leftarrow> sample_map 1000 2 symbol_size;
       for_run (\<lambda>block. assert_that (bi_symbol_count block = ucast (div_ceil (bi_size block) (ucast symbol_size))))
         (cm_blocks m)
     }) [255, 256, 257, 511, 512, 513]"

section \<open>The checksum and the digest\<close>

definition test_crc32c_known_answers :: "unit run" where
  "test_crc32c_known_answers = do {
     assert_that (crc32c_digest [] = 0);
     assert_that (crc32c_digest [0x31, 0x32, 0x33, 0x34, 0x35, 0x36, 0x37, 0x38, 0x39] = 0xE3069283);
     assert_that (crc32c_digest
       [0x48, 0x65, 0x6C, 0x6C, 0x6F, 0x20, 0x77, 0x6F, 0x72, 0x6C, 0x64, 0x21] = 0x7B98E751);
     assert_that (crc32c_digest [0x61] = 0xC1D04330);
     assert_that (crc32c_digest [0x00] = 0x527D5351)
   }"

text \<open>The streaming tests: a hasher that gets the pieces of the data in turn.\<close>

definition crc_stream :: "bytes list \<Rightarrow> u32" where
  "crc_stream pieces = crc_hasher_finalize (foldl crc_hasher_update crc_hasher_new pieces)"

definition test_crc32c_streaming_equals_one_shot :: "unit run" where
  "test_crc32c_streaming_equals_one_shot = do {
     let data = ramp 1000;
     a \<leftarrow> range_at 0 100 data;
     b \<leftarrow> range_at 100 500 data;
     c \<leftarrow> tail_at 500 data;
     assert_that (crc32c_digest data = crc_stream [a, b, c])
   }"

definition test_crc32c_streaming_empty :: "unit run" where
  "test_crc32c_streaming_empty = assert_that (crc_stream [] = crc32c_digest [])"

definition test_crc32c_streaming_single_byte :: "unit run" where
  "test_crc32c_streaming_single_byte = assert_that (crc_stream [[0x42]] = crc32c_digest [0x42])"

definition test_crc32c_streaming_single_byte_incremental :: "unit run" where
  "test_crc32c_streaming_single_byte_incremental =
     assert_that (crc_stream (map (\<lambda>i. [of_nat i]) [0..<256]) = crc32c_digest (map of_nat [0..<256]))"

text \<open>\<open>b"test data for empty update"\<close>.\<close>

definition test_data :: bytes where
  "test_data = [0x74, 0x65, 0x73, 0x74, 0x20, 0x64, 0x61, 0x74, 0x61, 0x20, 0x66, 0x6F, 0x72, 0x20,
     0x65, 0x6D, 0x70, 0x74, 0x79, 0x20, 0x75, 0x70, 0x64, 0x61, 0x74, 0x65]"

definition test_crc32c_streaming_empty_update :: "unit run" where
  "test_crc32c_streaming_empty_update = assert_that (crc_stream [[], test_data, []] = crc32c_digest test_data)"

definition test_crc32c_large_input_consistency :: "unit run" where
  "test_crc32c_large_input_consistency = do {
     pieces \<leftarrow> chunks 997 (ramp 100000);
     assert_that (crc_stream pieces = crc32c_digest (ramp 100000))
   }"

definition blake3_stream :: "(bytes \<Rightarrow> bytes) \<Rightarrow> bytes list \<Rightarrow> bytes" where
  "blake3_stream h pieces = blake3_hasher_finalize h (foldl blake3_hasher_update blake3_hasher_new pieces)"

definition test_blake3_streaming_equals_one_shot :: "(bytes \<Rightarrow> bytes) \<Rightarrow> unit run" where
  "test_blake3_streaming_equals_one_shot h = do {
     let data = ramp 1000;
     a \<leftarrow> range_at 0 100 data;
     b \<leftarrow> range_at 100 500 data;
     c \<leftarrow> tail_at 500 data;
     assert_that (blake3_digest h data = blake3_stream h [a, b, c])
   }"

definition test_blake3_streaming_empty :: "(bytes \<Rightarrow> bytes) \<Rightarrow> unit run" where
  "test_blake3_streaming_empty h = assert_that (blake3_stream h [] = blake3_digest h [])"

definition test_blake3_streaming_single_byte :: "(bytes \<Rightarrow> bytes) \<Rightarrow> unit run" where
  "test_blake3_streaming_single_byte h = assert_that (blake3_stream h [[0x42]] = blake3_digest h [0x42])"

definition test_blake3_streaming_single_byte_incremental :: "(bytes \<Rightarrow> bytes) \<Rightarrow> unit run" where
  "test_blake3_streaming_single_byte_incremental h =
     assert_that (blake3_stream h (map (\<lambda>i. [of_nat i]) [0..<256]) = blake3_digest h (map of_nat [0..<256]))"

text \<open>\<open>(0..50_000).map(|i| (i * 3) as u8).collect()\<close>.\<close>

definition test_blake3_large_input_chunked :: "(bytes \<Rightarrow> bytes) \<Rightarrow> unit run" where
  "test_blake3_large_input_chunked h = do {
     let data = map (\<lambda>i. of_nat (i * 3)) [0..<50000];
     pieces \<leftarrow> chunks 511 data;
     assert_that (blake3_stream h pieces = blake3_digest h data)
   }"

definition test_blake3_streaming_with_empty_updates :: "(bytes \<Rightarrow> bytes) \<Rightarrow> unit run" where
  "test_blake3_streaming_with_empty_updates h =
     assert_that (blake3_stream h [[], test_data, []] = blake3_digest h test_data)"

section \<open>Evaluation\<close>

lemma sample_map_eval:
  assumes "unat S < 2 ^ 32" and "0 < B" "B \<le> 1024" and "0 < n" "n \<le> 65535"
  defines "p \<equiv> \<lparr>cp_payload_size = S, cp_block_count = B, cp_symbol_size = n\<rparr>"
  shows "sample_map S B n = Some \<lparr>cm_params = p, cm_blocks = map (layout_block p) [0..<unat B]\<rparr>"
proof -
  obtain m where m: "sample_map S B n = Some m" and mf: "map_for p m"
    using sample_map_for [OF assms(1-5)] unfolding p_def by blast
  from map_for_blocks [OF mf] have "m = \<lparr>cm_params = p, cm_blocks = map (layout_block p) [0..<unat B]\<rparr>"
    by (cases m) (simp add: p_def)
  with m show ?thesis by simp
qed

lemmas test_evaluation = sample_map_eval layout_block_def block_size_def block_start_def div_ceil_usize_def
  div_ceil_def checked_add_def
  cm_block_count_def block_info_def symbol_info_def total_symbols_def word_less_nat_alt word_le_nat_alt upt_rec

lemma slice_ramp: "b \<le> n \<Longrightarrow> slice a b (ramp n) = map (\<lambda>i. of_nat (i mod 256)) [a..<b]"
  by (cases "a \<le> b") (simp_all add: ramp_def slice_def take_map drop_map)

lemma params_test: "test_chunk_params_validation = Some ()"
  by (simp add: test_chunk_params_validation_def chunk_params_new_def MAX_PAYLOAD_SIZE_def MIN_BLOCK_COUNT_def
      MAX_BLOCK_COUNT_def MIN_SYMBOL_SIZE_def MAX_SYMBOL_SIZE_def)

lemma map_tests:
  "test_chunk_map_simple = Some ()"
  "test_block_boundaries = Some ()"
  "test_symbol_boundaries = Some ()"
  by (simp_all add: test_chunk_map_simple_def test_block_boundaries_def test_symbol_boundaries_def test_evaluation)

lemma index_tests:
  "test_block_index_out_of_range = Some ()"
  "test_symbol_index_out_of_range = Some ()"
  by (simp_all add: test_block_index_out_of_range_def test_symbol_index_out_of_range_def test_evaluation)

lemma size_tests:
  "test_payload_size_zero = Some ()"
  "test_payload_size_one = Some ()"
  "test_payload_size_exact_multiple = Some ()"
  "test_payload_size_max_simulated = Some ()"
  by (simp_all add: test_payload_size_zero_def test_payload_size_one_def test_payload_size_exact_multiple_def
      test_payload_size_max_simulated_def test_evaluation)

lemma symbol_size_tests:
  "test_symbol_size_one = Some ()"
  "test_symbol_size_max = Some ()"
  "test_block_count_one = Some ()"
  by (simp_all add: test_symbol_size_one_def test_symbol_size_max_def test_block_count_one_def test_evaluation)

lemma off_by_one_payload: "test_off_by_one_payload_size = Some ()"
  by (simp add: test_off_by_one_payload_size_def test_evaluation)

lemma off_by_one_symbols: "test_off_by_one_symbol_size = Some ()"
  by (simp add: test_off_by_one_symbol_size_def test_evaluation)

lemma off_by_one_blocks: "test_off_by_one_block_count checks = Some ()"
  by (simp add: test_off_by_one_block_count_def test_evaluation)

text \<open>The tests that extract: the start of a part of the ramp.\<close>

lemma length_ramp [simp]: "length (ramp n) = n"
  by (simp add: ramp_def)

lemma slice_slice: "b \<le> d - c \<Longrightarrow> slice a b (slice c d xs) = slice (c + a) (c + b) xs"
  by (simp add: slice_def drop_take min_def add.commute)

lemma ramp_at:
  assumes "d = c + 4" and "d \<le> n"
  shows "slice c d (ramp n) = map (\<lambda>i. of_nat ((c + i) mod 256)) [0, 1, 2, 3]"
proof -
  have "slice c d (ramp n) = map (\<lambda>i. of_nat (i mod 256)) [c..<d]"
    using assms by (intro slice_ramp) simp
  also have "[c..<d] = [c, c + 1, c + 2, c + 3]"
    using assms by (simp add: upt_conv_Cons numeral_eq_Suc)
  finally show ?thesis by simp
qed

lemmas extraction = test_evaluation extract_block_def extract_symbol_def Let_def length_slice

lemma block_extraction_test: "test_block_extraction = Some ()"
  by (simp add: test_block_extraction_def extraction range_at_def ramp_at slice_slice)

lemma truncation_tests:
  "test_extract_block_truncated = Some ()"
  "test_extract_symbol_truncated = Some ()"
  "test_reassemble_wrong_block_count = Some ()"
  by (simp_all add: test_extract_block_truncated_def test_extract_symbol_truncated_def
      test_reassemble_wrong_block_count_def extraction reassemble_def)

lemma symbol_extraction_test: "test_symbol_extraction = Some ()"
proof -
  have "replicate 12 (0 :: u8) = [0, 0, 0, 0, 0, 0, 0, 0, 0, 0, 0, 0]"
    by (simp add: numeral_eq_Suc)
  then show ?thesis
    by (simp add: test_symbol_extraction_def extraction range_at_def ramp_at slice_slice slice_app_left
        slice_app_right slice_whole)
qed

text \<open>The tests on every block of a map, and the streaming tests, which hold at any data.\<close>

lemma count_max_test: "test_block_count_max = Some ()"
proof -
  let ?p = "\<lparr>cp_payload_size = 1024, cp_block_count = MAX_BLOCK_COUNT, cp_symbol_size = 1\<rparr> :: ChunkParams"
  obtain m where m: "sample_map 1024 MAX_BLOCK_COUNT 1 = Some m" and mf: "map_for ?p m"
    using sample_map_for [of 1024 MAX_BLOCK_COUNT 1] by (auto simp: MAX_BLOCK_COUNT_def)
  have "for_run (\<lambda>i. do { block \<leftarrow> expect (block_info m i); assert_that (bi_size block = 1) })
      (map of_nat [0..<unat MAX_BLOCK_COUNT]) = Some ()"
    by (rule for_run_ok)
      (auto simp: block_info_eq [OF mf] layout_block_def block_size_def MAX_BLOCK_COUNT_def unat_of_nat_lt)
  with m map_for_block_count [OF mf] show ?thesis by (simp add: test_block_count_max_def)
qed

lemma all_less_two: "(\<forall>i < Suc (Suc 0). P i) \<longleftrightarrow> P 0 \<and> P 1"
  by (auto simp: less_Suc_eq)

lemma reassembly_test: "test_reassembly = Some ()"
proof -
  let ?p = "\<lparr>cp_payload_size = 1000, cp_block_count = 2, cp_symbol_size = 256\<rparr> :: ChunkParams"
  obtain m where m: "sample_map 1000 2 256 = Some m" and mf: "map_for ?p m"
    using sample_map_for [of 1000 2 256] by auto
  have two: "length (payload_blocks ?p (ramp 1000)) = 2"
    using payload_blocks_props(1) [of ?p "ramp 1000"] mf by (simp add: map_for_def)
  have blocks: "extract_block m (ramp 1000) 0 = Inr (payload_blocks ?p (ramp 1000) ! 0)"
    "extract_block m (ramp 1000) 1 = Inr (payload_blocks ?p (ramp 1000) ! 1)"
    using extract_block_payload_blocks [OF mf, of "ramp 1000"] by simp_all
  have "[payload_blocks ?p (ramp 1000) ! 0, payload_blocks ?p (ramp 1000) ! 1] = payload_blocks ?p (ramp 1000)"
    using two by (simp add: list_eq_iff_nth_eq all_less_two)
  then show ?thesis
    using reassemble_payload_blocks [OF mf, of "ramp 1000"]
    by (simp only: test_reassembly_def m blocks expect.simps Option.bind.bind_lunit) simp
qed

lemma three_pieces: "a \<le> b \<Longrightarrow> take a xs @ slice a b xs @ drop b xs = xs"
  using slice_join [of 0 a b xs] by (simp add: slice_0_take flip: append_assoc)

lemma crc32c_streaming_tests:
  "test_crc32c_streaming_equals_one_shot = Some ()"
  "test_crc32c_streaming_empty = Some ()"
  "test_crc32c_streaming_single_byte = Some ()"
  "test_crc32c_streaming_single_byte_incremental = Some ()"
  "test_crc32c_streaming_empty_update = Some ()"
  "test_crc32c_large_input_consistency = Some ()"
  unfolding test_crc32c_streaming_equals_one_shot_def test_crc32c_streaming_empty_def
    test_crc32c_streaming_single_byte_def test_crc32c_streaming_single_byte_incremental_def
    test_crc32c_streaming_empty_update_def test_crc32c_large_input_consistency_def
  by (simp_all only: crc_stream_def crc_streaming_equals_one_shot)
    (simp_all add: range_at_def tail_at_def chunks_def concat_chunks slice_0_take three_pieces concat_map_singleton)

lemma blake3_streaming_tests:
  "test_blake3_streaming_equals_one_shot h = Some ()"
  "test_blake3_streaming_empty h = Some ()"
  "test_blake3_streaming_single_byte h = Some ()"
  "test_blake3_streaming_single_byte_incremental h = Some ()"
  "test_blake3_large_input_chunked h = Some ()"
  "test_blake3_streaming_with_empty_updates h = Some ()"
  unfolding test_blake3_streaming_equals_one_shot_def test_blake3_streaming_empty_def
    test_blake3_streaming_single_byte_def test_blake3_streaming_single_byte_incremental_def
    test_blake3_large_input_chunked_def test_blake3_streaming_with_empty_updates_def
  by (simp_all only: blake3_stream_def blake3_streaming_equals_one_shot)
    (simp_all add: range_at_def tail_at_def chunks_def concat_chunks slice_0_take three_pieces concat_map_singleton)

text \<open>The known answers of the checksum: the bit-serial register over the integers, whose steps the
  simplifier computes on numerals.\<close>

definition lfsr_int :: "int \<Rightarrow> int" where
  "lfsr_int c = (if odd c then c div 2 XOR 0x82F63B78 else c div 2)"

lemma lfsr_int_numeral: 
  "lfsr_int 0 = 0"
  "lfsr_int 1 = 0x82F63B78"
  "lfsr_int (numeral (Num.Bit0 n)) = numeral n"
  "lfsr_int (numeral (Num.Bit1 n)) = numeral n XOR 0x82F63B78"
  by (simp_all add: lfsr_int_def)

lemma uint_lfsr: "uint (lfsr c) = lfsr_int (uint c)"
proof -
  have half: "uint (drop_bit 1 c) = uint c div 2"
    by (simp add: drop_bit_eq_div uint_div)
  have low: "bit c 0 = odd (uint c)"
    by (simp add: bit_uint_iff flip: bit_0)
  show ?thesis
    using half by (simp add: lfsr_def lfsr_int_def low unsigned_xor_eq CRC32C_POLY_def)
qed

primrec crc_int :: "int \<Rightarrow> int list \<Rightarrow> int" where
  "crc_int c [] = c"
| "crc_int c (b # bs) = crc_int ((lfsr_int ^^ 8) (c XOR b)) bs"

lemma uint_lfsr8: "uint ((lfsr ^^ n) c) = (lfsr_int ^^ n) (uint c)"
  by (induction n) (simp_all add: uint_lfsr)

lemma uint_crc_ref: "uint (crc_ref c bs) = crc_int (uint c) (map uint bs)"
proof (induction bs arbitrary: c)
  case (Cons b bs)
  have "uint (ucast b :: u32) = uint b" by (simp add: uint_up_ucast is_up)
  with Cons show ?case by (simp add: uint_lfsr8 unsigned_xor_eq del: funpow.simps)
qed simp

lemma lfsr_int_eight: "lfsr_int ^^ 8 = (\<lambda>c. lfsr_int (lfsr_int (lfsr_int (lfsr_int (lfsr_int (lfsr_int (lfsr_int (lfsr_int c))))))))"
  by (rule ext) (simp add: numeral_eq_Suc)
lemma crc32c_digest_int: "uint (crc32c_digest data) = crc_int 0xFFFFFFFF (map uint data) XOR 0xFFFFFFFF"
  by (simp add: crc32c_digest_ref unsigned_xor_eq uint_crc_ref)

lemma known_answers_test: "test_crc32c_known_answers = Some ()"
proof -
  note compute = crc32c_digest_int lfsr_int_numeral lfsr_int_eight
  have "uint (crc32c_digest []) = uint (0 :: u32)" by (simp add: compute)
  moreover have "uint (crc32c_digest [0x31, 0x32, 0x33, 0x34, 0x35, 0x36, 0x37, 0x38, 0x39]) = uint (0xE3069283 :: u32)"
    by (simp add: compute)
  moreover have "uint (crc32c_digest
      [0x48, 0x65, 0x6C, 0x6C, 0x6F, 0x20, 0x77, 0x6F, 0x72, 0x6C, 0x64, 0x21]) = uint (0x7B98E751 :: u32)"
    by (simp add: compute)
  moreover have "uint (crc32c_digest [0x61]) = uint (0xC1D04330 :: u32)" by (simp add: compute)
  moreover have "uint (crc32c_digest [0x00]) = uint (0x527D5351 :: u32)" by (simp add: compute)
  ultimately show ?thesis
    by (simp only: test_crc32c_known_answers_def word_uint_eq_iff assert_that_True Option.bind.bind_lunit)
qed

section \<open>All of them\<close>

definition chunker_unit_tests :: "bool \<Rightarrow> unit run list" where
  "chunker_unit_tests checks =
     [test_chunk_params_validation, test_chunk_map_simple, test_block_boundaries, test_symbol_boundaries,
      test_block_extraction, test_symbol_extraction, test_reassembly, test_block_index_out_of_range,
      test_symbol_index_out_of_range, test_payload_size_zero, test_payload_size_one,
      test_payload_size_exact_multiple, test_payload_size_max_simulated, test_symbol_size_one,
      test_symbol_size_max, test_reassemble_wrong_block_count, test_extract_block_truncated,
      test_extract_symbol_truncated, test_block_count_one, test_block_count_max,
      test_off_by_one_payload_size, test_off_by_one_block_count checks, test_off_by_one_symbol_size]"

definition crc32c_unit_tests :: "unit run list" where
  "crc32c_unit_tests =
     [test_crc32c_known_answers, test_crc32c_streaming_equals_one_shot, test_crc32c_streaming_empty,
      test_crc32c_streaming_single_byte, test_crc32c_streaming_single_byte_incremental,
      test_crc32c_streaming_empty_update, test_crc32c_large_input_consistency]"

definition blake3_unit_tests :: "(bytes \<Rightarrow> bytes) \<Rightarrow> unit run list" where
  "blake3_unit_tests h =
     [test_blake3_streaming_equals_one_shot h, test_blake3_streaming_empty h,
      test_blake3_streaming_single_byte h, test_blake3_streaming_single_byte_incremental h,
      test_blake3_large_input_chunked h, test_blake3_streaming_with_empty_updates h]"

lemma chunker_unit_tests_pass: "list_all (\<lambda>t. t = Some ()) (chunker_unit_tests checks)"
  by (simp add: chunker_unit_tests_def params_test map_tests block_extraction_test symbol_extraction_test
      reassembly_test index_tests size_tests symbol_size_tests truncation_tests count_max_test
      off_by_one_payload off_by_one_blocks off_by_one_symbols)

lemma crc32c_unit_tests_pass: "list_all (\<lambda>t. t = Some ()) crc32c_unit_tests"
  by (simp add: crc32c_unit_tests_def known_answers_test crc32c_streaming_tests)

lemma blake3_unit_tests_pass: "list_all (\<lambda>t. t = Some ()) (blake3_unit_tests h)"
  by (simp add: blake3_unit_tests_def blake3_streaming_tests)

end
