(* ===== verification/Error_Text_Tests.thy ===== *)
theory Error_Text_Tests
  imports Error_Texts Unit_Tests "HOL-Library.Sublist"
begin

text \<open>
  The unit tests of \<open>dhow-codec/src/lib.rs\<close> and \<open>dhow-crypt/src/lib.rs\<close>: an error of every kind prints a text
  that names it, also after its conversion to the error of the crate.
\<close>

text \<open>\<open>err.to_string().contains(part)\<close>.\<close>

definition shows_part :: "bytes \<Rightarrow> string \<Rightarrow> unit run" where
  "shows_part shown part = assert_that (sublist (ascii part) shown)"

section \<open>The errors of the codec\<close>

definition test_chunk_error_display :: "unit run" where
  "test_chunk_error_display = shows_part (chunk_error_text (PayloadTooLarge 100 50)) ''exceeds maximum''"

definition test_frame_error_display :: "unit run" where
  "test_frame_error_display = shows_part (frame_error_text (FrameInvalidMagic [0, 0, 0, 0])) ''invalid magic''"

definition test_frame_error_reserved_nonzero :: "unit run" where
  "test_frame_error_reserved_nonzero = shows_part (frame_error_text (ReservedFieldNonZero 1)) ''must be zero''"

definition test_frame_error_crc_mismatch :: "unit run" where
  "test_frame_error_crc_mismatch = shows_part (frame_error_text (FrameCrcMismatch 1 2)) ''CRC32C mismatch''"

definition test_frame_error_mac_verification :: "unit run" where
  "test_frame_error_mac_verification = shows_part (frame_error_text MacVerificationFailed) ''MAC verification''"

definition test_manifest_error_display :: "bytes \<Rightarrow> unit run" where
  "test_manifest_error_display sys = shows_part (manifest_error_text sys (PathTraversal (ascii ''test''))) ''path traversal''"

definition test_manifest_error_crc_mismatch :: "bytes \<Rightarrow> unit run" where
  "test_manifest_error_crc_mismatch sys = shows_part (manifest_error_text sys ManifestCrcMismatch) ''CRC''"

definition test_manifest_error_invalid_magic :: "bytes \<Rightarrow> unit run" where
  "test_manifest_error_invalid_magic sys = shows_part (manifest_error_text sys (ManifestInvalidMagic [0, 0, 0, 0])) ''manifest magic''"

definition test_codec_error_from_manifest :: "bytes \<Rightarrow> unit run" where
  "test_codec_error_from_manifest sys = shows_part (codec_error_text sys (CodecManifest SignatureVerificationFailed)) ''manifest''"

definition test_session_error_display :: "bytes \<Rightarrow> unit run" where
  "test_session_error_display sys = shows_part (session_error_text sys NotInitialized) ''not initialized''"

definition test_resume_error_display :: "bytes \<Rightarrow> unit run" where
  "test_resume_error_display sys = shows_part (resume_error_text sys IntegrityCheckFailed) ''integrity''"

definition test_resume_error_invalid_magic :: "bytes \<Rightarrow> unit run" where
  "test_resume_error_invalid_magic sys = shows_part (resume_error_text sys (ResumeInvalidMagic [0, 0, 0, 0])) ''invalid resume file magic''"

definition test_codec_error_from_chunk :: "bytes \<Rightarrow> unit run" where
  "test_codec_error_from_chunk sys = shows_part (codec_error_text sys (CodecChunk EmptyPayload)) ''chunking error''"

definition test_codec_error_from_frame :: "bytes \<Rightarrow> unit run" where
  "test_codec_error_from_frame sys = shows_part (codec_error_text sys (CodecFrame (FrameUnsupportedVersion 99))) ''frame error''"

definition test_codec_error_frame_payload_too_large :: "bytes \<Rightarrow> unit run" where
  "test_codec_error_frame_payload_too_large sys = shows_part (codec_error_text sys (CodecFramePayloadTooLarge 70000 65535)) ''too large''"

definition test_codec_error_from_session :: "bytes \<Rightarrow> unit run" where
  "test_codec_error_from_session sys = shows_part (codec_error_text sys (CodecSession InvalidSessionId)) ''session error''"

definition test_codec_error_from_resume :: "bytes \<Rightarrow> unit run" where
  "test_codec_error_from_resume sys = shows_part (codec_error_text sys (CodecResume (ResumeTruncated 100 50))) ''resume error''"

section \<open>The errors of the crypto crate\<close>

definition test_key_error_display :: "bytes \<Rightarrow> unit run" where
  "test_key_error_display sys = shows_part (key_error_text sys (InvalidKey (Detail ''bad key'' []))) ''invalid key''"

definition test_aead_error_display :: "bytes \<Rightarrow> unit run" where
  "test_aead_error_display sys = shows_part (aead_error_text sys (DecryptionFailed (Detail ''wrong key'' []))) ''decryption failed''"

definition test_signing_error_display :: "bytes \<Rightarrow> unit run" where
  "test_signing_error_display sys = shows_part (signing_error_text sys VerificationFailed) ''verification failed''"

definition test_crypt_manifest_error_display :: "bytes \<Rightarrow> unit run" where
  "test_crypt_manifest_error_display sys = shows_part (crypt_manifest_error_text sys (CmPathTraversal (ascii ''../../etc/passwd''))) ''path traversal''"

definition test_crypt_error_from_key :: "bytes \<Rightarrow> unit run" where
  "test_crypt_error_from_key sys = shows_part (crypt_error_text sys (CryptKey ZeroizationFailed)) ''key error''"

definition test_crypt_error_from_aead :: "bytes \<Rightarrow> unit run" where
  "test_crypt_error_from_aead sys = shows_part (crypt_error_text sys (CryptAead (InvalidNonce (Detail ''bad nonce'' [])))) ''aead error''"

definition test_crypt_error_from_signing :: "bytes \<Rightarrow> unit run" where
  "test_crypt_error_from_signing sys = shows_part (crypt_error_text sys (CryptSigning (SigningFailed (Detail ''bad key'' [])))) ''signing error''"

definition test_crypt_error_from_manifest :: "bytes \<Rightarrow> unit run" where
  "test_crypt_error_from_manifest sys = shows_part (crypt_error_text sys (CryptManifest CmCrcMismatch)) ''manifest error''"

section \<open>All of them\<close>

definition codec_text_tests :: "bytes \<Rightarrow> unit run list" where
  "codec_text_tests sys =
     [test_chunk_error_display, test_frame_error_display, test_frame_error_reserved_nonzero,
      test_frame_error_crc_mismatch, test_frame_error_mac_verification, test_manifest_error_display sys,
      test_manifest_error_crc_mismatch sys, test_manifest_error_invalid_magic sys,
      test_codec_error_from_manifest sys, test_session_error_display sys, test_resume_error_display sys,
      test_resume_error_invalid_magic sys, test_codec_error_from_chunk sys,
      test_codec_error_from_frame sys, test_codec_error_frame_payload_too_large sys,
      test_codec_error_from_session sys, test_codec_error_from_resume sys]"

definition crypt_text_tests :: "bytes \<Rightarrow> unit run list" where
  "crypt_text_tests sys =
     [test_key_error_display sys, test_aead_error_display sys, test_signing_error_display sys,
      test_crypt_manifest_error_display sys, test_crypt_error_from_key sys,
      test_crypt_error_from_aead sys, test_crypt_error_from_signing sys,
      test_crypt_error_from_manifest sys]"

text \<open>A part of the text before the first placeholder of a template is shown whatever the arguments are.\<close>

lemma format_args_literal: "CHR ''{'' \<notin> set t \<Longrightarrow> format_args (t @ u) args = ascii t @ format_args u args"
  by (induction t) (auto simp: ascii_def)

lemma shows_literal:
  assumes "sublist part (takeWhile (\<lambda>c. c \<noteq> CHR ''{'') t)"
  shows "shows_part (format_args t args) part = Some ()"
proof -
  let ?l = "takeWhile (\<lambda>c. c \<noteq> CHR ''{'') t"
  have "format_args (?l @ dropWhile (\<lambda>c. c \<noteq> CHR ''{'') t) args =
      ascii ?l @ format_args (dropWhile (\<lambda>c. c \<noteq> CHR ''{'') t) args"
    by (rule format_args_literal) (auto dest: set_takeWhileD)
  moreover have "sublist (ascii part) (ascii ?l)"
    using assms by (metis ascii_def map_append sublist_def)
  ultimately show ?thesis by (simp add: shows_part_def sublist_def) (metis append_assoc)
qed

lemma exceeds_shown:
  "shows_part (format_args ''payload size {size} exceeds maximum {max}'' [Num (unat (100 :: u64)), Num (unat (50 :: u64))])
     ''exceeds maximum'' = Some ()"
  by (simp add: shows_part_def show_num_def decimal.simps sublist_Cons_right ascii_def sublist_code)

lemma codec_text_tests_pass: "list_all (\<lambda>t. t = Some ()) (codec_text_tests sys)"
  unfolding codec_text_tests_def list.pred_inject
    test_chunk_error_display_def test_frame_error_display_def test_frame_error_reserved_nonzero_def
    test_frame_error_crc_mismatch_def test_frame_error_mac_verification_def
    test_manifest_error_display_def test_manifest_error_crc_mismatch_def
    test_manifest_error_invalid_magic_def test_codec_error_from_manifest_def
    test_session_error_display_def test_resume_error_display_def test_resume_error_invalid_magic_def
    test_codec_error_from_chunk_def test_codec_error_from_frame_def
    test_codec_error_frame_payload_too_large_def test_codec_error_from_session_def
    test_codec_error_from_resume_def
    chunk_error_text.simps frame_error_text.simps manifest_error_text.simps session_error_text.simps
    resume_error_text.simps codec_error_text.simps
  by (intro conjI list.pred_inject(1) exceeds_shown; rule shows_literal; code_simp)

lemma crypt_text_tests_pass: "list_all (\<lambda>t. t = Some ()) (crypt_text_tests sys)"
  unfolding crypt_text_tests_def list.pred_inject
    test_key_error_display_def test_aead_error_display_def test_signing_error_display_def
    test_crypt_manifest_error_display_def test_crypt_error_from_key_def test_crypt_error_from_aead_def
    test_crypt_error_from_signing_def test_crypt_error_from_manifest_def
    key_error_text.simps aead_error_text.simps signing_error_text.simps crypt_manifest_error_text.simps
    crypt_error_text.simps
  by (intro conjI list.pred_inject(1); rule shows_literal; code_simp)

section \<open>All of them\<close>

text \<open>The unit tests with fixed examples pass: all of \<open>chunker.rs\<close>, \<open>crc32c.rs\<close> and the two \<open>lib.rs\<close>, and those of
  \<open>blake3.rs\<close> that hold of any hash function, with and without overflow checks. The known answers of
  the checksum are computed from its table-driven code.\<close>

theorem unit_tests_pass:
  "list_all (\<lambda>t. t = Some ()) (chunker_unit_tests checks @ crc32c_unit_tests @ blake3_unit_tests h @
     codec_text_tests sys @ crypt_text_tests sys)"
  by (simp only: list_all_append chunker_unit_tests_pass crc32c_unit_tests_pass blake3_unit_tests_pass
      codec_text_tests_pass crypt_text_tests_pass simp_thms)

end
