(* ===== verification/Golden_Vectors.thy ===== *)
theory Golden_Vectors
  imports Unit_Tests Manifest_Codec Resume Kdf_Aead
begin

text \<open>
  The golden vectors of \<open>proto/vectors.json\<close>: inputs and byte strings of every structure on the wire, computed
  by \<open>scripts/gen_vectors.py\<close>, a second implementation written from the specification. The model's
  serializers reproduce them and its parsers read them back; \<open>test_golden_vectors\<close> of \<open>chunker.rs\<close> is
  translated as a run over the vectors of the chunker. BLAKE3 is a parameter here too: of it the
  vectors of the resume file say the digest of one header.
\<close>

unbundle bit_operations_syntax

section \<open>The vectors\<close>

definition hex_value :: "char \<Rightarrow> nat" where
  "hex_value c = (if of_char c < (97 :: nat) then of_char c - 48 else of_char c - 87)"

fun unhex :: "string \<Rightarrow> bytes" where
  "unhex (a # b # s) = of_nat (16 * hex_value a + hex_value b) # unhex s"
| "unhex _ = []"

definition frame_header_hex :: bytes where
  "frame_header_hex = concat (map unhex
    [''44484f5701010000000102030405060708090a0b0c0d0e0f00010203040506070100000002000000ff00'',
     ''82c45389''])"

definition session_header_hex :: bytes where
  "session_header_hex = concat (map unhex
    [''4453455301000000000102030405060708090a0b0c0d0e0f001000000000000004000000000100001000'',
     ''00001400000004000000010000001000aaaaaaaaaaaaaaaaaaaaaaaaaaaaaaaaaaaaaaaaaaaaaaaaaaaa'',
     ''aaaaaaaaaaaa00000000000000000000000000000000000000000000000000000000000000004f19ac4f''])"

definition manifest_header_hex :: bytes where
  "manifest_header_hex = concat (map unhex
    [''44484d4602000000000102030405060708090a0b0c0d0e0f020000000020000000000000aaaaaaaaaaaa'',
     ''aaaaaaaaaaaaaaaaaaaaaaaaaaaaaaaaaaaaaaaaaaaaaaaaaaaa404142434445464748494a4b4c4d4e4f'',
     ''505152535455565758595a5b5c5d5e5f808182838485868788898a8b8c8d8e8f90919293949596970000'',
     ''01000000000004000000000100004000000060000000010000000100000001000000bb4ebe51bbbbbbbb'',
     ''bbbbbbbbbbbbbbbbbbbbbbbbbbbbbbbbbbbbbbbbbbbbbbbbbbbbbbbbbbbbbbbbbbbbbbbbbbbbbbbbbbbb'',
     ''bbbbbbbbbbbbbbbbbbbbbbbbbbbbbbbbbbbb''])"

definition file_entry_hex :: bytes where
  "file_entry_hex = concat (map unhex
    [''0d00746573742f66696c652e7478740001000000000000aaaaaaaaaaaaaaaaaaaaaaaaaaaaaaaaaaaaaa'',
     ''aaaaaaaaaaaaaaaaaaaaaaaaaa01''])"

definition manifest_hex :: bytes where
  "manifest_hex = manifest_header_hex @ concat (map unhex
    [''090066696c65312e7478740010000000000000aaaaaaaaaaaaaaaaaaaaaaaaaaaaaaaaaaaaaaaaaaaaaa'',
     ''aaaaaaaaaaaaaaaaaa00090066696c65322e7478740010000000000000aaaaaaaaaaaaaaaaaaaaaaaaaa'',
     ''aaaaaaaaaaaaaaaaaaaaaaaaaaaaaaaaaaaaaa01''])"

definition resume_covered_hex :: bytes where
  "resume_covered_hex = concat (map unhex
    [''4448525302000000000102030405060708090a0b0c0d0e0f04000000102700000000000084453a29cc9e'',
     ''0c43ee618c5ce19982caf875a0ce4fb361b1fa22d13910ffd50500000000000000000000000000000000'',
     ''0000000000000000cc06da31''])"

definition resume_digest_hex :: bytes where
  "resume_digest_hex = concat (map unhex
    [''e4e127d8e120770725839a2d0b497793b7f43d8610ac58d24b100d31d0b71ef5''])"

definition block_entry_hex :: bytes where
  "block_entry_hex = concat (map unhex
    [''010000001400000010000000ffff00''])"

definition resume_hex :: bytes where
  "resume_hex = resume_covered_hex @ resume_digest_hex @ concat (map unhex
    [''000000001400000010000000ffff00010000001400000010000000ffff00020000001400000000000000'',
     ''000000030000001400000000000000000000''])"

text \<open>The inputs, given to the constructors of the code.\<close>

definition golden_session_id :: bytes where "golden_session_id = map of_nat [0..<16]"

definition golden_frame_header :: "FrameHeader option" where
  "golden_frame_header = map_option (\<lambda>h. set_mac h (map of_nat [0..<8]))
     (frame_header_new FtRepair golden_session_id 1 2 (map of_nat [0..<255]))"

definition golden_session_header :: SessionHeader where
  "golden_session_header = session_header_new golden_session_id
     \<lparr>sp_payload_size = 4096, sp_block_count = 4, sp_symbol_size = 256,
       sp_source_symbols_per_block = 16, sp_total_symbols_per_block = 20,
       sp_raptorq = \<lparr>rq_z = 4, rq_n = 1, rq_psi = 16\<rparr>, sp_payload_digest = replicate 32 0xAA\<rparr>"

definition golden_file_entry :: FileEntry where
  "golden_file_entry = file_entry_with_mode (ascii ''test/file.txt'') 256 (replicate 32 0xAA) True"

definition golden_files :: "FileEntry list" where
  "golden_files =
     [file_entry_with_mode (ascii ''file1.txt'') 4096 (replicate 32 0xAA) False,
      file_entry_with_mode (ascii ''file2.txt'') 4096 (replicate 32 0xAA) True]"

definition golden_manifest :: Manifest where
  "golden_manifest = manifest_build
     (manifest_header_new golden_session_id golden_files 8192 (map of_nat [0x40..<0x60]) (map of_nat [0x80..<0x98])
       \<lparr>sp_payload_size = 65536, sp_block_count = 4, sp_symbol_size = 256,
       sp_source_symbols_per_block = 64, sp_total_symbols_per_block = 96,
       sp_raptorq = \<lparr>rq_z = 1, rq_n = 1, rq_psi = 1\<rparr>, sp_payload_digest = replicate 32 0xAA\<rparr>)
     golden_files (replicate 64 0xBB)"

definition golden_blocks :: "BlockEntry list" where
  "golden_blocks =
     [block_entry_new 0 20 16 [0xFF, 0xFF, 0x00],
      block_entry_new 1 20 16 [0xFF, 0xFF, 0x00],
      block_entry_new 2 20 0 [0x00, 0x00, 0x00],
      block_entry_new 3 20 0 [0x00, 0x00, 0x00]]"

definition golden_resume :: "(bytes \<Rightarrow> bytes) \<Rightarrow> ResumeFile" where
  "golden_resume h = resume_file_new h golden_session_id 10000
     (concat (map unhex [''84453a29cc9e0c43ee618c5ce19982caf875a0ce4fb361b1fa22d13910ffd505'']))
     golden_blocks"

section \<open>The vectors of the chunker\<close>

record GoldenSymbol =
  gs_index :: u64
  gs_start :: u64
  gs_size :: u64
  gs_padded :: bool

record GoldenBlock =
  gb_index :: u64
  gb_start :: u64
  gb_size :: u64
  gb_symbol_count :: u64
  gb_symbols :: "GoldenSymbol list"

record GoldenChunks =
  gc_payload_size :: u64
  gc_block_count :: u64
  gc_symbol_size :: u64
  gc_total_symbols :: u64
  gc_blocks :: "GoldenBlock list"

text \<open>The vectors whose name starts with \<open>chunker_\<close>.\<close>

definition chunker_vectors :: "GoldenChunks list" where
  "chunker_vectors =
    [\<lparr>gc_payload_size = 1000, gc_block_count = 2, gc_symbol_size = 256, gc_total_symbols = 4, gc_blocks =
       [\<lparr>gb_index = 0, gb_start = 0, gb_size = 500, gb_symbol_count = 2, gb_symbols =
         [\<lparr>gs_index = 0, gs_start = 0, gs_size = 256, gs_padded = False\<rparr>,
          \<lparr>gs_index = 1, gs_start = 256, gs_size = 244, gs_padded = True\<rparr>]\<rparr>,
        \<lparr>gb_index = 1, gb_start = 500, gb_size = 500, gb_symbol_count = 2, gb_symbols =
         [\<lparr>gs_index = 0, gs_start = 0, gs_size = 256, gs_padded = False\<rparr>,
          \<lparr>gs_index = 1, gs_start = 256, gs_size = 244, gs_padded = True\<rparr>]\<rparr>]\<rparr>,
     \<lparr>gc_payload_size = 1001, gc_block_count = 2, gc_symbol_size = 256, gc_total_symbols = 4, gc_blocks =
       [\<lparr>gb_index = 0, gb_start = 0, gb_size = 501, gb_symbol_count = 2, gb_symbols =
         [\<lparr>gs_index = 0, gs_start = 0, gs_size = 256, gs_padded = False\<rparr>,
          \<lparr>gs_index = 1, gs_start = 256, gs_size = 245, gs_padded = True\<rparr>]\<rparr>,
        \<lparr>gb_index = 1, gb_start = 501, gb_size = 500, gb_symbol_count = 2, gb_symbols =
         [\<lparr>gs_index = 0, gs_start = 0, gs_size = 256, gs_padded = False\<rparr>,
          \<lparr>gs_index = 1, gs_start = 256, gs_size = 244, gs_padded = True\<rparr>]\<rparr>]\<rparr>,
     \<lparr>gc_payload_size = 1000, gc_block_count = 1, gc_symbol_size = 256, gc_total_symbols = 4, gc_blocks =
       [\<lparr>gb_index = 0, gb_start = 0, gb_size = 1000, gb_symbol_count = 4, gb_symbols =
         [\<lparr>gs_index = 0, gs_start = 0, gs_size = 256, gs_padded = False\<rparr>,
          \<lparr>gs_index = 1, gs_start = 256, gs_size = 256, gs_padded = False\<rparr>,
          \<lparr>gs_index = 2, gs_start = 512, gs_size = 256, gs_padded = False\<rparr>,
          \<lparr>gs_index = 3, gs_start = 768, gs_size = 232, gs_padded = True\<rparr>]\<rparr>]\<rparr>,
     \<lparr>gc_payload_size = 1024, gc_block_count = 2, gc_symbol_size = 256, gc_total_symbols = 4, gc_blocks =
       [\<lparr>gb_index = 0, gb_start = 0, gb_size = 512, gb_symbol_count = 2, gb_symbols =
         [\<lparr>gs_index = 0, gs_start = 0, gs_size = 256, gs_padded = False\<rparr>,
          \<lparr>gs_index = 1, gs_start = 256, gs_size = 256, gs_padded = False\<rparr>]\<rparr>,
        \<lparr>gb_index = 1, gb_start = 512, gb_size = 512, gb_symbol_count = 2, gb_symbols =
         [\<lparr>gs_index = 0, gs_start = 0, gs_size = 256, gs_padded = False\<rparr>,
          \<lparr>gs_index = 1, gs_start = 256, gs_size = 256, gs_padded = False\<rparr>]\<rparr>]\<rparr>,
     \<lparr>gc_payload_size = 1, gc_block_count = 1, gc_symbol_size = 256, gc_total_symbols = 1, gc_blocks =
       [\<lparr>gb_index = 0, gb_start = 0, gb_size = 1, gb_symbol_count = 1, gb_symbols =
         [\<lparr>gs_index = 0, gs_start = 0, gs_size = 1, gs_padded = True\<rparr>]\<rparr>]\<rparr>,
     \<lparr>gc_payload_size = 0, gc_block_count = 1, gc_symbol_size = 256, gc_total_symbols = 0, gc_blocks =
       [\<lparr>gb_index = 0, gb_start = 0, gb_size = 0, gb_symbol_count = 0, gb_symbols =
         []\<rparr>]\<rparr>,
     \<lparr>gc_payload_size = 10, gc_block_count = 2, gc_symbol_size = 1, gc_total_symbols = 10, gc_blocks =
       [\<lparr>gb_index = 0, gb_start = 0, gb_size = 5, gb_symbol_count = 5, gb_symbols =
         [\<lparr>gs_index = 0, gs_start = 0, gs_size = 1, gs_padded = False\<rparr>,
          \<lparr>gs_index = 1, gs_start = 1, gs_size = 1, gs_padded = False\<rparr>,
          \<lparr>gs_index = 2, gs_start = 2, gs_size = 1, gs_padded = False\<rparr>,
          \<lparr>gs_index = 3, gs_start = 3, gs_size = 1, gs_padded = False\<rparr>,
          \<lparr>gs_index = 4, gs_start = 4, gs_size = 1, gs_padded = False\<rparr>]\<rparr>,
        \<lparr>gb_index = 1, gb_start = 5, gb_size = 5, gb_symbol_count = 5, gb_symbols =
         [\<lparr>gs_index = 0, gs_start = 0, gs_size = 1, gs_padded = False\<rparr>,
          \<lparr>gs_index = 1, gs_start = 1, gs_size = 1, gs_padded = False\<rparr>,
          \<lparr>gs_index = 2, gs_start = 2, gs_size = 1, gs_padded = False\<rparr>,
          \<lparr>gs_index = 3, gs_start = 3, gs_size = 1, gs_padded = False\<rparr>,
          \<lparr>gs_index = 4, gs_start = 4, gs_size = 1, gs_padded = False\<rparr>]\<rparr>]\<rparr>]"

text \<open>Looking up a block or a symbol that a vector does not have, and converting what is not there, is a panic.\<close>

definition test_golden_vectors :: "GoldenChunks list \<Rightarrow> unit run" where
  "test_golden_vectors vectors =
     for_run (\<lambda>vector. do {
       let block_count = ucast (gc_block_count vector);
       m \<leftarrow> sample_map (gc_payload_size vector) block_count (ucast (gc_symbol_size vector));
       assert_that (cm_block_count m = block_count);
       assert_that (total_symbols m = ucast (gc_total_symbols vector));
       for_run (\<lambda>(i, block). do {
         gv \<leftarrow> byte_at i (gc_blocks vector);
         assert_that (bi_index block = ucast (gb_index gv));
         assert_that (bi_start block = gb_start gv);
         assert_that (bi_size block = gb_size gv);
         assert_that (bi_symbol_count block = ucast (gb_symbol_count gv));
         for_run (\<lambda>j. do {
           sym \<leftarrow> expect (symbol_info m (of_nat i) (of_nat j));
           gvs \<leftarrow> byte_at j (gb_symbols gv);
           assert_that (si_index sym = ucast (gs_index gvs));
           assert_that (si_start sym = gs_start gvs);
           assert_that (si_size sym = gs_size gvs);
           assert_that (si_padded sym = gs_padded gvs)
         }) [0..<unat (bi_symbol_count block)]
       }) (enumerate 0 (cm_blocks m))
     }) vectors"

section \<open>Evaluation\<close>

lemma chunker_vectors_pass: "test_golden_vectors chunker_vectors = Some ()"
  by (simp add: test_golden_vectors_def chunker_vectors_def test_evaluation byte_at_def Let_def)

lemma le_bytes_eval:
  "le_bytes 2 w = [ucast w, ucast (drop_bit 8 w)]"
  "le_bytes 4 w = [ucast w, ucast (drop_bit 8 w), ucast (drop_bit 16 w), ucast (drop_bit 24 w)]"
  "le_bytes 8 w = [ucast w, ucast (drop_bit 8 w), ucast (drop_bit 16 w), ucast (drop_bit 24 w),
     ucast (drop_bit 32 w), ucast (drop_bit 40 w), ucast (drop_bit 48 w), ucast (drop_bit 56 w)]"
  by (simp_all add: numeral_eq_Suc drop_bit_drop_bit)

lemma crc32c_digest_eval:
  "crc32c_digest data = word_of_int (crc_int 0xFFFFFFFF (map uint data) XOR 0xFFFFFFFF)"
  using crc32c_digest_int [of data, symmetric] by simp

lemma replicate_eval: "replicate (numeral n) x = x # replicate (pred_numeral n) x"
  by (simp add: numeral_eq_Suc)

lemmas compute = replicate_eval le_bytes_eval crc32c_digest_eval lfsr_int_numeral lfsr_int_eight hex_value_def upt_rec

lemma golden_frame: "map_option frame_header_to_vec golden_frame_header = Some frame_header_hex"
  by (simp add: golden_frame_header_def frame_header_new_def set_mac_def frame_header_to_vec_def golden_session_id_def
      frame_header_hex_def MAGIC_def VERSION_def MAX_PAYLOAD_LEN_def compute)

text \<open>The session header: all but the checksum.\<close>

lemma golden_session: "take 122 (session_header_to_vec golden_session_header) = take 122 session_header_hex"
  by (simp add: golden_session_header_def session_header_new_def session_params_bytes_def session_header_to_vec_def
      golden_session_id_def session_header_hex_def SESSION_MAGIC_def SESSION_VERSION_def compute)

lemma golden_session_crc: "crc32c_digest (slice 0 122 session_header_hex) = u32_from_le_bytes (slice 122 126 session_header_hex)"
proof -
  have "uint (crc32c_digest (slice 0 122 session_header_hex)) = uint (u32_from_le_bytes (slice 122 126 session_header_hex))"
    by (simp add: session_header_hex_def slice_def compute crc32c_digest_int)
  then show ?thesis by (simp add: word_uint_eq_iff)
qed

lemma golden_entry: "file_entry_to_vec golden_file_entry = file_entry_hex"
  by (simp add: golden_file_entry_def file_entry_with_mode_def file_entry_to_vec_def file_entry_flags_def
      ENTRY_FLAG_EXECUTABLE_def ascii_def file_entry_hex_def compute)

lemma golden_manifest_bytes: "manifest_to_vec golden_manifest = manifest_hex"
  by (simp add: golden_manifest_def manifest_build_def manifest_header_new_def set_signature_def manifest_to_vec_def
      manifest_header_to_vec_def crc_covered_bytes_def golden_session_id_def golden_files_def file_entry_with_mode_def
      file_entry_to_vec_def file_entry_flags_def ENTRY_FLAG_EXECUTABLE_def ascii_def manifest_hex_def
      manifest_header_hex_def MANIFEST_MAGIC_def MANIFEST_VERSION_def compute)

lemma golden_block: "block_entry_to_vec (golden_blocks ! 1) = block_entry_hex"
  by (simp add: golden_blocks_def block_entry_new_def block_entry_to_vec_def block_entry_hex_def compute)

lemma golden_resume_covered:
  "let bytes = RESUME_MAGIC @ [RESUME_VERSION] @ replicate 3 0 @ golden_session_id @
       u32_to_le_bytes (of_nat (length golden_blocks)) @ u64_to_le_bytes 10000 @
       concat (map unhex [''84453a29cc9e0c43ee618c5ce19982caf875a0ce4fb361b1fa22d13910ffd505'']) @ replicate 24 0
   in bytes @ u32_to_le_bytes (crc32c_digest bytes) = resume_covered_hex"
  by (simp add: golden_session_id_def golden_blocks_def resume_covered_hex_def RESUME_MAGIC_def RESUME_VERSION_def compute)

lemma golden_entries: "concat (map block_entry_to_vec golden_blocks) = drop 128 resume_hex"
  by (simp add: golden_blocks_def block_entry_new_def block_entry_to_vec_def resume_hex_def resume_covered_hex_def
      resume_digest_hex_def compute)

lemma golden_resume_bytes:
  assumes "h resume_covered_hex = resume_digest_hex"
  shows "resume_file_to_vec (golden_resume h) = resume_hex"
proof -
  have "resume_file_to_vec (golden_resume h) =
      resume_covered_hex @ h resume_covered_hex @ concat (map block_entry_to_vec golden_blocks)"
    using golden_resume_covered
    by (simp add: golden_resume_def resume_file_new_def resume_file_build_def resume_file_to_vec_def
        resume_header_to_vec_def resume_header_new_def blake3_digest_def Let_def)
  also have "\<dots> = resume_hex"
    unfolding assms golden_entries by (simp add: resume_hex_def resume_covered_hex_def resume_digest_hex_def compute)
  finally show ?thesis .
qed

text \<open>Both are well-formed.\<close>

lemma ascii_name_ok:
  "name_ok (ascii ''file1.txt'')" "name_ok (ascii ''file2.txt'')"
  by code_simp+

lemma golden_frame_wf: "golden_frame_header = Some hdr \<Longrightarrow> frame_header_wf hdr"
  by (auto simp: golden_frame_header_def frame_header_new_def set_mac_def frame_header_wf_def golden_session_id_def
      split: if_splits)

lemma golden_entry_wf: "file_entry_wf golden_file_entry"
proof -
  have "name_ok (ascii ''test/file.txt'')" by code_simp
  then show ?thesis by (simp add: file_entry_wf_def golden_file_entry_def file_entry_with_mode_def)
qed

lemma golden_manifest_wf: "manifest_wf golden_manifest"
  by (simp add: manifest_wf_def manifest_header_wf_def golden_manifest_def manifest_build_def manifest_header_new_def
      set_signature_def golden_files_def file_entry_with_mode_def file_entry_wf_def ascii_name_ok session_params_wf_def
      golden_session_id_def MAX_FILE_COUNT_def Let_def)

lemma golden_blocks_wf: "list_all block_entry_wf golden_blocks" "entries_indexed 0 golden_blocks"
  by code_simp+

lemma four_golden_blocks: "length golden_blocks = 4"
  by (simp add: golden_blocks_def)

lemma golden_resume_wf: "hash_32 h \<Longrightarrow> resume_file_wf h (golden_resume h)"
  using golden_blocks_wf four_golden_blocks
  by (simp add: resume_file_wf_def resume_header_wf_def golden_resume_def resume_file_new_def resume_file_build_def
      resume_header_new_def resume_header_crc_input_def golden_session_id_def length_blake3_digest Let_def)

section \<open>The checksum of the session header\<close>

lemma session_magic_moves_register: "crc_ref 0xFFFFFFFF SESSION_MAGIC \<noteq> 0xFFFFFFFF"
proof -
  have "uint (crc_ref 0xFFFFFFFF SESSION_MAGIC) \<noteq> uint (0xFFFFFFFF :: u32)"
    unfolding uint_crc_ref SESSION_MAGIC_def by (simp add: compute)
  then show ?thesis by auto
qed

lemma covering_the_magic_matters: "crc32c_digest (SESSION_MAGIC @ body) \<noteq> crc32c_digest body"
  using session_magic_moves_register
  by (auto simp: crc32c_digest_ref crc_ref_append xor_right_cancel dest: crc_ref_inj)

lemma accepted_session_header:
  assumes "session_header_from_bytes bs = Inr h"
  shows "slice 0 122 bs = SESSION_MAGIC @ slice 4 122 bs"
    and "u32_from_le_bytes (slice 122 126 bs) = crc32c_digest (slice 4 122 bs)"
  using assms slice_join [of 0 4 122 bs]
  by (auto simp: session_header_from_bytes_def Let_def split: if_splits)

section \<open>Properties\<close>

text \<open>C12: the session header of the code is not the one of the specification. \<open>proto/session.md\<close> and the
  golden vector put the checksum over bytes 0 to 122; the code computes it over bytes 4 to 122,
  without the magic. No byte string satisfies both: a header with the specified checksum is
  refused, whatever it holds, and the code never writes one.\<close>

theorem specified_session_headers_refused:
  assumes "u32_from_le_bytes (slice 122 126 bs) = crc32c_digest (slice 0 122 bs)"
  shows "\<not> is_ok (session_header_from_bytes bs) \<and>
    (session_header_wf header \<longrightarrow> session_header_to_vec header \<noteq> bs)"
proof -
  have refused: "session_header_from_bytes bs \<noteq> Inr h" for h
  proof
    assume ok: "session_header_from_bytes bs = Inr h"
    have "crc32c_digest (SESSION_MAGIC @ slice 4 122 bs) = crc32c_digest (slice 4 122 bs)"
      using accepted_session_header [OF ok] assms by simp
    then show False using covering_the_magic_matters by blast
  qed
  moreover have "session_header_from_bytes (session_header_to_vec header) = Inr header" if "session_header_wf header"
    using shdr.accepts [OF that, of "[]"] by simp
  ultimately show ?thesis
    by (cases "session_header_from_bytes bs") auto
qed

theorem specified_session_headers_refused_witness:
  "\<not> is_ok (session_header_from_bytes session_header_hex) \<and> take 4 session_header_hex = SESSION_MAGIC"
proof
  show "\<not> is_ok (session_header_from_bytes session_header_hex)"
    using specified_session_headers_refused [OF golden_session_crc [symmetric]] by simp
  show "take 4 session_header_hex = SESSION_MAGIC"
    by (simp add: session_header_hex_def SESSION_MAGIC_def compute)
qed

text \<open>C26: the serializers reproduce the golden vectors, which a second implementation computed from
  the specification, and the parsers read each of them back: frame header, file entry, manifest, block entry and resume file.
  Of the session header, whose checksum differs, the serializer reproduces all but the checksum. The
  chunker lays out every payload of the vectors as they say. Of BLAKE3 this uses one digest, that of
  the resume header.\<close>

theorem golden_vectors_reproduced:
  assumes "hash_32 h" and "h resume_covered_hex = resume_digest_hex"
  shows "(\<exists>hdr. golden_frame_header = Some hdr \<and> frame_header_to_vec hdr = frame_header_hex \<and>
       frame_header_from_bytes frame_header_hex = Inr hdr) \<and>
    file_entry_to_vec golden_file_entry = file_entry_hex \<and>
    file_entry_from_bytes file_entry_hex = Inr (golden_file_entry, length file_entry_hex) \<and>
    manifest_to_vec golden_manifest = manifest_hex \<and> manifest_from_bytes manifest_hex = Inr golden_manifest \<and>
    block_entry_to_vec (golden_blocks ! 1) = block_entry_hex \<and>
    block_entry_from_bytes block_entry_hex = Inr (golden_blocks ! 1, length block_entry_hex) \<and>
    resume_file_to_vec (golden_resume h) = resume_hex \<and> resume_file_from_bytes h resume_hex = Inr (golden_resume h) \<and>
    take 122 (session_header_to_vec golden_session_header) = take 122 session_header_hex \<and>
    test_golden_vectors chunker_vectors = Some ()"
proof -
  obtain hdr where hdr: "golden_frame_header = Some hdr" "frame_header_to_vec hdr = frame_header_hex"
    using golden_frame by auto
  have "frame_header_from_bytes frame_header_hex = Inr hdr"
    using fhdr.parse_exact [OF golden_frame_wf [OF hdr(1)]] by (simp add: hdr(2))
  moreover have "file_entry_from_bytes file_entry_hex = Inr (golden_file_entry, length file_entry_hex)"
    using fentry.accepts [OF golden_entry_wf, of "[]"] by (simp add: golden_entry)
  moreover have "block_entry_from_bytes block_entry_hex = Inr (golden_blocks ! 1, length block_entry_hex)"
    using bentry.accepts [of "golden_blocks ! 1" "[]"] golden_blocks_wf(1) four_golden_blocks
    by (simp add: golden_block [unfolded One_nat_def] list_all_length)
  moreover have "manifest_from_bytes manifest_hex = Inr golden_manifest"
    by (simp add: manifest_parse_iff golden_manifest_wf golden_manifest_bytes)
  moreover have "resume_file_from_bytes h resume_hex = Inr (golden_resume h)"
    by (simp add: resume_parse_iff golden_resume_wf [OF assms(1)] golden_resume_bytes [of h, OF assms(2)])
  ultimately show ?thesis
    using hdr golden_entry golden_manifest_bytes golden_block golden_resume_bytes [of h, OF assms(2)]
      golden_session chunker_vectors_pass by blast
qed

theorem golden_vectors_reproduced_witness:
  "\<exists>h. manifest_from_bytes manifest_hex = Inr golden_manifest \<and>
     resume_file_from_bytes h resume_hex = Inr (golden_resume h)"
proof -
  let ?h = "\<lambda>_. resume_digest_hex"
  have "length resume_digest_hex = 32" by (simp add: resume_digest_hex_def)
  then have "hash_32 ?h" by (simp add: hash_32_def)
  from golden_vectors_reproduced [OF this refl] show ?thesis by blast
qed

end
