(* ===== verification/Secret_Memory.thy ===== *)
theory Secret_Memory
  imports Key_Files Kdf_Aead
begin

text \<open>
  What the keys leave behind: \<open>Drop\<close>, \<open>PartialEq\<close> and \<open>Debug\<close> of the types of \<open>key.rs\<close>, \<open>aead.rs\<close> and
  \<open>kdf.rs\<close> that hold or travel with secrets, and the contents of the heap buffers the functions of
  \<open>kdf.rs\<close> and \<open>key.rs\<close> free. Each function is translated a second time, to its result and the buffers
  (every \<open>Vec\<close> that goes out of scope) with the bytes they hold when they are freed, in order; the result
  is proved to be that of the first translation. Arrays on the stack are not heap buffers and are
  left out; so is a buffer that \<open>fs::read\<close> or a \<open>Vec\<close> that grows would free on the way, of which the code
  has none that it can name: the buffers of the code are created with the capacity they need.

  \<open>wipe\<close> is \<open>zeroize()\<close> of the crate of that name and \<open>ct\<close> the \<open>ct_eq\<close> of \<open>subtle\<close>; \<open>sk_drop\<close> is what dropping
  an Ed25519 signing key leaves of it.
\<close>

section \<open>Drop, PartialEq and Debug\<close>

definition operator_drop :: "(bytes \<Rightarrow> bytes) \<Rightarrow> OperatorKey \<Rightarrow> OperatorKey" where
  "operator_drop wipe k = k\<lparr>ok_bytes := wipe (ok_bytes k)\<rparr>"

definition transfer_keys_drop :: "(bytes \<Rightarrow> bytes) \<Rightarrow> TransferKeys \<Rightarrow> TransferKeys" where
  "transfer_keys_drop wipe k =
     k\<lparr>tk_payload_key := wipe (tk_payload_key k), tk_session_key := wipe (tk_session_key k)\<rparr>"

text \<open>The seed that is wiped here is a copy; the field is dropped after the body of \<open>drop\<close>. The first
  component is what remains of the key, the second what remains of the copy.\<close>

definition identity_drop ::
  "(bytes \<Rightarrow> bytes) \<Rightarrow> ('sk, 'vk) ed25519 \<Rightarrow> ('sk \<Rightarrow> 'sk) \<Rightarrow> 'sk IdentityKey \<Rightarrow> 'sk IdentityKey \<times> bytes" where
  "identity_drop wipe E sk_drop k =
     (let seed = wipe (ed_to_bytes E (ik_signing k)) in (\<lparr>ik_signing = sk_drop (ik_signing k)\<rparr>, seed))"

definition operator_eq :: "(bytes \<Rightarrow> bytes \<Rightarrow> bool) \<Rightarrow> OperatorKey \<Rightarrow> OperatorKey \<Rightarrow> bool" where
  "operator_eq ct a b = ct (ok_bytes a) (ok_bytes b)"

definition operator_debug :: "OperatorKey \<Rightarrow> string" where
  "operator_debug k = ''OperatorKey(<redacted>)''"

definition identity_debug :: "'sk IdentityKey \<Rightarrow> string" where
  "identity_debug k = ''IdentityKey(<redacted>)''"

definition transfer_keys_debug :: "TransferKeys \<Rightarrow> string" where
  "transfer_keys_debug k = ''TransferKeys(<redacted>)''"

definition nonce_debug :: "bytes \<Rightarrow> string" where
  "nonce_debug n = ''Nonce('' @ hex_byte (n ! 0) @ hex_byte (n ! 1) @ ''..)''"

definition salt_debug :: "bytes \<Rightarrow> string" where
  "salt_debug s = ''Salt('' @ hex_byte (s ! 0) @ hex_byte (s ! 1) @ ''..)''"

text \<open>The derived ones.\<close>

fun secret_debug :: "'sk SecretKey \<Rightarrow> string" where
  "secret_debug (SkIdentity k) = ''Identity('' @ identity_debug k @ '')''"
| "secret_debug (SkOperator k) = ''Operator('' @ operator_debug k @ '')''"

definition transfer_parameters_debug :: "TransferParameters \<Rightarrow> string" where
  "transfer_parameters_debug p =
     ''TransferParameters { salt: '' @ salt_debug (tp_salt p) @ '', nonce: '' @ nonce_debug (tp_nonce p) @ '' }''"

section \<open>Freed buffers\<close>

text \<open>\<open>let x = f()?;\<close> in a function that frees buffers of its own after it.\<close>

definition try_freeing ::
  "('e + 'a) \<times> bytes list \<Rightarrow> ('a \<Rightarrow> ('e + 'b) \<times> bytes list) \<Rightarrow> ('e + 'b) \<times> bytes list" where
  "try_freeing r f =
     (case fst r of Inl e \<Rightarrow> (Inl e, snd r) | Inr a \<Rightarrow> (let s = f a in (fst s, snd r @ snd s)))"

text \<open>The assignment to \<open>previous\<close> frees the buffer it held, and so does the end of the function.\<close>

fun hkdf_expand_loop_freeing ::
  "(bytes \<Rightarrow> bytes) \<Rightarrow> (bytes \<Rightarrow> bytes \<Rightarrow> bytes) \<Rightarrow> bytes \<Rightarrow> bytes \<Rightarrow> nat \<Rightarrow> u8 list \<Rightarrow> bytes \<Rightarrow> bytes \<Rightarrow>
   bytes \<times> bytes list" where
  "hkdf_expand_loop_freeing wipe kh prk info out_len [] okm previous = (okm, [wipe previous])"
| "hkdf_expand_loop_freeing wipe kh prk info out_len (counter # counters) okm previous =
     (if length okm \<ge> out_len then (okm, [wipe previous])
      else
        (let block = kh prk (previous @ info @ [counter]);
             n = min (out_len - length okm) (length block);
             (okm', freed) =
               hkdf_expand_loop_freeing wipe kh prk info out_len counters (okm @ take n block) block
         in (okm', wipe previous # freed)))"

definition hkdf_expand_freeing ::
  "(bytes \<Rightarrow> bytes) \<Rightarrow> (bytes \<Rightarrow> bytes \<Rightarrow> bytes) \<Rightarrow> bytes \<Rightarrow> bytes \<Rightarrow> nat \<Rightarrow> (AeadError + bytes) \<times> bytes list" where
  "hkdf_expand_freeing wipe kh prk info out_len =
     (if out_len > MAX_OKM_LEN
        then (Inl (KeyDerivationFailed (Detail ''requested {out_len} bytes, maximum is {MAX_OKM_LEN}''
               [out_len, MAX_OKM_LEN])), [])
      else
        (let (okm, freed) = hkdf_expand_loop_freeing wipe kh prk info out_len (map of_nat [1..<256]) [] []
         in (Inr okm, freed)))"

definition kdf_derive_freeing ::
  "(bytes \<Rightarrow> bytes) \<Rightarrow> (bytes \<Rightarrow> bytes \<Rightarrow> bytes) \<Rightarrow> bytes \<Rightarrow> bytes \<Rightarrow> bytes \<Rightarrow> nat \<Rightarrow>
   (AeadError + bytes) \<times> bytes list" where
  "kdf_derive_freeing wipe kh salt ikm info out_len =
     hkdf_expand_freeing wipe kh (hkdf_extract kh salt ikm) info out_len"

definition derive_key_freeing ::
  "(bytes \<Rightarrow> bytes) \<Rightarrow> (bytes \<Rightarrow> bytes \<Rightarrow> bytes) \<Rightarrow> bytes \<Rightarrow> bytes \<Rightarrow> bytes \<Rightarrow> (AeadError + bytes) \<times> bytes list" where
  "derive_key_freeing wipe kh salt ikm info =
     try_freeing (kdf_derive_freeing wipe kh salt ikm info 32) (\<lambda>bytes. (Inr bytes, [bytes]))"

definition transfer_keys_derive_freeing ::
  "(bytes \<Rightarrow> bytes) \<Rightarrow> (bytes \<Rightarrow> bytes \<Rightarrow> bytes) \<Rightarrow> bytes \<Rightarrow> bytes \<Rightarrow> (AeadError + TransferKeys) \<times> bytes list" where
  "transfer_keys_derive_freeing wipe kh operator salt =
     try_freeing (derive_key_freeing wipe kh salt operator INFO_PAYLOAD_KEY) (\<lambda>payload_key.
       try_freeing (derive_key_freeing wipe kh salt operator INFO_SESSION_KEY) (\<lambda>session_key.
         (Inr \<lparr>tk_payload_key = payload_key, tk_session_key = session_key\<rparr>, [])))"

definition save_identity_freeing ::
  "(bytes \<Rightarrow> bytes) \<Rightarrow> ('sk, 'vk) ed25519 \<Rightarrow> os \<Rightarrow> u32 \<Rightarrow> path \<Rightarrow> 'sk IdentityKey \<Rightarrow> files \<Rightarrow>
   ((KeyError + unit) \<times> files list) \<times> bytes list" where
  "save_identity_freeing h E S umask p key F =
     (let bytes = encode_key_file h KindIdentity (expose_seed E key)
      in (write_owner_only S umask p bytes F, [bytes]))"

definition save_operator_freeing ::
  "(bytes \<Rightarrow> bytes) \<Rightarrow> os \<Rightarrow> u32 \<Rightarrow> path \<Rightarrow> OperatorKey \<Rightarrow> files \<Rightarrow>
   ((KeyError + unit) \<times> files list) \<times> bytes list" where
  "save_operator_freeing h S umask p key F =
     (let bytes = encode_key_file h KindOperator (ok_bytes key)
      in (write_owner_only S umask p bytes F, [bytes]))"

definition load_secret_freeing ::
  "(bytes \<Rightarrow> bytes) \<Rightarrow> ('sk, 'vk) ed25519 \<Rightarrow> os \<Rightarrow> path \<Rightarrow> files \<Rightarrow> (KeyError + 'sk SecretKey) \<times> bytes list" where
  "load_secret_freeing h E S p F =
     (case check_permissions S p F of
        Inl e \<Rightarrow> (Inl e, [])
      | Inr _ \<Rightarrow>
          (case fs_read S p F of
             None \<Rightarrow> (Inl (InvalidKey (Detail ''cannot read key file: {e}'' [])), [])
           | Some bytes \<Rightarrow>
               (case decode_key_file h bytes of
                  Inl e \<Rightarrow> (Inl e, [bytes])
                | Inr (kind, material) \<Rightarrow>
                    (Inr (case kind of
                       KindIdentity \<Rightarrow> SkIdentity (identity_from_seed E material)
                     | KindOperator \<Rightarrow> SkOperator \<lparr>ok_bytes = material\<rparr>), [bytes]))))"

definition load_identity_freeing ::
  "(bytes \<Rightarrow> bytes) \<Rightarrow> ('sk, 'vk) ed25519 \<Rightarrow> os \<Rightarrow> path \<Rightarrow> files \<Rightarrow> (KeyError + 'sk IdentityKey) \<times> bytes list" where
  "load_identity_freeing h E S p F =
     try_freeing (load_secret_freeing h E S p F) (\<lambda>s. case s of
         SkIdentity k \<Rightarrow> (Inr k, [])
       | SkOperator _ \<Rightarrow> (Inl (InvalidKey (Detail ''expected an identity key, found an operator key'' [])), []))"

definition load_operator_freeing ::
  "(bytes \<Rightarrow> bytes) \<Rightarrow> ('sk, 'vk) ed25519 \<Rightarrow> os \<Rightarrow> path \<Rightarrow> files \<Rightarrow> (KeyError + OperatorKey) \<times> bytes list" where
  "load_operator_freeing h E S p F =
     try_freeing (load_secret_freeing h E S p F) (\<lambda>s. case s of
         SkOperator k \<Rightarrow> (Inr k, [])
       | SkIdentity _ \<Rightarrow> (Inl (InvalidKey (Detail ''expected an operator key, found an identity key'' [])), []))"

section \<open>The results are those of the first translation\<close>

lemma fst_try_freeing: "fst (try_freeing r f) = res_bind (fst r) (\<lambda>a. fst (f a))"
  by (cases "fst r") (simp_all add: try_freeing_def Let_def)

lemma expand_loop_result:
  "fst (hkdf_expand_loop_freeing wipe kh prk info n cs okm previous) = hkdf_expand_loop kh prk info n cs okm previous"
  by (induction wipe kh prk info n cs okm previous rule: hkdf_expand_loop_freeing.induct)
    (simp_all add: Let_def case_prod_unfold)

lemma kdf_derive_result: "fst (kdf_derive_freeing wipe kh salt ikm info n) = kdf_derive kh salt ikm info n"
  by (simp add: kdf_derive_freeing_def kdf_derive_def hkdf_expand_freeing_def hkdf_expand_def
      expand_loop_result case_prod_unfold)

lemma derive_key_result: "fst (derive_key_freeing wipe kh salt ikm info) = derive_key kh salt ikm info"
  by (simp add: derive_key_freeing_def derive_key_def fst_try_freeing kdf_derive_result)

lemma transfer_keys_derive_result:
  "fst (transfer_keys_derive_freeing wipe kh operator salt) = transfer_keys_derive kh operator salt"
  by (simp add: transfer_keys_derive_freeing_def transfer_keys_derive_def fst_try_freeing derive_key_result)

lemma load_secret_result: "fst (load_secret_freeing h E S p F) = load_secret h E S p F"
  by (auto simp: load_secret_freeing_def load_secret_def split: sum.splits option.splits)

lemma load_results:
  "fst (load_identity_freeing h E S p F) = load_identity h E S p F"
  "fst (load_operator_freeing h E S p F) = load_operator h E S p F"
  by (auto simp: load_identity_freeing_def load_identity_def load_operator_freeing_def load_operator_def
      fst_try_freeing load_secret_result intro!: arg_cong [where f = "res_bind _"] split: SecretKey.splits)

section \<open>What the buffers hold\<close>

text \<open>What the documentation of \<open>zeroize\<close> and \<open>subtle\<close> promises.\<close>

definition wipes :: "(bytes \<Rightarrow> bytes) \<Rightarrow> bool" where
  "wipes wipe \<longleftrightarrow> (\<forall>bs. wipe bs = replicate (length bs) 0)"

definition compares :: "(bytes \<Rightarrow> bytes \<Rightarrow> bool) \<Rightarrow> bool" where
  "compares ct \<longleftrightarrow> (\<forall>a b. ct a b = (a = b))"

lemma operator_eq_iff: "compares ct \<Longrightarrow> operator_eq ct a b \<longleftrightarrow> a = b"
  by (cases a; cases b) (simp add: compares_def operator_eq_def)

text \<open>Two secrets of a kind print the same.\<close>

lemma secret_debug_redacts:
  "secret_debug s = (case s of SkIdentity _ \<Rightarrow> ''Identity(IdentityKey(<redacted>))''
     | SkOperator _ \<Rightarrow> ''Operator(OperatorKey(<redacted>))'')"
  by (cases s) (simp_all add: identity_debug_def operator_debug_def)

lemma expand_loop_frees:
  "wipes wipe \<Longrightarrow> b \<in> set (snd (hkdf_expand_loop_freeing wipe kh prk info n cs okm previous)) \<Longrightarrow> list_all ((=) 0) b"
  by (induction wipe kh prk info n cs okm previous rule: hkdf_expand_loop_freeing.induct)
    (auto simp: wipes_def Let_def case_prod_unfold list_all_iff split: if_splits)

lemma kdf_derive_frees:
  "wipes wipe \<Longrightarrow> b \<in> set (snd (kdf_derive_freeing wipe kh salt ikm info n)) \<Longrightarrow> list_all ((=) 0) b"
  by (auto simp: kdf_derive_freeing_def hkdf_expand_freeing_def case_prod_unfold Let_def dest: expand_loop_frees
      split: if_splits)

text \<open>One block is enough for the 32 bytes of a key: the expansion frees \<open>previous\<close> twice, first without
  an allocation.\<close>

lemma derive_key_frees:
  assumes "wipes wipe" and "keyed_hash_32 kh"
  shows "derive_key_freeing wipe kh salt ikm info =
    (let key = kh (kh salt ikm) (info @ [1]) in (Inr key, [[], replicate 32 0, key]))"
proof -
  have c: "map of_nat [1..<256] = (1 :: u8) # map of_nat [Suc 1..<256]"
    by (subst upt_conv_Cons) simp_all
  have k: "length (kh a b) = 32" for a b using assms(2) by (simp add: keyed_hash_32_def)
  have w: "wipe bs = replicate (length bs) 0" for bs using assms(1) by (simp add: wipes_def)
  have "[Suc 1..<256] = Suc 1 # [Suc (Suc 1)..<256]" by (subst upt_conv_Cons) simp_all
  then show ?thesis
    by (simp only: derive_key_freeing_def kdf_derive_freeing_def hkdf_expand_freeing_def c list.map)
      (simp add: k w hkdf_extract_def try_freeing_def MAX_OKM_LEN_def Let_def)
qed

lemma key_file_secret:
  "length m = 32 \<Longrightarrow> slice 8 40 (encode_key_file h kind m) = m"
  by (simp add: encode_key_file_def Let_def slice_def)

lemma decoded_secret: "decode_key_file h bytes = Inr (kind, secret) \<Longrightarrow> secret = slice 8 40 bytes"
  by (cases "key_kind_from_u8 (bytes ! 5)") (auto simp: decode_key_file_def CHECKSUM_OFFSET_def split: if_splits)

lemma loads_free:
  assumes "check_permissions S p F = Inr () \<and> fs_read S p F = Some bytes \<and> decode_key_file h bytes = Inr (kind, secret)"
  shows "slice 8 40 bytes = secret \<and>
      load_secret_freeing h E S p F = (load_secret h E S p F, [bytes]) \<and>
      load_operator_freeing h E S p F = (load_operator h E S p F, [bytes]) \<and>
      load_identity_freeing h E S p F = (load_identity h E S p F, [bytes]) \<and>
      (kind = KindOperator \<longrightarrow> load_operator h E S p F = Inr \<lparr>ok_bytes = secret\<rparr> \<and> \<not> is_ok (load_identity h E S p F)) \<and>
      (kind = KindIdentity \<longrightarrow> load_identity h E S p F = Inr (identity_from_seed E secret) \<and>
         \<not> is_ok (load_operator h E S p F))"
  using assms decoded_secret [of h bytes kind secret]
  by (cases kind) (simp_all add: load_secret_freeing_def load_secret_def load_operator_freeing_def load_operator_def
      load_identity_freeing_def load_identity_def try_freeing_def)

section \<open>Properties\<close>

text \<open>C10: the keys of a transfer stay in freed memory. Deriving them always succeeds, and of the heap
  buffers it frees those of the expansion are wiped, but the two in which \<open>derive_key\<close> receives the
  derived bytes are not: after the call freed memory holds the complete payload key and the complete
  session key, whatever dropping the keys themselves wipes later.\<close>

theorem derived_keys_stay_in_freed_memory:
  assumes "wipes wipe" and "keyed_hash_32 kh"
  shows "\<exists>keys. transfer_keys_derive kh operator salt = Inr keys \<and>
    transfer_keys_derive_freeing wipe kh operator salt =
      (Inr keys, [[], replicate 32 0, tk_payload_key keys, [], replicate 32 0, tk_session_key keys]) \<and>
    transfer_keys_drop wipe keys = \<lparr>tk_payload_key = replicate 32 0, tk_session_key = replicate 32 0\<rparr>"
proof -
  have k: "length (kh a b) = 32" for a b using assms(2) by (simp add: keyed_hash_32_def)
  have w: "wipe bs = replicate (length bs) 0" for bs using assms(1) by (simp add: wipes_def)
  show ?thesis
    by (simp add: transfer_keys_derive_def transfer_keys_derive_freeing_def derive_key_eq [OF assms(2)]
        derive_key_frees [OF assms] try_freeing_def Let_def transfer_keys_drop_def k w)
qed

theorem derived_keys_stay_in_freed_memory_witness:
  "\<exists>keys. transfer_keys_derive_freeing (\<lambda>bs. replicate (length bs) 0) (\<lambda>k m. replicate 32 (of_nat (length m)))
       (replicate 32 1) (replicate 32 2) =
     (Inr keys, [[], replicate 32 0, tk_payload_key keys, [], replicate 32 0, tk_session_key keys]) \<and>
     tk_payload_key keys = replicate 32 31"
proof -
  let ?kh = "\<lambda>k m. replicate 32 (of_nat (length m)) :: bytes"
  have kh: "keyed_hash_32 ?kh" by (simp add: keyed_hash_32_def)
  have "tk_payload_key keys = replicate 32 31"
    if "transfer_keys_derive ?kh (replicate 32 1) (replicate 32 2) = Inr keys" for keys
    using that by (auto simp: transfer_keys_derive_def derive_key_eq [OF kh] INFO_PAYLOAD_KEY_def ascii_def)
  with derived_keys_stay_in_freed_memory [OF _ kh, of "\<lambda>bs. replicate (length bs) 0" "replicate 32 1" "replicate 32 2"]
  show ?thesis by (fastforce simp: wipes_def)
qed

text \<open>C11: the secret of a key file stays in freed memory. Saving a key of either kind, whether or not the file
  can be written, frees one heap buffer, which is not wiped and whose bytes 8 to 40 are the secret.
  Loading a readable file that holds a key of either kind, as that kind or as the other, frees one heap
  buffer too: the file as it was read, with the secret at the same place, also when the load is refused because the kind is the
  other one. Dropping the operator key wipes its own bytes, and dropping an identity key wipes only a
  copy of its seed: what remains of the key is what the signing key's own drop leaves.\<close>

theorem key_file_secret_stays_in_freed_memory:
  assumes "wipes wipe" and "length (ok_bytes key) = 32" and "length (expose_seed E identity) = 32"
  shows "(\<exists>buf. save_operator_freeing h S umask p key F = (save_operator h S umask p key F, [buf]) \<and>
      slice 8 40 buf = ok_bytes key) \<and>
    (\<exists>buf. save_identity_freeing h E S umask p identity F = (save_identity h E S umask p identity F, [buf]) \<and>
      slice 8 40 buf = expose_seed E identity) \<and>
    (check_permissions S p F = Inr () \<and> fs_read S p F = Some bytes \<and> decode_key_file h bytes = Inr (kind, secret) \<longrightarrow>
      slice 8 40 bytes = secret \<and>
      load_secret_freeing h E S p F = (load_secret h E S p F, [bytes]) \<and>
      load_operator_freeing h E S p F = (load_operator h E S p F, [bytes]) \<and>
      load_identity_freeing h E S p F = (load_identity h E S p F, [bytes]) \<and>
      (kind = KindOperator \<longrightarrow> load_operator h E S p F = Inr \<lparr>ok_bytes = secret\<rparr> \<and> \<not> is_ok (load_identity h E S p F)) \<and>
      (kind = KindIdentity \<longrightarrow> load_identity h E S p F = Inr (identity_from_seed E secret) \<and>
         \<not> is_ok (load_operator h E S p F))) \<and>
    ok_bytes (operator_drop wipe key) = replicate 32 0 \<and>
    identity_drop wipe E sk_drop identity = (\<lparr>ik_signing = sk_drop (ik_signing identity)\<rparr>, replicate 32 0)"
proof -
  have w: "wipe bs = replicate (length bs) 0" for bs using assms(1) by (simp add: wipes_def)
  have drops: "ok_bytes (operator_drop wipe key) = replicate 32 0"
    "identity_drop wipe E sk_drop identity = (\<lparr>ik_signing = sk_drop (ik_signing identity)\<rparr>, replicate 32 0)"
    using assms(2,3) by (simp_all add: operator_drop_def identity_drop_def expose_seed_def w)
  have saves: "\<exists>buf. save_operator_freeing h S umask p key F = (save_operator h S umask p key F, [buf]) \<and>
      slice 8 40 buf = ok_bytes key"
    "\<exists>buf. save_identity_freeing h E S umask p identity F = (save_identity h E S umask p identity F, [buf]) \<and>
      slice 8 40 buf = expose_seed E identity"
    using assms(2,3) by (simp_all add: save_operator_freeing_def save_operator_def save_identity_freeing_def
        save_identity_def key_file_secret Let_def)
  show ?thesis
    by (intro conjI saves drops impI [OF loads_free]) simp_all
qed

theorem key_file_secret_stays_in_freed_memory_witness:
  "\<exists>buf states. save_operator_freeing (\<lambda>m. replicate 32 9) permissive_os 0 ''k'' \<lparr>ok_bytes = replicate 32 7\<rparr> (\<lambda>_. None) =
      ((Inr (), states), [buf]) \<and> slice 8 40 buf = replicate 32 7"
proof -
  have "fst (save_operator (\<lambda>m. replicate 32 9) permissive_os 0 ''k'' \<lparr>ok_bytes = replicate 32 7\<rparr> (\<lambda>_. None)) = Inr ()"
    by (simp add: save_operator_def write_owner_only_def permissive_os_def Let_def)
  moreover note key_file_secret_stays_in_freed_memory [of "\<lambda>bs. replicate (length bs) 0" "\<lparr>ok_bytes = replicate 32 7\<rparr>"
      seed_only_ed25519 "\<lparr>ik_signing = replicate 32 5\<rparr>" "\<lambda>m. replicate 32 9" permissive_os 0 "''k''" "\<lambda>_. None",
      THEN conjunct1]
  ultimately show ?thesis
    by (cases "save_operator (\<lambda>m. replicate 32 9) permissive_os 0 ''k'' \<lparr>ok_bytes = replicate 32 7\<rparr> (\<lambda>_. None)")
      (auto simp: wipes_def expose_seed_def seed_only_ed25519_def)
qed

end
