(* ===== verification/Spec2Isabelle.thy ===== *)
theory Spec2Isabelle
  imports Optical_Transfer Qr Kdf_Aead Key_Files Crypt_Manifest Reference_Driver Ffi_Manifest_Contract
    Fuzz_Targets Capacity_Table Bench_Data_Path Ffi_Threads Ffi_Messages Error_Text_Tests Golden_Vectors Secret_Memory
begin

text \<open>
  Verification of the Dhow core.

  Dhow moves files across an air gap as a stream of QR codes: the sender encrypts and chunks a payload,
  erasure-codes every block, frames each symbol and shows the frames; the receiver films them, takes
  frames in any order, rebuilds the blocks, checks and decrypts. The Rust crates under
  \<open>src/core\<close> hold all of it: \<open>dhow-codec\<close> (wire formats, coding pipeline), \<open>dhow-crypt\<close> (keys,
  encryption, signed manifests) and \<open>dhow-ffi\<close> (the C interface the Go program calls). This library models
  the three crates function by function, and the programs around them (the reference driver, the fuzz
  targets, the benchmarks, the capacity table), and proves what makes them correct.

  \<^bold>\<open>How the code is modelled.\<close> Structs are records, enums datatypes, fixed-width
  integers words, \<open>usize\<close> a \<^typ>\<open>nat\<close>, byte arrays and strings lists of bytes,
  \<open>Result\<close> a sum with the error on the left. A panic is a value: \<^const>\<open>None\<close>
  in the codec and in the runs of \<open>Panics\<close>, the outcome \<open>Panics\<close> in the C
  interface. An error carries the format string of its message and the arguments (\<open>detail\<close>).
  Definitions keep the names of the source; where a name occurs in several places of the source it gets a
  prefix or suffix.

  \<^bold>\<open>The theories.\<close>

  \<^item> \<open>Dhow_Prelude\<close>: types and lemmas all share (results, slices, little-endian integers, checked
    arithmetic, \<open>div_ceil\<close>). \<open>Wire\<close>: the contracts of the wire formats as locales, \<open>prefix_codec\<close> and its
    fixed-width form \<open>fixed_codec\<close>, and \<open>stepwise_invariant\<close>. A codec theory interprets them with its
    parser, printer and well-formedness predicate and reads off exactness and injectivity.
  \<^item> \<open>Crc32c\<close> (\<open>crc32c.rs\<close>): tables and slicing-by-eight fold equal the bit-serial CRC of the reflected
    Castagnoli polynomial; bursts of four bytes are detected; streaming equals one-shot.
  \<^item> \<open>Float64\<close>: the \<open>f64\<close> operations that \<open>fec.rs\<close> and \<open>session_state.rs\<close> use, on rationals with infinities
    and \<open>NaN\<close>, rounding to the nearest with ties to even; the two zeros are one value, as no result the code
    computes tells them apart.
  \<^item> \<open>Chunker\<close> (\<open>chunker.rs\<close>): block and symbol layout, extraction and reassembly are inverse, and where
    \<open>total_symbols\<close> overflows.
  \<^item> \<open>Frame\<close> (\<open>frame.rs\<close>), \<open>Session_Header\<close> (\<open>session.rs\<close>, \<open>blake3.rs\<close>), \<open>Resume\<close> (\<open>resume.rs\<close>),
    \<open>Manifest_Codec\<close> (\<open>manifest.rs\<close>): the wire formats. Each parser accepts exactly the serializations of
    well-formed values; names of an accepted manifest stay below the extraction root; what checksums and
    MAC cover and what they do not.
  \<^item> \<open>Session_State\<close> (\<open>session_state.rs\<close>): the state machine as an inductive step relation, the
    sequences of calls it grants and that refused calls have no effect, its invariant, the paused receiver, and a progress that is always a number between 0 and 1.
  \<^item> \<open>Pipeline\<close> (\<open>pipeline.rs\<close>): encoder, interleaving, decoder with held bitmaps and journal digest, resume.
    \<open>Fec\<close> (\<open>fec.rs\<close>): the thin wrappers, and that the repair packets for a loss rate of one half do not
    survive that loss. \<open>Optical_Transfer\<close>: from any lossy, reordered, repeated,
    polluted stream the receiver that got the source packets delivers the payload.
  \<^item> \<open>Qr\<close> (\<open>qr.rs\<close>): the capacity search finds the exact limit; the symbol size it implies fits.
  \<^item> \<open>Kdf_Aead\<close> (\<open>kdf.rs\<close>, \<open>aead.rs\<close>), \<open>Key_Files\<close> (\<open>key.rs\<close>), \<open>Crypt_Manifest\<close> (\<open>dhow-crypt/src/manifest.rs\<close>):
    HKDF as in RFC 5869, payload encryption, key files on a file system with modes, signing and
    verification of manifests with the receiver's policy.
  \<^item> \<open>Ffi_Base\<close> (\<open>error.rs\<close>, \<open>guard.rs\<close>, \<open>lib.rs\<close> and the conventions of \<open>handle.rs\<close>), \<open>Ffi_Transfer\<close> and
    \<open>Ffi_Manifest\<close> (the entry points of \<open>handle.rs\<close>): a call is a function of the library state (boxes
    behind handles, last error, files) that returns, panics or is undefined behaviour. \<open>Ffi_Invariant\<close>:
    triples for calls, the contract of the boxes as the locale \<open>handle_contract\<close>, and that every one of the
    fifty entry points keeps it. \<open>Ffi_Contract\<close> and \<open>Ffi_Manifest_Contract\<close>: a transfer through the
    interface delivers, output is written only after every check, buffers follow the two-call
    convention, resume states and manifests round-trip.
  \<^item> \<open>Reference_Driver\<close> (\<open>examples/reference.rs\<close>): the driver that runs a transfer without the C interface,
    and that the interface computes the same.
  \<^item> \<open>Panics\<close>: computations that may panic, and the operations of Rust that do (indexing, slicing, array
    conversion, assertions, sums and differences with overflow checks). \<open>Parser_Runs\<close>: the parsers once more
    with each of these operations where the code has it; they return on every input what the total parsers
    compute, except that with overflow checks the resume parser panics on an input of half a gibibyte.
  \<^item> \<open>Fuzz_Targets\<close> (\<open>fuzz/fuzz_targets\<close>): no input fails an assertion of a target. \<open>Property_Tests\<close> (the
    property tests of \<open>chunker.rs\<close> and \<open>crc32c.rs\<close>): every sample passes. \<open>Bench_Data_Path\<close>
    (\<open>benches/data_path.rs\<close>): what is measured does not panic, and the forms compared compute the same.
    \<open>Capacity_Table\<close> (\<open>examples/gen_capacity.rs\<close>): every row the program prints is exact.
  \<^item> \<open>Ffi_Threads\<close>: calls of several threads in any order over the shared boxes, with one last-error slot per
    thread. Handles stay sound, and a thread reads its own error.
  \<^item> \<open>Error_Texts\<close> (the \<open>#[error(..)]\<close> strings of \<open>dhow-codec/src/lib.rs\<close>, \<open>qr.rs\<close> and \<open>dhow-crypt/src/lib.rs\<close>): the
    text of every error and message. Failures disclose neither keys nor plaintext; the name of a refused
    manifest entry reaches the message unescaped, NUL bytes included. \<open>Ffi_Messages\<close>: which errors print
    without a NUL, that every operation returns only such errors, and that no entry point stores another
    message, refused names excepted.
  \<^item> \<open>Unit_Tests\<close> and \<open>Error_Text_Tests\<close>: the unit tests of \<open>chunker.rs\<close>, \<open>crc32c.rs\<close>, \<open>blake3.rs\<close> and of both
    \<open>lib.rs\<close> as runs that pass. \<open>Golden_Vectors\<close> (\<open>proto/vectors.json\<close>): serializers and parsers agree with the
    vectors of the specification, the checksum of the session header excepted.
  \<^item> \<open>Secret_Memory\<close>: \<open>Drop\<close>, \<open>PartialEq\<close> and \<open>Debug\<close> of the key types, and the bytes of every heap buffer that
    \<open>kdf.rs\<close> and \<open>key.rs\<close> free: derived keys and secrets read from or written to a key file are among them.
  \<^item> This theory: the properties that span codec, cryptography and manifest.

  \<^bold>\<open>Code outside the repository\<close> is a parameter, with what the code relies on as hypotheses: BLAKE3 plain
  and keyed (\<open>h\<close>, \<open>kh\<close>; \<open>hash_32\<close> and \<open>keyed_hash_32\<close> say that digests have 32 bytes), RaptorQ (the record
  \<open>raptorq\<close>; \<open>raptorq_recovers\<close>: the source packets suffice, and packets of a block decode to the block or to
  nothing; where it panics is part of the record, and \<open>raptorq_takes\<close> says that it does not on the packets it made), XChaCha20-Poly1305 (the record \<open>aead\<close>; \<open>aead_correct\<close>), Ed25519 (the record \<open>ed25519\<close>;
  \<open>ed25519_signs\<close>), the QR encoder (\<open>qr_byte_mode\<close>: a fixed limit per version and level), memory erasure and
  constant-time comparison (\<open>wipe\<close>, \<open>ct\<close>; \<open>wipes\<close>, \<open>compares\<close>), system randomness, the operating system's
  permission to open, read and write a path, the text of its errors, and whether the build has overflow
  checks. No hypothesis is about secrecy or collisions: theorems on
  authenticity name what they need of the verifier. The instances used in the examples (\<open>whole_block_code\<close>,
  \<open>tagging_cipher\<close>, \<open>seed_only_ed25519\<close>, \<open>hundred_per_version\<close>) satisfy the hypotheses and are not models of the
  libraries.

  \<^bold>\<open>Bounds and fuel.\<close> Loops are structural recursion or have a termination proof. Fuel occurs in
  \<open>interleave_loop\<close> (the length of the longest block: each pass takes one frame of every block) and in
  the white-space functions of the reference driver (the length of the text). The theorem on the driver
  assumes fewer than \<open>2 ^ 31\<close> frames, since the interface reports their number as a C \<open>int\<close>, and a key path
  without NUL, since the interface takes it as a C string.

  \<^bold>\<open>Not modelled.\<close> Copies of secrets on the stack and in registers, the variants for systems other than Unix,
  panics inside the external crates other than those of RaptorQ on a received payload (\<open>decoder_accept_run\<close>), calls that overlap on one handle (the interface forbids them), the harnesses
  that run fuzz targets, property tests and benchmarks, the test files beside the modules, and the test of known
  BLAKE3 digests, since BLAKE3 is a parameter. The Go program drives the core and has no logic of it.
\<close>

section \<open>Frames on screen\<close>

lemma symbol_frame_length:
  assumes "keyed_hash_32 kh" and "length sid = 16" and "length (rq_serialize R pk) \<le> 65535"
  shows "\<exists>hdr. length hdr = FRAME_HEADER_SIZE \<and>
    frame_into_vec (symbol_frame R kh sid key b i pk) = hdr @ rq_serialize R pk"
proof -
  obtain h where h: "frame_header_new FtRepair sid b (of_nat i) (rq_serialize R pk) = Some h"
    using assms(3) by (simp add: frame_header_new_def MAX_PAYLOAD_LEN_def)
  have "frame_valid kh key (frame_build kh h (rq_serialize R pk) key)"
    by (rule frame_build_valid [OF assms(1,2) h])
  then have "frame_header_wf (set_mac h (compute_mac kh h key))"
    by (simp add: frame_valid_def frame_build_def frame_build_owned_def)
  from fhdr.length_to_vec [OF this] show ?thesis
    by (auto simp: symbol_frame_def h frame_build_owned_def frame_into_vec_def)
qed

lemma emitted_frame:
  assumes ok: "session_ok R kh sid key params payload p d"
    and enc: "encode_to_bytes R kh p payload = Inr frames" and f: "f \<in> set frames"
  shows "\<exists>hdr body. f = hdr @ body \<and> length hdr = FRAME_HEADER_SIZE \<and> 4 < length body \<and>
    length body \<le> 4 + unat (sp_symbol_size params)"
proof -
  from f enc obtain i g where i: "i < unat (sp_block_count params)"
    and g: "g \<in> set (block_frames R kh sid key params payload i)" and fg: "f = frame_into_vec g"
    by (auto simp: encode_session [OF ok] set_interleave)
  let ?data = "block_data params payload i"
  have ne: "?data \<noteq> []" using g by (auto simp: block_frames_def Let_def split: if_splits)
  from g ne obtain j pk where gj: "g = symbol_frame R kh sid key (of_nat i) j pk"
    and pk: "pk \<in> set (block_packets R params ?data (repair_count_of params))"
    by (auto simp: block_frames_def Let_def in_set_enumerate_eq)
  note rec = session_block(5) [OF ok i ne]
  note l = recovers_lengths [OF rec session_maps(7) [OF ok] pk]
  have "length (rq_serialize R pk) \<le> 4 + unat (sp_symbol_size params)"
    using rec pk by (simp add: raptorq_recovers_def Let_def)
  moreover obtain hdr where "length hdr = FRAME_HEADER_SIZE" "f = hdr @ rq_serialize R pk"
    using symbol_frame_length [of kh sid R pk key "of_nat i" j] l ok fg gj
    by (auto simp: session_ok_def)
  ultimately show ?thesis using l(1) by blast
qed

section \<open>Properties across components\<close>

text \<open>C1: a dataset goes through the whole system. The receiver that verifies the signed manifest
  against the sender's identity, sets up its decoder from the manifest's own session identifier and
  parameters, and takes any stream of the sender's frames (reordered, repeated, repair frames missing,
  foreign byte strings in between) containing every source packet, ends with the plaintext.\<close>

theorem dataset_delivered:
  assumes "ed25519_signs E" and "aead_correct A" and "manifest_wf m"
    and "sid = mh_session_id (mf_header m)" and "params = mh_params (mf_header m)"
    and "encrypt_payload A keys (mh_nonce (mf_header m)) sid plaintext = Inr ct"
    and "sp_payload_digest params = blake3_digest h ct"
    and "session_ok R kh sid (tk_session_key keys) params ct p d"
    and "encode_to_bytes R kh p ct = Inr frames" and "session_stream R kh d frames fs"
    and "sources_received R kh params ct d fs"
  shows "\<exists>vm. verify_signature E (identity_public E k) (sign_manifest E k m) = Inr vm \<and>
     decoder_new R (mh_session_id (mf_header vm)) (mh_params (mf_header vm)) (tk_session_key keys) = Inr d \<and>
     (\<exists>received. decoder_finish h (receive R kh d fs) = Inr received \<and>
        decrypt_payload_in_place A keys (mh_nonce (mf_header vm)) (mh_session_id (mf_header vm)) received =
          Inr plaintext)"
proof -
  let ?sig = "identity_sign E k (signing_bytes m)"
  let ?vm = "m\<lparr>mf_header := set_signature (mf_header m) ?sig\<rparr>"
  have l: "length ?sig = 64" using assms(1) by (simp add: identity_sign_def ed25519_signs_def)
  have "verify_signature E (identity_public E k) (sign_manifest E k m) = Inr ?vm"
    unfolding verify_signature_iff
    using manifest_wf_set_signature [OF assms(3) l] sign_manifest_eq [OF assms(1,3)]
      signing_bytes_set_signature [OF assms(3) l] assms(1)
    by (simp add: set_signature_def public_verify_def identity_public_def identity_sign_def ed25519_signs_def)
  moreover have "mh_session_id (mf_header ?vm) = sid" "mh_params (mf_header ?vm) = params"
    "mh_nonce (mf_header ?vm) = mh_nonce (mf_header m)"
    using assms(4,5) by (simp_all add: set_signature_def)
  moreover have "decoder_new R sid params (tk_session_key keys) = Inr d"
    using assms(8) by (simp add: session_ok_def)
  moreover have "decoder_finish h (receive R kh d fs) = Inr ct"
    using delivered [OF assms(8) _ assms(9-11)] assms(7) by simp
  moreover have "decrypt_payload_in_place A keys (mh_nonce (mf_header m)) sid ct = Inr plaintext"
    using decrypt_encrypt(2) [OF assms(2,6)] decrypt_in_place_eq [OF assms(2)] by simp
  ultimately show ?thesis by (intro exI [of _ ?vm]) (simp only: simp_thms ex_simps, blast)
qed

theorem dataset_delivered_witness:
  "\<exists>m d fs vm received. verify_signature seed_only_ed25519 (identity_public seed_only_ed25519 \<lparr>ik_signing = [1]\<rparr>)
       (sign_manifest seed_only_ed25519 \<lparr>ik_signing = [1]\<rparr> m) = Inr vm \<and>
     decoder_finish (\<lambda>m. replicate 32 0) (receive whole_block_code (\<lambda>k m. replicate 32 0) d fs) = Inr received \<and>
     decrypt_payload_in_place tagging_cipher
       \<lparr>tk_payload_key = replicate 32 1, tk_session_key = replicate 32 2\<rparr>
       (mh_nonce (mf_header vm)) (mh_session_id (mf_header vm)) received = Inr [5, 6]"
proof -
  let ?h = "\<lambda>m. replicate 32 0 :: bytes" and ?kh = "\<lambda>k m. replicate 32 0 :: bytes"
  let ?keys = "\<lparr>tk_payload_key = replicate 32 1, tk_session_key = replicate 32 2\<rparr>"
  let ?sid = "replicate 16 7 :: bytes" and ?nonce = "replicate 24 3 :: bytes"
  let ?ct = "[5, 6] @ replicate 16 72 :: bytes"
  let ?p = "small_session ?h ?ct"
  let ?m = "manifest_build (manifest_header_new ?sid [] 0 (replicate 32 2) ?nonce ?p) [] (replicate 64 0)"
  have ct: "encrypt_payload tagging_cipher ?keys ?nonce ?sid [5, 6] = Inr ?ct"
    by (simp add: encrypt_payload_def cipher_key_ok_def tagging_cipher_def Let_def)
  have wf: "manifest_wf ?m"
    by (simp add: manifest_wf_def manifest_build_def manifest_header_new_def manifest_header_wf_def
        set_signature_def session_params_wf_def small_session_def MAX_FILE_COUNT_def Let_def)
  have hd: "?sid = mh_session_id (mf_header ?m)" "?p = mh_params (mf_header ?m)"
    "?nonce = mh_nonce (mf_header ?m)"
    by (simp_all add: manifest_build_def manifest_header_new_def set_signature_def Let_def)
  have dig: "sp_payload_digest ?p = blake3_digest ?h ?ct"
    by (simp add: small_session_def blake3_digest_def)
  have kh: "keyed_hash_32 ?kh" by (simp add: keyed_hash_32_def)
  obtain p d where ok: "session_ok whole_block_code ?kh ?sid (tk_session_key ?keys) ?p ?ct p d"
    using small_session_ok [of ?sid ?ct ?kh "tk_session_key ?keys" ?h] kh by auto
  obtain frames where enc: "encode_to_bytes whole_block_code ?kh p ?ct = Inr frames"
    using encode_session [OF ok] by blast
  have st: "session_stream whole_block_code ?kh d frames frames" by (simp add: session_stream_def)
  have src: "sources_received whole_block_code ?kh ?p ?ct d frames"
    by (rule all_frames_suffice [OF ok enc order_refl])
  have "encrypt_payload tagging_cipher ?keys (mh_nonce (mf_header ?m)) ?sid [5, 6] = Inr ?ct"
    using ct hd(3) by simp
  from dataset_delivered [OF seed_only_signs tagging_cipher_correct wf hd(1,2) this dig ok enc st src,
      of "\<lparr>ik_signing = [1]\<rparr>"]
  show ?thesis by blast
qed

text \<open>C36: with a symbol size of at most \<open>max_symbol_size\<close> for a QR version and level, every frame the
  sender emits encodes into one QR code of that version and level.\<close>

theorem frames_fit_qr:
  assumes "session_ok R kh sid key params payload p d"
    and "encode_to_bytes R kh p payload = Inr frames"
    and "qr_byte_mode enc" and "max_symbol_size enc v e = Inr (Some n)"
    and "sp_symbol_size params \<le> n" and "f \<in> set frames"
  shows "is_ok (qr_encode_at enc f v e)"
proof -
  from emitted_frame [OF assms(1,2,6)] obtain hdr body where f: "f = hdr @ body"
    "length hdr = FRAME_HEADER_SIZE" "4 < length body" "length body \<le> 4 + unat (sp_symbol_size params)"
    by blast
  have "unat (sp_symbol_size params) \<le> unat n" using assms(5) by (simp add: word_le_nat_alt)
  with f have "length f \<le> FRAME_OVERHEAD + unat n" by (simp add: FRAME_OVERHEAD_def)
  then show ?thesis using encode_at_within [OF assms(3,4)] by blast
qed

theorem frames_fit_qr_witness:
  "\<exists>p frames. encode_to_bytes whole_block_code (\<lambda>k m. replicate 32 0) p [1, 2, 3] = Inr frames \<and>
     (\<forall>f \<in> set frames. is_ok (qr_encode_at hundred_per_version f 3 Low))"
proof -
  let ?h = "\<lambda>m. replicate 32 0 :: bytes" and ?kh = "\<lambda>k m. replicate 32 0 :: bytes"
  let ?p = "small_session ?h [1, 2, 3]"
  have kh: "keyed_hash_32 ?kh" by (simp add: keyed_hash_32_def)
  obtain p d where ok: "session_ok whole_block_code ?kh (replicate 16 7) [] ?p [1, 2, 3] p d"
    using small_session_ok [of "replicate 16 7" "[1, 2, 3]" ?kh "[]" ?h] kh by auto
  obtain frames where enc: "encode_to_bytes whole_block_code ?kh p [1, 2, 3] = Inr frames"
    using encode_session [OF ok] by blast
  obtain c where c: "capacity hundred_per_version 3 Low = Inr c"
    by (simp add: capacity_def MIN_VERSION_def MAX_VERSION_def)
  have "hundred_per_version (replicate 300 0) Low 3 \<noteq> None" "hundred_per_version (replicate 4097 0) Low 3 = None"
    by (simp_all add: hundred_per_version_def)
  then have c': "300 \<le> c" "c \<le> 4096"
    using capacity_exact [OF hundred_per_version_ok c, of "replicate 300 0"]
      capacity_exact [OF hundred_per_version_ok c, of "replicate 4097 0"] by simp_all
  then have m: "max_symbol_size hundred_per_version 3 Low = Inr (Some (of_nat (c - 50)))"
    by (simp add: max_symbol_size_def c FRAME_OVERHEAD_def FRAME_HEADER_SIZE_def)
  have "unat (of_nat (c - 50) :: u32) = c - 50" using c' by (intro unat_of_nat_lt) simp
  moreover have "unat (sp_symbol_size ?p) = 64" by (simp add: small_session_def)
  ultimately have le: "sp_symbol_size ?p \<le> of_nat (c - 50)"
    unfolding word_le_nat_alt using c' by linarith
  have "is_ok (qr_encode_at hundred_per_version f 3 Low)" if "f \<in> set frames" for f
    by (rule frames_fit_qr [OF ok enc hundred_per_version_ok m le that])
  with enc show ?thesis by blast
qed

end
